(* ===== verification/Prelude.thy ===== *)
theory Prelude
  imports Main "HOL-Library.Signed_Division"
begin

text \<open>
  Shared vocabulary of the development. The C++ code computes every index with the
  signed type \<open>Int\<close>; it is modelled as \<open>int\<close>, with C++'s truncating \<open>/\<close> and
  \<open>%\<close> written as \<open>sdiv\<close> and \<open>smod\<close> (HOL-Library.Signed\_Division). A local matrix
  (what \<open>Matrix::Get(i,j)\<close> reads from column-major storage) is a function of the
  index pair; a communication buffer (a stretch of the scratch arena) is a function of
  one flat offset. Writing loops of the source are folds of point updates over
  \<open>[0..n-1]\<close>, in the source's loop order; the lemmas here read such a loop back.
\<close>

type_synonym 'a lmat = "int \<times> int \<Rightarrow> 'a"
type_synonym 'a buf = "int \<Rightarrow> 'a"
type_synonym 'a gmat = "int \<times> int \<Rightarrow> 'a"

named_theorems idx_simps "index arithmetic of the distribution engine"

text \<open>
  Errors. \<open>LogicError\<close> throws a \<open>std::logic_error\<close>: the object keeps the state
  it had at the throw, so a throwing operation yields the error together with that state
  (\<open>Inl (e, s)\<close>); a normal return is \<open>Inr s\<close>. A blocked or mismatched
  communication (a process waiting for a message nobody sends, or a message longer than
  the receive buffer) is \<open>CommError\<close>. Checks written inside \<open>DEBUG_ONLY\<close> run only
  in a debug build: the build is a parameter of the operations that have such checks.
\<close>

datatype error = LogicError string | CommError

datatype build = Debug | Release

type_synonym 's exn = "(error \<times> 's) + 's"

section \<open>Truncating division on non-negative operands\<close>

lemma sdiv_nonneg_eq [simp, idx_simps]:
  "0 \<le> a \<Longrightarrow> 0 \<le> b \<Longrightarrow> (a::int) sdiv b = a div b"
  by (simp add: signed_divide_int_def sgn_if)

lemma smod_nonneg_eq [simp, idx_simps]:
  "0 \<le> a \<Longrightarrow> 0 \<le> b \<Longrightarrow> (a::int) smod b = a mod b"
  by (rule smod_mod_positive)

lemma div_less_of_less_mult [idx_simps]:
  assumes "0 < b" "a < c * b"
  shows "(a::int) div b < c"
proof -
  have "a div b * b \<le> a"
    using div_mult_mod_eq [of a b] pos_mod_sign [of b a] assms(1) by linarith
  then have "a div b * b < c * b" using assms(2) by linarith
  then show ?thesis using assms(1) by (simp add: mult_less_cancel_right)
qed

text \<open>Column-major layout of a \<open>m \<times> n\<close> block at stride \<open>m\<close>: offset \<open>i + j m\<close>.\<close>

lemma colmajor_bound [idx_simps]:
  fixes i j m n :: int
  assumes "0 \<le> i" "i < m" "0 \<le> j" "j < n"
  shows "0 \<le> j * m + i" and "j * m + i < m * n"
proof -
  show "0 \<le> j * m + i" using assms by simp
  have "j * m \<le> (n - 1) * m" using assms by (intro mult_right_mono) auto
  then show "j * m + i < m * n" using assms by (simp add: algebra_simps)
qed

lemma colmajor_inj:
  fixes i j i' j' m :: int
  assumes "0 \<le> i" "i < m" "0 \<le> i'" "i' < m"
  shows "j * m + i = j' * m + i' \<longleftrightarrow> i = i' \<and> j = j'"
proof
  assume eq: "j * m + i = j' * m + i'"
  then have "(j * m + i) mod m = (j' * m + i') mod m" by simp
  then have "i = i'" using assms by simp
  with eq assms show "i = i' \<and> j = j'" by simp
qed simp

section \<open>Loops over \<open>0 \<le> i < n\<close>\<close>

text \<open>\<open>for i=0; i<n; ++i\<close>: the body applied to the state for each index in order.\<close>

definition for_loop :: "int \<Rightarrow> (int \<Rightarrow> 's \<Rightarrow> 's) \<Rightarrow> 's \<Rightarrow> 's" where
  "for_loop n body s = fold body [0..n - 1] s"

lemma for_loop_eq: "for_loop n body = fold body [0..n - 1]"
  by (rule ext) (simp add: for_loop_def)

lemma for_loop_le0 [simp]: "n \<le> 0 \<Longrightarrow> for_loop n body s = s"
  by (simp add: for_loop_def)

lemma upto_loop_range [simp]: "{0..(n::int) - 1} = {0..<n}"
  by auto

text \<open>A loop whose body writes \<open>v i\<close> at position \<open>pos i\<close>.\<close>

lemma fold_upd_other:
  "x \<notin> pos ` set xs \<Longrightarrow> fold (\<lambda>i b. b(pos i := v i)) xs b x = b x"
  by (induction xs arbitrary: b) auto

lemma fold_upd_at:
  assumes "inj_on pos (set xs)" and "i \<in> set xs" and "distinct xs"
  shows "fold (\<lambda>i b. b(pos i := v i)) xs b (pos i) = v i"
  using assms
proof (induction xs arbitrary: b)
  case Nil
  then show ?case by simp
next
  case (Cons y ys)
  show ?case
  proof (cases "i = y")
    case True
    with Cons.prems have "pos i \<notin> pos ` set ys"
      by (auto dest: inj_onD)
    then have "fold (\<lambda>i b. b(pos i := v i)) ys (b(pos y := v y)) (pos i) = (b(pos y := v y)) (pos i)"
      by (rule fold_upd_other)
    with True show ?thesis
      by (simp only: fold_Cons comp_apply fun_upd_same)
  next
    case False
    with Cons show ?thesis by (simp add: inj_on_insert)
  qed
qed

lemma for_loop_upd_at:
  assumes "inj_on pos {0..<n}" and "0 \<le> i" and "i < n"
  shows "for_loop n (\<lambda>i b. b(pos i := v i)) b (pos i) = v i"
  unfolding for_loop_def
  by (rule fold_upd_at) (use assms in simp_all)

lemma for_loop_upd_other:
  "x \<notin> pos ` {0..<n} \<Longrightarrow> for_loop n (\<lambda>i b. b(pos i := v i)) b x = b x"
  unfolding for_loop_def by (rule fold_upd_other) simp

text \<open>Two nested loops, \<open>j\<close> outer and \<open>i\<close> inner, writing \<open>v i j\<close> at \<open>pos i j\<close>:
  the same as one loop over the pairs, so the lemmas above read it back.\<close>

definition for_loop2 :: "int \<Rightarrow> int \<Rightarrow> (int \<Rightarrow> int \<Rightarrow> 's \<Rightarrow> 's) \<Rightarrow> 's \<Rightarrow> 's" where
  "for_loop2 n m body s = for_loop n (\<lambda>j. for_loop m (\<lambda>i. body i j)) s"

lemma fold_concat: "fold f (concat xss) = fold (fold f) xss"
  by (induction xss) auto

definition pairs :: "int \<Rightarrow> int \<Rightarrow> (int \<times> int) list" where
  "pairs n m = concat (map (\<lambda>j. map (\<lambda>i. (i, j)) [0..m - 1]) [0..n - 1])"

lemma set_pairs [simp]: "set (pairs n m) = {0..<m} \<times> {0..<n}"
  by (auto simp: pairs_def)

lemma concat_map_pairs:
  "concat (map (\<lambda>j. map (\<lambda>i. (i, j)) is) js) = map prod.swap (List.product js is)"
  by (induction js) auto

lemma distinct_pairs: "distinct (pairs n m)"
  by (simp add: pairs_def concat_map_pairs distinct_map distinct_product)

lemma for_loop2_pairs:
  "for_loop2 n m (\<lambda>i j b. b(pos i j := v i j)) b
     = fold (\<lambda>ij b. b(case_prod pos ij := case_prod v ij)) (pairs n m) b"
  by (simp add: for_loop2_def for_loop_eq pairs_def fold_concat comp_def fold_map)

lemma for_loop2_upd_at:
  assumes "inj_on (case_prod pos) ({0..<m} \<times> {0..<n})"
    and "0 \<le> i" "i < m" "0 \<le> j" "j < n"
  shows "for_loop2 n m (\<lambda>i j b. b(pos i j := v i j)) b (pos i j) = v i j"
proof -
  have "fold (\<lambda>ij b. b(case_prod pos ij := case_prod v ij)) (pairs n m) b (case_prod pos (i, j))
        = case_prod v (i, j)"
    by (rule fold_upd_at) (use assms in \<open>simp_all add: distinct_pairs\<close>)
  then show ?thesis by (simp add: for_loop2_pairs)
qed

lemma for_loop2_upd_other:
  assumes "\<And>i j. 0 \<le> i \<Longrightarrow> i < m \<Longrightarrow> 0 \<le> j \<Longrightarrow> j < n \<Longrightarrow> pos i j \<noteq> x"
  shows "for_loop2 n m (\<lambda>i j b. b(pos i j := v i j)) b x = b x"
proof -
  have "x \<notin> case_prod pos ` set (pairs n m)"
    using assms by (clarsimp simp: image_iff) (metis assms)
  then show ?thesis
    by (simp add: for_loop2_pairs fold_upd_other)
qed

section \<open>Loops that write a known value on a set of positions\<close>

text \<open>
  \<open>writes f P v\<close>: the state transformer \<open>f\<close> leaves every position outside \<open>P\<close>
  alone and leaves \<open>v x\<close> at every \<open>x \<in> P\<close>, whatever it started from. A loop
  whose every step writes, at the positions it touches, the values of one common \<open>v\<close>
  writes \<open>v\<close> on the union of those positions, however the steps overlap; this is how
  the pack and unpack loops below are read back when their index maps are not simply
  injective.
\<close>

definition writes :: "(('k \<Rightarrow> 'v) \<Rightarrow> 'k \<Rightarrow> 'v) \<Rightarrow> 'k set \<Rightarrow> ('k \<Rightarrow> 'v) \<Rightarrow> bool" where
  "writes f P v \<longleftrightarrow> (\<forall>b x. f b x = (if x \<in> P then v x else b x))"

lemma writes_at: "writes f P v \<Longrightarrow> x \<in> P \<Longrightarrow> f b x = v x"
  by (simp add: writes_def)

lemma writes_other: "writes f P v \<Longrightarrow> x \<notin> P \<Longrightarrow> f b x = b x"
  by (simp add: writes_def)

lemma writes_upd [intro]: "w = v p \<Longrightarrow> writes (\<lambda>b. b(p := w)) {p} v"
  by (simp add: writes_def)

lemma writes_empty [intro]: "writes (\<lambda>b. b) {} v"
  by (simp add: writes_def)

lemma writes_comp: "writes f P v \<Longrightarrow> writes g Q v \<Longrightarrow> writes (\<lambda>b. g (f b)) (P \<union> Q) v"
  by (simp add: writes_def)

lemma writes_mono_set: "writes f P v \<Longrightarrow> P = Q \<Longrightarrow> writes f Q v"
  by simp

lemma writes_fold:
  assumes "\<And>i. i \<in> set xs \<Longrightarrow> writes (body i) (P i) v"
  shows "writes (fold body xs) (\<Union>i\<in>set xs. P i) v"
  using assms
proof (induction xs rule: rev_induct)
  case Nil
  then show ?case by (simp add: writes_def)
next
  case (snoc x xs)
  have "writes (\<lambda>b. body x (fold body xs b)) ((\<Union>i\<in>set xs. P i) \<union> P x) v"
    using snoc by (intro writes_comp) auto
  then show ?case by (simp add: Un_commute)
qed

lemma writes_for_loop [intro]:
  assumes "\<And>i. 0 \<le> i \<Longrightarrow> i < n \<Longrightarrow> writes (body i) (P i) v"
  shows "writes (for_loop n body) (\<Union>i\<in>{0..<n}. P i) v"
  using writes_fold [of "[0..n - 1]" body P v] assms by (simp add: for_loop_eq)

lemma writes_for_loop2 [intro]:
  assumes "\<And>i j. 0 \<le> i \<Longrightarrow> i < m \<Longrightarrow> 0 \<le> j \<Longrightarrow> j < n \<Longrightarrow> writes (body i j) (P i j) v"
  shows "writes (for_loop2 n m body) (\<Union>j\<in>{0..<n}. \<Union>i\<in>{0..<m}. P i j) v"
  unfolding for_loop2_def using assms by (intro writes_for_loop) auto

text \<open>Offset \<open>t\<close> of block \<open>k\<close> of \<open>n\<close> entries.\<close>

lemma block_div_mod:
  fixes k t n :: int
  assumes "0 \<le> t" "t < n"
  shows "(k * n + t) div n = k" "(k * n + t) mod n = t"
  using assms by simp_all

end
