(* ===== verification/Index.thy ===== *)
theory Index
  imports Prelude
begin

text \<open>
  The three index functions every pack and unpack loop of the engine is written with
  (Elemental's \<open>core/indexing\<close> header, called from every file under
  \<open>src/src/core\<close>): \<open>Shift\<close> is the first global index a process owns under an
  alignment, \<open>Length\<close> the number of global indices below \<open>n\<close> it owns, \<open>MaxLength\<close>
  the largest \<open>Length\<close> over all processes. The checked variants \<open>Shift\<close>,
  \<open>Length\<close> and the unchecked \<open>Shift_\<close>, \<open>Length_\<close> compute the same values.
\<close>

definition Shift :: "int \<Rightarrow> int \<Rightarrow> int \<Rightarrow> int" where
  "Shift rank firstRank numProcs = (rank + numProcs - firstRank) smod numProcs"

definition Length :: "int \<Rightarrow> int \<Rightarrow> int \<Rightarrow> int" where
  "Length n shift numProcs = (if n > shift then (n - shift - 1) sdiv numProcs + 1 else 0)"

definition MaxLength :: "int \<Rightarrow> int \<Rightarrow> int" where
  "MaxLength n numProcs = (if n > 0 then (n - 1) sdiv numProcs + 1 else 0)"

section \<open>Shift\<close>

lemma Shift_eq [idx_simps]:
  "0 \<le> k \<Longrightarrow> 0 \<le> a \<Longrightarrow> a < s \<Longrightarrow> Shift k a s = (k - a) mod s"
  by (simp add: Shift_def mod_add_self2 [of "k - a" s, symmetric] algebra_simps)

lemma Shift_range [idx_simps]:
  assumes "0 \<le> k" "0 \<le> a" "a < s"
  shows "0 \<le> Shift k a s" and "Shift k a s < s"
  using assms by (simp_all add: Shift_eq)

lemma Shift_self [simp]: "0 \<le> a \<Longrightarrow> a < s \<Longrightarrow> Shift a a s = 0"
  by (simp add: Shift_eq)

text \<open>The process whose shift is \<open>h\<close> under alignment \<open>a\<close> is \<open>(h + a) mod s\<close>.\<close>

lemma Shift_iff:
  assumes "0 \<le> k" "k < s" "0 \<le> a" "a < s"
  shows "Shift k a s = h \<longleftrightarrow> k = (h + a) mod s \<and> 0 \<le> h \<and> h < s"
proof -
  have "Shift k a s = (k - a) mod s" using assms by (simp add: Shift_eq)
  moreover have "((k - a) mod s = h) \<longleftrightarrow> k = (h + a) mod s \<and> 0 \<le> h \<and> h < s"
  proof
    assume "(k - a) mod s = h"
    moreover have "k mod s = k" using assms by simp
    ultimately show "k = (h + a) mod s \<and> 0 \<le> h \<and> h < s"
      using assms by (auto simp: mod_add_left_eq)
  next
    assume "k = (h + a) mod s \<and> 0 \<le> h \<and> h < s"
    then show "(k - a) mod s = h"
      by (auto simp: mod_diff_left_eq)
  qed
  ultimately show ?thesis by simp
qed

text \<open>
  Point-to-point realignment (spec 4.3, protocol 5): a process of rank \<open>k\<close> under
  alignment \<open>a\<close> receives from \<open>(k + s - (a - a')) % s\<close> and sends to
  \<open>(k + s + (a - a')) % s\<close>, where \<open>a'\<close> is the source's alignment. The operands of
  \<open>%\<close> are never negative, the two partner maps are inverse, and the partner it receives
  from holds, under \<open>a'\<close>, the shift the receiver needs under \<open>a\<close>.
\<close>

lemma partner_nonneg:
  fixes k s a a' :: int
  assumes "0 \<le> k" "0 \<le> a" "a < s" "0 \<le> a'" "a' < s"
  shows "0 \<le> k + s + (a - a')" and "0 \<le> k + s - (a - a')"
  using assms by linarith+

lemma partner_range [idx_simps]:
  fixes k s a a' :: int
  assumes "0 \<le> k" "0 \<le> a" "a < s" "0 \<le> a'" "a' < s"
  shows "0 \<le> (k + s + (a - a')) smod s" "(k + s + (a - a')) smod s < s"
    and "0 \<le> (k + s - (a - a')) smod s" "(k + s - (a - a')) smod s < s"
  using assms partner_nonneg [OF assms] by auto

lemma partner_inverse [idx_simps]:
  fixes k s a a' :: int
  assumes "0 \<le> k" "k < s" "0 \<le> a" "a < s" "0 \<le> a'" "a' < s"
  shows "((k + s - (a - a')) smod s + s + (a - a')) smod s = k"
    and "((k + s + (a - a')) smod s + s - (a - a')) smod s = k"
proof -
  have "((k + s - (a - a')) mod s + s + (a - a')) mod s
        = ((k + s - (a - a')) + (s + (a - a'))) mod s"
    by (metis add.assoc mod_add_left_eq)
  also have "(k + s - (a - a')) + (s + (a - a')) = k + s * 2" by simp
  also have "(k + s * 2) mod s = k" using assms by simp
  finally have "((k + s - (a - a')) mod s + s + (a - a')) mod s = k" .
  moreover have "0 \<le> (k + s - (a - a')) mod s + s + (a - a')"
    using assms pos_mod_sign [of s "k + s - (a - a')"] by linarith
  ultimately show "((k + s - (a - a')) smod s + s + (a - a')) smod s = k"
    using assms by simp
  have "((k + s + (a - a')) mod s + s - (a - a')) mod s
        = ((k + s + (a - a')) + (s - (a - a'))) mod s"
    by (metis add_diff_eq mod_add_left_eq)
  also have "(k + s + (a - a')) + (s - (a - a')) = k + s * 2" by simp
  also have "(k + s * 2) mod s = k" using assms by simp
  finally have "((k + s + (a - a')) mod s + s - (a - a')) mod s = k" .
  moreover have "0 \<le> (k + s + (a - a')) mod s + s - (a - a')"
    using assms pos_mod_sign [of s "k + s + (a - a')"] by linarith
  ultimately show "((k + s + (a - a')) smod s + s - (a - a')) smod s = k"
    using assms by simp
qed

lemma partner_Shift [idx_simps]:
  fixes k s a a' :: int
  assumes "0 \<le> k" "k < s" "0 \<le> a" "a < s" "0 \<le> a'" "a' < s"
  shows "Shift ((k + s - (a - a')) smod s) a' s = Shift k a s"
proof -
  have "Shift ((k + s - (a - a')) smod s) a' s = ((k + s - (a - a')) mod s - a') mod s"
    using assms by (simp add: Shift_eq)
  also have "\<dots> = (k + s - (a - a') - a') mod s"
    by (simp add: mod_diff_left_eq)
  also have "k + s - (a - a') - a' = (k - a) + s"
    by simp
  also have "((k - a) + s) mod s = (k - a) mod s"
    by (rule mod_add_self2)
  also have "\<dots> = Shift k a s"
    using assms by (simp add: Shift_eq)
  finally show ?thesis .
qed

section \<open>Length\<close>

lemma Length_nonneg [idx_simps]: "0 < s \<Longrightarrow> 0 \<le> Length n h s"
  by (simp add: Length_def pos_imp_zdiv_nonneg_iff)

lemma Length_le0 [simp]: "n \<le> h \<Longrightarrow> Length n h s = 0"
  by (simp add: Length_def)

text \<open>
  The characteristic property: the local index \<open>iLoc\<close> is below \<open>Length n h s\<close>
  exactly when the global index \<open>h + iLoc * s\<close> it stands for is below \<open>n\<close>.
  Every loop \<open>for iLoc < Length(n, h, s)\<close> of the engine visits the owned global
  indices \<open>h, h + s, h + 2 s, \<dots>\<close> below \<open>n\<close>, and no other.
\<close>

lemma Length_iff [idx_simps]:
  assumes "0 < s" "0 \<le> iLoc"
  shows "iLoc < Length n h s \<longleftrightarrow> h + iLoc * s < n"
proof (cases "h < n")
  case True
  then have L: "Length n h s = (n - h - 1) div s + 1"
    using assms by (simp add: Length_def)
  have "iLoc < (n - h - 1) div s + 1 \<longleftrightarrow> iLoc * s \<le> n - h - 1"
  proof
    assume "iLoc < (n - h - 1) div s + 1"
    then have "iLoc \<le> (n - h - 1) div s" by simp
    then have "iLoc * s \<le> (n - h - 1) div s * s"
      using assms by (simp add: mult_right_mono)
    also have "\<dots> \<le> n - h - 1"
      using assms div_mult_mod_eq [of "n - h - 1" s] pos_mod_sign [of s "n - h - 1"] by linarith
    finally show "iLoc * s \<le> n - h - 1" .
  next
    assume "iLoc * s \<le> n - h - 1"
    then have "iLoc * s div s \<le> (n - h - 1) div s"
      by (rule zdiv_mono1) (use assms in simp)
    then show "iLoc < (n - h - 1) div s + 1"
      using assms by simp
  qed
  then show ?thesis using L by (simp add: algebra_simps) linarith
next
  case False
  have "0 \<le> iLoc * s" using assms by simp
  then have "\<not> h + iLoc * s < n" using False by linarith
  with False assms show ?thesis
    by (simp add: Length_def)
qed

text \<open>The global indices a process with shift \<open>h\<close> owns below \<open>n\<close>.\<close>

lemma owned_indices:
  assumes "0 < s" "0 \<le> h" "h < s"
  shows "{i \<in> {0..<n}. i mod s = h} = (\<lambda>iLoc. h + iLoc * s) ` {0..<Length n h s}"
proof (intro set_eqI iffI)
  fix i assume i: "i \<in> {i \<in> {0..<n}. i mod s = h}"
  then have "i = h + i div s * s" and "0 \<le> i div s"
    using assms div_mult_mod_eq [of i s] by (auto simp: pos_imp_zdiv_nonneg_iff)
  moreover from calculation i have "i div s < Length n h s"
    using assms by (simp add: Length_iff)
  ultimately show "i \<in> (\<lambda>iLoc. h + iLoc * s) ` {0..<Length n h s}"
    by (intro image_eqI [of _ _ "i div s"]) auto
next
  fix i assume "i \<in> (\<lambda>iLoc. h + iLoc * s) ` {0..<Length n h s}"
  then obtain iLoc where "0 \<le> iLoc" "iLoc < Length n h s" and i: "i = h + iLoc * s"
    by auto
  with assms show "i \<in> {i \<in> {0..<n}. i mod s = h}"
    by (simp add: Length_iff)
qed

lemma Length_count:
  assumes "0 < s" "0 \<le> h" "h < s"
  shows "int (card {i \<in> {0..<n}. i mod s = h}) = Length n h s"
proof -
  have "inj_on (\<lambda>iLoc. h + iLoc * s) {0..<Length n h s}"
    using assms by (auto simp: inj_on_def)
  then have "card ((\<lambda>iLoc. h + iLoc * s) ` {0..<Length n h s}) = nat (Length n h s)"
    by (simp add: card_image)
  then have "card {i \<in> {0..<n}. i mod s = h} = nat (Length n h s)"
    by (simp only: owned_indices [OF assms])
  then show ?thesis
    using Length_nonneg [OF assms(1)] by simp
qed

lemma Length_step:
  assumes "0 < s" "0 \<le> h" "h < s" "0 \<le> n"
  shows "Length (n + 1) h s = Length n h s + (if n mod s = h then 1 else 0)"
proof -
  have "{i \<in> {0..<n + 1}. i mod s = h}
        = (if n mod s = h then insert n else id) {i \<in> {0..<n}. i mod s = h}"
    using assms by (cases "n mod s = h") (auto simp: order_le_less)
  moreover have "finite {i \<in> {0..<n}. i mod s = h}"
    by (rule finite_subset [of _ "{0..<n}"]) auto
  ultimately have "card {i \<in> {0..<n + 1}. i mod s = h}
        = card {i \<in> {0..<n}. i mod s = h} + (if n mod s = h then 1 else 0)"
    by (simp only: card_insert_disjoint) simp
  then show ?thesis
    using Length_count [OF assms(1-3), of n] Length_count [OF assms(1-3), of "n + 1"]
    by (simp split: if_splits)
qed

lemma Length_zero [simp]: "Length 0 h s = 0" if "0 \<le> h"
  using that by simp

lemma MaxLength_Length: "MaxLength n s = Length n 0 s"
  by (simp add: MaxLength_def Length_def)

lemma Length_antimono:
  assumes "0 < s" "h \<le> h'"
  shows "Length n h' s \<le> Length n h s"
proof (cases "h' < n")
  case True
  then have "(n - h' - 1) div s \<le> (n - h - 1) div s"
    using assms by (intro zdiv_mono1) auto
  with True assms show ?thesis by (simp add: Length_def)
next
  case False
  then show ?thesis using assms by (simp add: Length_def pos_imp_zdiv_nonneg_iff)
qed

lemma Length_le_MaxLength [idx_simps]:
  "0 < s \<Longrightarrow> 0 \<le> h \<Longrightarrow> Length n h s \<le> MaxLength n s"
  by (simp add: MaxLength_Length Length_antimono)

text \<open>Every global index below \<open>n\<close> is owned by exactly one shift.\<close>

lemma sum_Length:
  assumes "0 < s" "0 \<le> n"
  shows "(\<Sum>h\<in>{0..<s}. Length n h s) = n"
proof -
  have "(\<Sum>h\<in>{0..<s}. Length (int k) h s) = int k" for k
  proof (induction k)
    case 0
    then show ?case by (simp add: sum.neutral)
  next
    case (Suc k)
    have "(\<Sum>h\<in>{0..<s}. Length (int k + 1) h s)
          = (\<Sum>h\<in>{0..<s}. Length (int k) h s + (if int k mod s = h then 1 else 0))"
      using assms by (intro sum.cong) (simp_all add: Length_step)
    also have "\<dots> = int k + 1"
      using Suc.IH assms by (simp add: sum.distrib)
    finally show ?case by (simp add: add.commute)
  qed
  from this [of "nat n"] assms show ?thesis by simp
qed

section \<open>Rows of \<open>[VC,*]\<close> seen from a grid row\<close>

text \<open>The \<open>[VC,*]\<close> process \<open>fr + k r\<close> (grid row \<open>fr\<close>, column \<open>k\<close>) owns,
  under column alignment \<open>aA\<close> over \<open>p = r c\<close> processes, rows congruent to
  \<open>fr - aA\<close> modulo \<open>r\<close>; conversely every such row is owned by one of them.\<close>

lemma VC_shift_mod:
  fixes r c fr aA k :: int
  assumes "0 < r" "0 < c" "0 \<le> fr" "0 \<le> aA" "aA < r * c" "0 \<le> k"
  shows "Shift (fr + k * r) aA (r * c) mod r = (fr - aA) mod r"
proof -
  have "Shift (fr + k * r) aA (r * c) = (fr + k * r - aA) mod (r * c)"
    using assms by (simp add: Shift_eq)
  then have "Shift (fr + k * r) aA (r * c) mod r = (fr + k * r - aA) mod r"
    by (simp add: mod_mod_cancel)
  also have "\<dots> = (fr - aA + k * r) mod r" by (simp add: algebra_simps)
  also have "\<dots> = (fr - aA) mod r" by simp
  finally show ?thesis .
qed

lemma shift_offset:
  fixes t h r :: int
  assumes "0 < r" "0 \<le> t" "t mod r = h"
  shows "0 \<le> t - h" "(t - h) sdiv r = t div r" "t = h + ((t - h) sdiv r) * r"
proof -
  have t: "t = h + t div r * r" using assms div_mult_mod_eq [of t r] by simp
  have d: "0 \<le> t div r" using assms by (simp add: pos_imp_zdiv_nonneg_iff)
  have e: "t - h = t div r * r" using t by linarith
  then show "0 \<le> t - h" using d assms by simp
  then show "(t - h) sdiv r = t div r"
    using assms e by simp
  then show "t = h + ((t - h) sdiv r) * r" using t by simp
qed

lemma VC_owner:
  fixes r c fr aA gi :: int
  assumes r: "0 < r" and c: "0 < c" and fr: "0 \<le> fr" "fr < r" and aA: "0 \<le> aA" "aA < r * c"
    and gi: "0 \<le> gi" "gi mod r = (fr - aA) mod r"
  obtains k iLoc where "0 \<le> k" "k < c" "0 \<le> iLoc" "gi = Shift (fr + k * r) aA (r * c) + iLoc * (r * c)"
proof -
  let ?p = "r * c"
  have p: "0 < ?p" using r c by simp
  define t where "t = gi mod ?p"
  define s where "s = (t + aA) mod ?p"
  have s: "0 \<le> s" "s < ?p" using p by (simp_all add: s_def)
  have "s mod r = (t + aA) mod r" by (simp add: s_def mod_mod_cancel)
  also have "\<dots> = ((t mod r) + aA) mod r" by (simp add: mod_add_left_eq)
  also have "\<dots> = (gi mod r + aA) mod r" by (simp add: t_def mod_mod_cancel)
  also have "\<dots> = (gi + aA) mod r" by (simp add: mod_add_left_eq)
  also have "\<dots> = (gi mod r + aA) mod r" by (simp add: mod_add_left_eq)
  also have "\<dots> = ((fr - aA) mod r + aA) mod r" using gi by simp
  also have "\<dots> = fr" using fr by (simp add: mod_add_left_eq)
  finally have smod: "s mod r = fr" .
  define k where "k = s div r"
  have sk: "s = fr + k * r" using smod div_mult_mod_eq [of s r] by (simp add: k_def)
  have k: "0 \<le> k" "k < c"
    using s r by (simp_all add: k_def pos_imp_zdiv_nonneg_iff div_less_of_less_mult mult.commute)
  have "Shift s aA ?p = (s - aA) mod ?p" using s aA by (simp add: Shift_eq)
  also have "\<dots> = (t + aA - aA) mod ?p" unfolding s_def by (rule mod_diff_left_eq)
  also have "\<dots> = t" by (simp add: t_def)
  finally have sh: "Shift (fr + k * r) aA ?p = t" using sk by simp
  have "gi = t + gi div ?p * ?p" using div_mult_mod_eq [of gi ?p] by (simp add: t_def)
  moreover have "0 \<le> gi div ?p" using gi p by (simp add: pos_imp_zdiv_nonneg_iff)
  ultimately show ?thesis using that [of k "gi div ?p"] k sh by simp
qed

section \<open>Extents divisible by the stride\<close>

lemma int_eq_by_less:
  fixes a b :: int
  assumes "0 \<le> a" "0 \<le> b" "\<And>i. 0 \<le> i \<Longrightarrow> i < a \<longleftrightarrow> i < b"
  shows "a = b"
  using assms(3) [of a] assms(3) [of b] assms(1,2) by linarith

lemma Length_dvd:
  fixes n h s :: int
  assumes "0 < s" "0 \<le> h" "h < s" "s dvd n" "0 \<le> n"
  shows "Length n h s = n div s"
proof (rule int_eq_by_less)
  obtain k where n: "n = k * s" using assms(4) by (metis dvd_def mult.commute)
  show "0 \<le> Length n h s" using assms by (simp add: Length_nonneg)
  show "0 \<le> n div s" using assms by (simp add: pos_imp_zdiv_nonneg_iff)
  fix i :: int assume i: "0 \<le> i"
  have "h + i * s < k * s \<longleftrightarrow> i < k"
  proof
    assume "h + i * s < k * s"
    then have "i * s < k * s" using assms by linarith
    then show "i < k" using assms by (simp add: mult_less_cancel_right)
  next
    assume "i < k"
    then have "(i + 1) * s \<le> k * s" using assms by (intro mult_right_mono) auto
    then show "h + i * s < k * s" using assms by (simp add: algebra_simps)
  qed
  then show "i < Length n h s \<longleftrightarrow> i < n div s"
    using assms i n by (simp add: Length_iff)
qed

end
