(* ===== verification/Grid.thy ===== *)
theory Grid
  imports Index
begin

text \<open>
  The process grid (Elemental's \<open>Grid\<close> class; its source is not among the files of
  \<open>src/\<close>, so it is modelled from the spec, section 4.1). An \<open>r \<times> c\<close> grid numbers
  its \<open>p = r c\<close> processes by their column-major rank (\<open>VCRank\<close>): the process of
  rank \<open>q\<close> sits in row \<open>q mod r\<close> and column \<open>q div r\<close>; its row-major rank
  (\<open>VRRank\<close>) is \<open>col + row c\<close>. Every process is identified in the model by its
  column-major rank. The four communicators the engine's protocols use are the column
  of a process (\<open>MCComm\<close>, ranked by row), its row (\<open>MRComm\<close>, ranked by column),
  and the two flattenings (\<open>VCComm\<close>, \<open>VRComm\<close>); \<open>MDComm\<close> is the
  generalised diagonal of a process (ranked along it), \<open>MDPerpComm\<close> the processes of
  the same rank on the \<open>gcd(r, c)\<close> diagonals, \<open>SelfComm\<close> is
  \<open>mpi::COMM_SELF\<close>, the process alone. Each is given by the rank of a
  process in it and the member of a given rank, both pure functions of the grid's shape,
  as the spec requires.
\<close>

record grid =
  gheight :: int
  gwidth :: int

definition gsize :: "grid \<Rightarrow> int" where
  "gsize g = gheight g * gwidth g"

definition grid_ok :: "grid \<Rightarrow> bool" where
  "grid_ok g \<longleftrightarrow> 0 < gheight g \<and> 0 < gwidth g"

definition procs :: "grid \<Rightarrow> int set" where
  "procs g = {0..<gsize g}"

definition grow :: "grid \<Rightarrow> int \<Rightarrow> int" where
  "grow g q = q mod gheight g"

definition gcol :: "grid \<Rightarrow> int \<Rightarrow> int" where
  "gcol g q = q div gheight g"

definition vr_rank :: "grid \<Rightarrow> int \<Rightarrow> int" where
  "vr_rank g q = gcol g q + grow g q * gwidth g"

text \<open>From a row-major rank back to the column-major one, as the vector paths of
  \<open>[MC,MR] = [MR,MC]\<close> write it: \<open>(v / c) + r (v % c)\<close>.\<close>

definition vc_of_vr :: "grid \<Rightarrow> int \<Rightarrow> int" where
  "vc_of_vr g v = v div gwidth g + gheight g * (v mod gwidth g)"

text \<open>The diagonal a process lies on: the one through \<open>(d, 0)\<close> when \<open>row - col \<equiv> d\<close>
  modulo \<open>gcd(r, c)\<close>.\<close>

definition md_path :: "grid \<Rightarrow> int \<Rightarrow> int" where
  "md_path g q = (grow g q - gcol g q) mod gcd (gheight g) (gwidth g)"

text \<open>The rank of a process along its diagonal: the step \<open>k < lcm(r, c)\<close> at which the
  walk \<open>(d + k mod r, k mod c)\<close> from the diagonal's start reaches it.\<close>

definition md_rank :: "grid \<Rightarrow> int \<Rightarrow> int" where
  "md_rank g q = hd (filter (\<lambda>k. (md_path g q + k) mod gheight g = grow g q \<and> k mod gwidth g = gcol g q)
                        [0..lcm (gheight g) (gwidth g) - 1])"

datatype comm = MCComm | MRComm | VCComm | VRComm | MDComm | MDPerpComm | SelfComm

fun comm_size :: "grid \<Rightarrow> comm \<Rightarrow> int" where
  "comm_size g MCComm = gheight g"
| "comm_size g MRComm = gwidth g"
| "comm_size g VCComm = gsize g"
| "comm_size g VRComm = gsize g"
| "comm_size g MDComm = lcm (gheight g) (gwidth g)"
| "comm_size g MDPerpComm = gcd (gheight g) (gwidth g)"
| "comm_size g SelfComm = 1"

fun comm_rank :: "grid \<Rightarrow> comm \<Rightarrow> int \<Rightarrow> int" where
  "comm_rank g MCComm q = grow g q"
| "comm_rank g MRComm q = gcol g q"
| "comm_rank g VCComm q = q"
| "comm_rank g VRComm q = vr_rank g q"
| "comm_rank g MDComm q = md_rank g q"
| "comm_rank g MDPerpComm q = md_path g q"
| "comm_rank g SelfComm q = 0"

fun comm_member :: "grid \<Rightarrow> comm \<Rightarrow> int \<Rightarrow> int \<Rightarrow> int" where
  "comm_member g MCComm q k = k + gcol g q * gheight g"
| "comm_member g MRComm q k = grow g q + k * gheight g"
| "comm_member g VCComm q k = k"
| "comm_member g VRComm q k = vc_of_vr g k"
| "comm_member g MDComm q k =
     hd (filter (\<lambda>q'. md_path g q' = md_path g q \<and> md_rank g q' = k) [0..gsize g - 1])"
| "comm_member g MDPerpComm q k =
     hd (filter (\<lambda>q'. md_rank g q' = md_rank g q \<and> md_path g q' = k) [0..gsize g - 1])"
| "comm_member g SelfComm q k = q"

lemmas grid_defs = gsize_def grid_ok_def procs_def grow_def gcol_def vr_rank_def vc_of_vr_def

section \<open>Coordinates\<close>

lemma grow_range [idx_simps]: "grid_ok g \<Longrightarrow> 0 \<le> grow g q \<and> grow g q < gheight g"
  by (simp add: grid_defs)

lemma gcol_range [idx_simps]:
  "grid_ok g \<Longrightarrow> q \<in> procs g \<Longrightarrow> 0 \<le> gcol g q \<and> gcol g q < gwidth g"
  by (auto simp: grid_defs pos_imp_zdiv_nonneg_iff mult.commute intro: div_less_of_less_mult)

lemma vc_rowcol: "grid_ok g \<Longrightarrow> grow g q + gcol g q * gheight g = q"
  by (simp add: grid_defs mod_div_mult_eq add.commute)

lemma rowcol_vc:
  assumes "grid_ok g" "0 \<le> i" "i < gheight g"
  shows "grow g (i + j * gheight g) = i" and "gcol g (i + j * gheight g) = j"
  using assms by (simp_all add: grid_defs)

lemma rowcol_in_procs:
  assumes "grid_ok g" "0 \<le> i" "i < gheight g" "0 \<le> j" "j < gwidth g"
  shows "i + j * gheight g \<in> procs g"
proof -
  have "j * gheight g \<le> (gwidth g - 1) * gheight g"
    using assms by (intro mult_right_mono) (auto simp: grid_ok_def)
  then show ?thesis
    using assms by (auto simp: grid_defs algebra_simps)
qed

text \<open>The two flattenings are inverse to each other.\<close>

lemma vr_rank_range:
  assumes "grid_ok g" "q \<in> procs g"
  shows "0 \<le> vr_rank g q \<and> vr_rank g q < gsize g"
proof -
  have r: "0 \<le> grow g q" "grow g q < gheight g" and c: "0 \<le> gcol g q" "gcol g q < gwidth g"
    using assms grow_range gcol_range by auto
  have "grow g q * gwidth g \<le> (gheight g - 1) * gwidth g"
    using r assms by (intro mult_right_mono) (auto simp: grid_ok_def)
  with c r show ?thesis
    by (auto simp: vr_rank_def gsize_def algebra_simps)
qed

lemma vc_of_vr_rank: "grid_ok g \<Longrightarrow> q \<in> procs g \<Longrightarrow> vc_of_vr g (vr_rank g q) = q"
  using gcol_range [of g q] grow_range [of g q] vc_rowcol [of g q]
  by (simp add: vc_of_vr_def vr_rank_def algebra_simps)

lemma vr_rank_vc_of_vr:
  assumes "grid_ok g" "0 \<le> v" "v < gsize g"
  shows "vr_rank g (vc_of_vr g v) = v"
proof -
  have "0 \<le> v div gwidth g" "v div gwidth g < gheight g"
    using assms by (auto simp: grid_defs pos_imp_zdiv_nonneg_iff intro: div_less_of_less_mult)
  then show ?thesis
    using assms by (simp add: vc_of_vr_def vr_rank_def grid_defs mod_div_mult_eq add.commute)
qed

lemma vc_of_vr_range:
  assumes "grid_ok g" "0 \<le> v" "v < gsize g"
  shows "0 \<le> vc_of_vr g v \<and> vc_of_vr g v < gsize g"
proof -
  have "vr_rank g (vc_of_vr g v) = v" using assms by (rule vr_rank_vc_of_vr)
  have d: "0 \<le> v div gwidth g" "v div gwidth g < gheight g"
    using assms by (auto simp: grid_defs pos_imp_zdiv_nonneg_iff intro: div_less_of_less_mult)
  have m: "0 \<le> v mod gwidth g" "v mod gwidth g < gwidth g" using assms by (simp_all add: grid_defs)
  have "gheight g * (v mod gwidth g) \<le> gheight g * (gwidth g - 1)"
    using m assms by (intro mult_left_mono) (auto simp: grid_defs)
  then show ?thesis using d m by (auto simp: vc_of_vr_def gsize_def algebra_simps)
qed

section \<open>Reducing a flat rank to a coordinate\<close>

lemma mod_mod_dvd_add:
  fixes i a r p :: int
  assumes "r dvd p"
  shows "((i + a) mod p) mod r = (i + a mod r) mod r"
  using assms by (simp add: mod_mod_cancel mod_add_right_eq)

lemma gsize_mod_mod:
  "((i + a) mod gsize g) mod gheight g = (i + a mod gheight g) mod gheight g"
  "((i + a) mod gsize g) mod gwidth g = (i + a mod gwidth g) mod gwidth g"
  by (simp_all add: gsize_def mod_mod_dvd_add)

section \<open>Ranks along a generalised diagonal\<close>

text \<open>The walk that defines \<open>md_rank\<close> reaches every process within \<open>lcm(r, c)\<close>
  steps (Bezout's identity for \<open>r\<close> and \<open>c\<close>: the row and column conditions agree
  modulo \<open>gcd(r, c)\<close> exactly on the process's diagonal), so the rank is a step of
  the walk.\<close>

lemma md_walk_exists:
  assumes g: "grid_ok g" and q: "q \<in> procs g"
  shows "\<exists>k \<in> {0..<lcm (gheight g) (gwidth g)}.
           (md_path g q + k) mod gheight g = grow g q \<and> k mod gwidth g = gcol g q"
proof -
  let ?r = "gheight g" and ?c = "gwidth g"
  let ?d = "gcd ?r ?c" and ?L = "lcm ?r ?c"
  have r: "0 < ?r" and c: "0 < ?c" using g by (simp_all add: grid_ok_def)
  have L: "0 < ?L" using r c by (simp add: lcm_pos_int)
  have rowr: "grow g q mod ?r = grow g q" using r by (simp add: grow_def)
  have colc: "gcol g q mod ?c = gcol g q"
    using gcol_range [OF g q] by simp
  have "?d dvd (grow g q - gcol g q) - md_path g q"
    by (simp add: md_path_def mod_eq_dvd_iff [symmetric] mod_diff_eq)
  then obtain m where m: "(grow g q - gcol g q) - md_path g q = ?d * m" by (rule dvdE)
  obtain u v where uv: "u * ?r + v * ?c = ?d" using bezout_int by blast
  define x where "x = gcol g q + v * ?c * m"
  have x_c: "x mod ?c = gcol g q"
    using colc by (simp add: x_def mult.commute [of v] mult.assoc)
  have "v * ?c * m = ?d * m - u * ?r * m"
    using uv by (simp add: algebra_simps flip: uv)
  then have "md_path g q + x = grow g q + ?r * (- u * m)"
    using m by (simp add: x_def algebra_simps)
  then have x_r: "(md_path g q + x) mod ?r = grow g q"
    using rowr by (simp only: mod_mult_self2)
  define k where "k = x mod ?L"
  have "?r dvd ?L" "?c dvd ?L" by simp_all
  then have kr: "k mod ?r = x mod ?r" and kc: "k mod ?c = x mod ?c"
    unfolding k_def by (simp_all add: mod_mod_cancel)
  have "(md_path g q + k) mod ?r = grow g q"
    using x_r kr by (metis mod_add_right_eq)
  moreover have "k mod ?c = gcol g q" using kc x_c by simp
  moreover have "k \<in> {0..<?L}" using L by (simp add: k_def)
  ultimately show ?thesis by blast
qed

lemma md_rank_walk:
  assumes g: "grid_ok g" and q: "q \<in> procs g"
  shows "0 \<le> md_rank g q \<and> md_rank g q < lcm (gheight g) (gwidth g)
       \<and> (md_path g q + md_rank g q) mod gheight g = grow g q \<and> md_rank g q mod gwidth g = gcol g q"
proof -
  let ?P = "\<lambda>k. (md_path g q + k) mod gheight g = grow g q \<and> k mod gwidth g = gcol g q"
  let ?xs = "filter ?P [0..lcm (gheight g) (gwidth g) - 1]"
  have "?xs \<noteq> []" using md_walk_exists [OF g q] by (auto simp: filter_empty_conv)
  then have "hd ?xs \<in> set ?xs" by (rule hd_in_set)
  then show ?thesis by (simp add: md_rank_def)
qed

text \<open>A process is determined by its diagonal and its rank along it: the rank fixes
  its row (from the diagonal's start) and its column.\<close>

lemma md_unique:
  assumes g: "grid_ok g" and q: "q \<in> procs g" and q': "q' \<in> procs g"
    and p: "md_path g q' = md_path g q" and k: "md_rank g q' = md_rank g q"
  shows "q' = q"
proof -
  have "grow g q' = grow g q" "gcol g q' = gcol g q"
    using md_rank_walk [OF g q] md_rank_walk [OF g q'] p k by simp_all
  then show ?thesis using vc_rowcol [OF g, of q] vc_rowcol [OF g, of q'] by simp
qed

lemma hd_filter_unique:
  assumes "x \<in> set xs" "P x" "\<And>y. y \<in> set xs \<Longrightarrow> P y \<Longrightarrow> y = x"
  shows "hd (filter P xs) = x"
proof -
  have "filter P xs \<noteq> []" using assms(1,2) by (auto simp: filter_empty_conv)
  then have "hd (filter P xs) \<in> set (filter P xs)" by (rule hd_in_set)
  then show ?thesis using assms(3) by simp
qed

text \<open>The diagonal communicators are communicators: a process's rank along its
  diagonal lies in \<open>[0, lcm(r, c))\<close> and its diagonal in \<open>[0, gcd(r, c))\<close>, and in
  \<open>MDComm\<close> and \<open>MDPerpComm\<close> the member of a process's own rank is the process
  itself.\<close>

lemma md_comms_roundtrip:
  assumes g: "grid_ok g" and q: "q \<in> procs g"
  shows "0 \<le> comm_rank g MDComm q \<and> comm_rank g MDComm q < comm_size g MDComm
       \<and> 0 \<le> comm_rank g MDPerpComm q \<and> comm_rank g MDPerpComm q < comm_size g MDPerpComm
       \<and> comm_member g MDComm q (comm_rank g MDComm q) = q
       \<and> comm_member g MDPerpComm q (comm_rank g MDPerpComm q) = q"
proof -
  have gcd: "0 < gcd (gheight g) (gwidth g)" using g by (simp add: grid_ok_def)
  have set: "y \<in> set [0..gsize g - 1] \<longleftrightarrow> y \<in> procs g" for y by (auto simp: procs_def)
  have u: "y = q" if "y \<in> set [0..gsize g - 1]" "md_path g y = md_path g q" "md_rank g y = md_rank g q" for y
    using md_unique [OF g q] that set by blast
  have qs: "q \<in> set [0..gsize g - 1]" using q set by blast
  have "hd (filter (\<lambda>q'. md_path g q' = md_path g q \<and> md_rank g q' = md_rank g q) [0..gsize g - 1]) = q"
    "hd (filter (\<lambda>q'. md_rank g q' = md_rank g q \<and> md_path g q' = md_path g q) [0..gsize g - 1]) = q"
    using u by (auto intro: hd_filter_unique [OF qs])
  then show ?thesis
    using md_rank_walk [OF g q] gcd by (simp add: md_path_def)
qed

end
