(* ===== verification/Dist.thy ===== *)
theory Dist
  imports Grid
begin

text \<open>
  Distribution tags, the \<open>DistData\<close> descriptor and the state of a distributed matrix
  (the base class \<open>AbstractDistMatrix\<close>, whose source is not among the files of
  \<open>src/\<close>; modelled from the spec, sections 3 and 6). A distributed matrix is one
  record for all processes: its metadata (the same on every process) and, for each
  process, its local matrix and its scratch arena (\<open>auxMemory_\<close>).
  A process owns global row \<open>i\<close> when \<open>i mod ColStride = ColShift\<close>, and keeps it
  at local row \<open>(i - ColShift) / ColStride\<close>; columns likewise.
\<close>

datatype Dist = MC | MD | MR | VC | VR | STAR | CIRC

record DistData =
  ddColDist :: Dist
  ddRowDist :: Dist
  ddColAlign :: int
  ddRowAlign :: int
  ddRoot :: int
  ddGrid :: grid

record 'a DistMatrix =
  colDist :: Dist
  rowDist :: Dist
  dgrid :: grid
  mheight :: int
  mwidth :: int
  colAlign :: int
  rowAlign :: int
  root :: int
  viewing :: bool
  colConstrained :: bool
  rowConstrained :: bool
  locals :: "int \<Rightarrow> 'a lmat"
  auxMem :: "int \<Rightarrow> 'a buf"
  auxSize :: "int \<Rightarrow> int"

section \<open>Strides, ranks and shifts\<close>

text \<open>How many processes share an axis under a tag, and the rank of a process among
  them (\<open>MD\<close>: the \<open>lcm(r, c)\<close> processes of one generalised diagonal).\<close>

fun dist_stride :: "grid \<Rightarrow> Dist \<Rightarrow> int" where
  "dist_stride g MC = gheight g"
| "dist_stride g MR = gwidth g"
| "dist_stride g VC = gsize g"
| "dist_stride g VR = gsize g"
| "dist_stride g MD = lcm (gheight g) (gwidth g)"
| "dist_stride g STAR = 1"
| "dist_stride g CIRC = 1"

fun dist_rank :: "grid \<Rightarrow> Dist \<Rightarrow> int \<Rightarrow> int" where
  "dist_rank g MC q = grow g q"
| "dist_rank g MR q = gcol g q"
| "dist_rank g VC q = q"
| "dist_rank g VR q = vr_rank g q"
| "dist_rank g MD q = md_rank g q"
| "dist_rank g STAR q = 0"
| "dist_rank g CIRC q = 0"

definition ColStride :: "'a DistMatrix \<Rightarrow> int" where
  "ColStride M = dist_stride (dgrid M) (colDist M)"

definition RowStride :: "'a DistMatrix \<Rightarrow> int" where
  "RowStride M = dist_stride (dgrid M) (rowDist M)"

definition ColRank :: "'a DistMatrix \<Rightarrow> int \<Rightarrow> int" where
  "ColRank M q = dist_rank (dgrid M) (colDist M) q"

definition RowRank :: "'a DistMatrix \<Rightarrow> int \<Rightarrow> int" where
  "RowRank M q = dist_rank (dgrid M) (rowDist M) q"

text \<open>A process takes part when the matrix has data on it: everywhere, except that a
  \<open>[CIRC,CIRC]\<close> matrix lives on its root only and an \<open>MD\<close> matrix on the diagonal
  numbered by its root.\<close>

definition Participating :: "'a DistMatrix \<Rightarrow> int \<Rightarrow> bool" where
  "Participating M q \<longleftrightarrow>
     (if colDist M = CIRC then q = root M
      else if colDist M = MD \<or> rowDist M = MD then md_path (dgrid M) q = root M
      else True)"

definition ColShift :: "'a DistMatrix \<Rightarrow> int \<Rightarrow> int" where
  "ColShift M q = (if Participating M q then Shift (ColRank M q) (colAlign M) (ColStride M) else 0)"

definition RowShift :: "'a DistMatrix \<Rightarrow> int \<Rightarrow> int" where
  "RowShift M q = (if Participating M q then Shift (RowRank M q) (rowAlign M) (RowStride M) else 0)"

definition LocalHeight :: "'a DistMatrix \<Rightarrow> int \<Rightarrow> int" where
  "LocalHeight M q = (if Participating M q then Length (mheight M) (ColShift M q) (ColStride M) else 0)"

definition LocalWidth :: "'a DistMatrix \<Rightarrow> int \<Rightarrow> int" where
  "LocalWidth M q = (if Participating M q then Length (mwidth M) (RowShift M q) (RowStride M) else 0)"

definition DistData_of :: "'a DistMatrix \<Rightarrow> DistData" where
  "DistData_of M = \<lparr>ddColDist = colDist M, ddRowDist = rowDist M, ddColAlign = colAlign M,
     ddRowAlign = rowAlign M, ddRoot = root M, ddGrid = dgrid M\<rparr>"

text \<open>Which grid coordinate owns index \<open>i\<close> of an axis distributed by a tag under an
  alignment: a grid row for \<open>MC\<close> and \<open>VC\<close> (the owner \<open>(i + a) mod p\<close> of a
  \<open>VC\<close> axis sits in row \<open>((i + a) mod p) mod r\<close>), a grid column for \<open>MR\<close> and
  \<open>VR\<close>; the other tags do not tie an axis to one grid coordinate. Aligning two
  matrices means making these agree.\<close>

datatype gaxis = GRow | GCol

fun owner_coord :: "grid \<Rightarrow> Dist \<Rightarrow> int \<Rightarrow> int \<Rightarrow> (gaxis \<times> int) option" where
  "owner_coord g MC a i = Some (GRow, (i + a) mod gheight g)"
| "owner_coord g MR a i = Some (GCol, (i + a) mod gwidth g)"
| "owner_coord g VC a i = Some (GRow, ((i + a) mod gsize g) mod gheight g)"
| "owner_coord g VR a i = Some (GCol, ((i + a) mod gsize g) mod gwidth g)"
| "owner_coord g MD a i = None"
| "owner_coord g STAR a i = None"
| "owner_coord g CIRC a i = None"

section \<open>Well-formedness and what a distributed matrix stores\<close>

definition dm_wf :: "'a DistMatrix \<Rightarrow> bool" where
  "dm_wf M \<longleftrightarrow> grid_ok (dgrid M) \<and> 0 \<le> mheight M \<and> 0 \<le> mwidth M
     \<and> 0 \<le> colAlign M \<and> colAlign M < ColStride M
     \<and> 0 \<le> rowAlign M \<and> rowAlign M < RowStride M"

text \<open>
  \<open>holds M A\<close>: every participating process keeps, at each local position within its
  local size, the entry of the global matrix \<open>A\<close> that the distribution assigns there.
  This is the abstraction every redistribution must preserve (spec, sections 3 and 8).
\<close>

definition holds :: "'a DistMatrix \<Rightarrow> 'a gmat \<Rightarrow> bool" where
  "holds M A \<longleftrightarrow>
     (\<forall>q\<in>procs (dgrid M). Participating M q \<longrightarrow>
       (\<forall>iLoc\<in>{0..<LocalHeight M q}. \<forall>jLoc\<in>{0..<LocalWidth M q}.
          locals M q (iLoc, jLoc)
            = A (ColShift M q + iLoc * ColStride M, RowShift M q + jLoc * RowStride M)))"

section \<open>Base operations\<close>

text \<open>\<open>Empty\<close>: size \<open>0 \<times> 0\<close>, alignments reset and unconstrained.\<close>

definition Empty :: "'a DistMatrix \<Rightarrow> 'a DistMatrix" where
  "Empty M = M\<lparr>mheight := 0, mwidth := 0, colAlign := 0, rowAlign := 0,
     viewing := False, colConstrained := False, rowConstrained := False\<rparr>"

definition SetGrid :: "grid \<Rightarrow> 'a DistMatrix \<Rightarrow> 'a DistMatrix" where
  "SetGrid g M = (if dgrid M = g then M else (Empty M)\<lparr>dgrid := g\<rparr>)"

definition SetRoot :: "int \<Rightarrow> 'a DistMatrix \<Rightarrow> 'a DistMatrix" where
  "SetRoot r M = M\<lparr>root := r\<rparr>"

definition Align :: "int \<Rightarrow> int \<Rightarrow> 'a DistMatrix \<Rightarrow> 'a DistMatrix" where
  "Align ca ra M = M\<lparr>colAlign := ca, rowAlign := ra, colConstrained := True, rowConstrained := True\<rparr>"

definition AlignCols :: "int \<Rightarrow> 'a DistMatrix \<Rightarrow> 'a DistMatrix" where
  "AlignCols ca M = M\<lparr>colAlign := ca, colConstrained := True\<rparr>"

definition AlignRows :: "int \<Rightarrow> 'a DistMatrix \<Rightarrow> 'a DistMatrix" where
  "AlignRows ra M = M\<lparr>rowAlign := ra, rowConstrained := True\<rparr>"

text \<open>\<open>Resize\<close> reallocates the local buffers; their contents are unspecified
  afterwards, which the model leaves as they were.\<close>

definition Resize :: "int \<Rightarrow> int \<Rightarrow> 'a DistMatrix \<Rightarrow> 'a DistMatrix" where
  "Resize h w M = M\<lparr>mheight := h, mwidth := w\<rparr>"

definition AlignAndResize :: "int \<Rightarrow> int \<Rightarrow> int \<Rightarrow> int \<Rightarrow> 'a DistMatrix \<Rightarrow> 'a DistMatrix" where
  "AlignAndResize ca ra h w M =
     Resize h w (if viewing M then M
                 else M\<lparr>colAlign := (if colConstrained M then colAlign M else ca),
                        rowAlign := (if rowConstrained M then rowAlign M else ra)\<rparr>)"

definition AlignColsAndResize :: "int \<Rightarrow> int \<Rightarrow> int \<Rightarrow> 'a DistMatrix \<Rightarrow> 'a DistMatrix" where
  "AlignColsAndResize ca h w M =
     Resize h w (if viewing M \<or> colConstrained M then M else M\<lparr>colAlign := ca\<rparr>)"

definition AlignRowsAndResize :: "int \<Rightarrow> int \<Rightarrow> int \<Rightarrow> 'a DistMatrix \<Rightarrow> 'a DistMatrix" where
  "AlignRowsAndResize ra h w M =
     Resize h w (if viewing M \<or> rowConstrained M then M else M\<lparr>rowAlign := ra\<rparr>)"

text \<open>\<open>AlignRowsAndResize(ra, h, w, true)\<close>: the forcing variant takes the row
  alignment even when it is constrained (a view keeps its own); it is a logic error if
  the alignment still differs afterwards.\<close>

definition AlignRowsAndResizeForce :: "int \<Rightarrow> int \<Rightarrow> int \<Rightarrow> 'a DistMatrix \<Rightarrow> 'a DistMatrix exn" where
  "AlignRowsAndResizeForce ra h w M =
     (let M' = (if viewing M then M else M\<lparr>rowAlign := ra\<rparr>) in
      if rowAlign M' \<noteq> ra then Inl (LogicError ''Could not set row alignment'', M')
      else Inr (Resize h w M'))"

text \<open>\<open>auxMemory_.Require(n)\<close>: the arena grows to at least \<open>n\<close> entries, never
  shrinks; \<open>Release\<close> keeps the allocation for the next call.\<close>

definition Require :: "int \<Rightarrow> int \<Rightarrow> 'a DistMatrix \<Rightarrow> 'a DistMatrix" where
  "Require q n M = M\<lparr>auxSize := (auxSize M)(q := max (auxSize M q) n)\<rparr>"

lemmas base_defs = Empty_def SetGrid_def SetRoot_def Align_def AlignCols_def AlignRows_def
  Resize_def AlignAndResize_def AlignColsAndResize_def AlignRowsAndResize_def

lemmas dm_defs = ColStride_def RowStride_def ColRank_def RowRank_def ColShift_def RowShift_def
  LocalHeight_def LocalWidth_def Participating_def

end
