(* ===== verification/Comm.thy ===== *)
theory Comm
  imports Dist
begin

text \<open>
  The blocking collectives of the communication substrate the protocols call
  (\<open>mpi::SendRecv\<close>, \<open>mpi::AllToAll\<close>, \<open>mpi::AllGather\<close>, \<open>mpi::Scatter\<close>,
  \<open>mpi::Gather\<close>; Elemental's MPI wrappers are not among the files of \<open>src/\<close>, so they
  are modelled from the spec, section 5, and MPI's matching rules). Every process calls
  the collective with its own arguments; the model takes all processes' arguments and
  scratch arenas at once and returns all arenas afterwards. The send and receive buffers
  are stretches of each process's arena, given by offsets, as the source carves them out
  of \<open>auxMemory_\<close>. A call whose arguments do not match across the processes (a send
  nobody receives, a receive nobody serves, a message longer than its receive buffer)
  blocks or fails in MPI: the model returns \<open>None\<close>.
\<close>

section \<open>Point-to-point exchange\<close>

text \<open>The arguments one process passes to \<open>SendRecv(sendBuf, sendCount, sendTo,
  recvBuf, recvCount, recvFrom, comm)\<close>; the two ranks are ranks in \<open>comm\<close>.\<close>

record xfer =
  sendOff :: int
  sendCount :: int
  sendTo :: int
  recvOff :: int
  recvCount :: int
  recvFrom :: int

definition SendRecv_ok :: "grid \<Rightarrow> comm \<Rightarrow> (int \<Rightarrow> xfer) \<Rightarrow> bool" where
  "SendRecv_ok g cm X \<longleftrightarrow>
     (\<forall>q\<in>procs g.
        0 \<le> sendTo (X q) \<and> sendTo (X q) < comm_size g cm
      \<and> 0 \<le> recvFrom (X q) \<and> recvFrom (X q) < comm_size g cm
      \<and> recvFrom (X (comm_member g cm q (sendTo (X q)))) = comm_rank g cm q
      \<and> sendTo (X (comm_member g cm q (recvFrom (X q)))) = comm_rank g cm q
      \<and> sendCount (X (comm_member g cm q (recvFrom (X q)))) \<le> recvCount (X q))"

text \<open>The message a process receives is the prefix its partner sends; the rest of its
  receive buffer, and its whole arena outside it, is untouched.\<close>

definition SendRecv :: "grid \<Rightarrow> comm \<Rightarrow> (int \<Rightarrow> xfer) \<Rightarrow> (int \<Rightarrow> 'a buf) \<Rightarrow> (int \<Rightarrow> 'a buf) option" where
  "SendRecv g cm X mem =
     (if SendRecv_ok g cm X then
        Some (\<lambda>q. let s = comm_member g cm q (recvFrom (X q)) in
          (\<lambda>x. if recvOff (X q) \<le> x \<and> x < recvOff (X q) + sendCount (X s)
               then mem s (sendOff (X s) + (x - recvOff (X q))) else mem q x))
      else None)"

section \<open>All-gather\<close>

text \<open>\<open>AllGather(sendBuf, n, recvBuf, n, comm)\<close> with the same count \<open>n\<close> and the same
  buffer offsets on every process (as every call of the engine has them): block \<open>k\<close> of
  each receive buffer gets the \<open>n\<close> entries the member of rank \<open>k\<close> sends. Equal counts
  always match, so the call cannot fail.\<close>

definition AllGather :: "grid \<Rightarrow> comm \<Rightarrow> int \<Rightarrow> int \<Rightarrow> int \<Rightarrow> (int \<Rightarrow> 'a buf) \<Rightarrow> (int \<Rightarrow> 'a buf)" where
  "AllGather g cm n sOff rOff mem =
     (\<lambda>q x. if rOff \<le> x \<and> x < rOff + comm_size g cm * n
            then mem (comm_member g cm q ((x - rOff) div n)) (sOff + (x - rOff) mod n)
            else mem q x)"

section \<open>Scatter and gather\<close>

text \<open>\<open>Scatter(sendBuf, n, recvBuf, n, root, comm)\<close>: the member of rank \<open>root\<close>
  sends block \<open>k\<close> of \<open>n\<close> entries of its send buffer to the member of rank \<open>k\<close>;
  \<open>Gather(sendBuf, n, recvBuf, n, root, comm)\<close>: the root receives the \<open>n\<close> entries of
  the member of rank \<open>k\<close> into block \<open>k\<close>, and no other process's arena changes. Every
  call of the engine passes the same count, offsets and root on every process, so the
  calls match.\<close>

definition Scatter :: "grid \<Rightarrow> comm \<Rightarrow> int \<Rightarrow> int \<Rightarrow> int \<Rightarrow> int \<Rightarrow> (int \<Rightarrow> 'a buf) \<Rightarrow> (int \<Rightarrow> 'a buf)" where
  "Scatter g cm n sOff rOff rt mem =
     (\<lambda>q x. if rOff \<le> x \<and> x < rOff + n
            then mem (comm_member g cm q rt) (sOff + comm_rank g cm q * n + (x - rOff))
            else mem q x)"

definition Gather :: "grid \<Rightarrow> comm \<Rightarrow> int \<Rightarrow> int \<Rightarrow> int \<Rightarrow> int \<Rightarrow> (int \<Rightarrow> 'a buf) \<Rightarrow> (int \<Rightarrow> 'a buf)" where
  "Gather g cm n sOff rOff rt mem =
     (\<lambda>q x. if comm_rank g cm q = rt \<and> rOff \<le> x \<and> x < rOff + comm_size g cm * n
            then mem (comm_member g cm q ((x - rOff) div n)) (sOff + (x - rOff) mod n)
            else mem q x)"

text \<open>The same scatter where the receive buffer lies at a different offset of each
  process's arena (the root of \<open>[MC,MR] = [CIRC,CIRC]\<close> keeps its send buffer in front
  of it, the others do not).\<close>

definition Scatter_offs :: "grid \<Rightarrow> comm \<Rightarrow> int \<Rightarrow> int \<Rightarrow> (int \<Rightarrow> int) \<Rightarrow> int \<Rightarrow> (int \<Rightarrow> 'a buf) \<Rightarrow> (int \<Rightarrow> 'a buf)" where
  "Scatter_offs g cm n sOff rOff rt mem =
     (\<lambda>q x. if rOff q \<le> x \<and> x < rOff q + n
            then mem (comm_member g cm q rt) (sOff + comm_rank g cm q * n + (x - rOff q))
            else mem q x)"

lemma SendRecv_Some:
  assumes "SendRecv_ok g cm X"
  shows "SendRecv g cm X mem = Some (\<lambda>q x.
      if recvOff (X q) \<le> x \<and> x < recvOff (X q) + sendCount (X (comm_member g cm q (recvFrom (X q))))
      then mem (comm_member g cm q (recvFrom (X q)))
               (sendOff (X (comm_member g cm q (recvFrom (X q)))) + (x - recvOff (X q)))
      else mem q x)"
  using assms by (simp add: SendRecv_def Let_def)

lemma SendRecv_None: "\<not> SendRecv_ok g cm X \<Longrightarrow> SendRecv g cm X mem = None"
  by (simp add: SendRecv_def)

section \<open>All-to-all exchange\<close>

text \<open>\<open>AllToAll(sendBuf, sendCount, recvBuf, recvCount, comm)\<close>: the \<open>k\<close>-th block of
  \<open>sendCount\<close> entries of each process goes to the member of rank \<open>k\<close>, which stores
  it as its block number \<open>rank of the sender\<close> of \<open>recvCount\<close> entries. MPI requires
  every sender's count to equal the receiver's.\<close>

record a2a =
  a2aSendOff :: int
  a2aSendCount :: int
  a2aRecvOff :: int
  a2aRecvCount :: int

definition AllToAll_ok :: "grid \<Rightarrow> comm \<Rightarrow> (int \<Rightarrow> a2a) \<Rightarrow> bool" where
  "AllToAll_ok g cm X \<longleftrightarrow>
     (\<forall>q\<in>procs g. 0 \<le> a2aRecvCount (X q)
        \<and> (\<forall>k\<in>{0..<comm_size g cm}. a2aSendCount (X (comm_member g cm q k)) = a2aRecvCount (X q)))"

definition AllToAll :: "grid \<Rightarrow> comm \<Rightarrow> (int \<Rightarrow> a2a) \<Rightarrow> (int \<Rightarrow> 'a buf) \<Rightarrow> (int \<Rightarrow> 'a buf) option" where
  "AllToAll g cm X mem =
     (if AllToAll_ok g cm X then
        Some (\<lambda>q x. let n = a2aRecvCount (X q); d = x - a2aRecvOff (X q) in
          if 0 \<le> d \<and> d < comm_size g cm * n then
            (let s = comm_member g cm q (d div n) in
             mem s (a2aSendOff (X s) + comm_rank g cm q * a2aSendCount (X s) + d mod n))
          else mem q x)
      else None)"

text \<open>\<open>mpi::Pad(n)\<close>: the block size actually exchanged, at least one entry so that
  no buffer is empty.\<close>

definition Pad :: "int \<Rightarrow> int" where
  "Pad n = max n 1"

lemma Pad_ge: "n \<le> Pad n" "0 < Pad n"
  by (simp_all add: Pad_def)

lemma Pad_fit:
  assumes "0 < s" "0 < s'" "0 \<le> h" "0 \<le> h'"
  shows "Length n h s * Length n' h' s' \<le> Pad (MaxLength n s * MaxLength n' s')"
proof -
  have "Length n h s * Length n' h' s' \<le> MaxLength n s * MaxLength n' s'"
    using assms by (intro mult_mono Length_le_MaxLength) (auto simp: MaxLength_Length Length_nonneg)
  also have "\<dots> \<le> Pad (MaxLength n s * MaxLength n' s')" by (rule Pad_ge)
  finally show ?thesis .
qed

text \<open>What a process finds at entry \<open>t\<close> of its \<open>k\<close>-th receive block.\<close>

lemma AllToAll_at:
  assumes "AllToAll g cm X mem = Some mem'"
    and "0 \<le> k" "k < comm_size g cm" "0 \<le> t" "t < a2aRecvCount (X q)"
  shows "mem' q (a2aRecvOff (X q) + k * a2aRecvCount (X q) + t)
     = mem (comm_member g cm q k)
         (a2aSendOff (X (comm_member g cm q k)) + comm_rank g cm q * a2aSendCount (X (comm_member g cm q k)) + t)"
proof -
  let ?n = "a2aRecvCount (X q)"
  have d: "(k * ?n + t) div ?n = k" "(k * ?n + t) mod ?n = t"
    using assms(4,5) by simp_all
  have "k * ?n + t < comm_size g cm * ?n"
  proof -
    have "k * ?n \<le> (comm_size g cm - 1) * ?n"
      using assms by (intro mult_right_mono) auto
    then show ?thesis using assms(5) by (simp add: algebra_simps)
  qed
  moreover have "0 \<le> k * ?n + t" using assms by simp
  ultimately show ?thesis
    using assms(1) d by (auto simp: AllToAll_def Let_def add.assoc split: if_splits)
qed

lemma AllToAll_Some: "AllToAll_ok g cm X \<Longrightarrow> \<exists>mem'. AllToAll g cm X mem = Some mem'"
  by (simp add: AllToAll_def)

lemma SendRecv_at:
  assumes "SendRecv g cm X mem = Some mem'"
    and "0 \<le> t" "t < sendCount (X (comm_member g cm q (recvFrom (X q))))"
  shows "mem' q (recvOff (X q) + t)
     = mem (comm_member g cm q (recvFrom (X q))) (sendOff (X (comm_member g cm q (recvFrom (X q)))) + t)"
  using assms by (auto simp: SendRecv_def Let_def split: if_splits)

lemma AllGather_at:
  assumes "0 \<le> k" "k < comm_size g cm" "0 \<le> t" "t < n"
  shows "AllGather g cm n sOff rOff mem q (rOff + k * n + t) = mem (comm_member g cm q k) (sOff + t)"
proof -
  have d: "(k * n + t) div n = k" "(k * n + t) mod n = t" using assms(3,4) by simp_all
  have "k * n \<le> (comm_size g cm - 1) * n" using assms by (intro mult_right_mono) auto
  then have "k * n + t < comm_size g cm * n" using assms(4) by (simp add: algebra_simps)
  moreover have "0 \<le> k * n + t" using assms by simp
  ultimately show ?thesis using d by (simp add: AllGather_def add.assoc)
qed

lemma Scatter_at:
  assumes "0 \<le> t" "t < n"
  shows "Scatter g cm n sOff rOff rt mem q (rOff + t)
       = mem (comm_member g cm q rt) (sOff + comm_rank g cm q * n + t)"
  using assms by (simp add: Scatter_def)

lemma Scatter_offs_at:
  assumes "0 \<le> t" "t < n"
  shows "Scatter_offs g cm n sOff rOff rt mem q (rOff q + t)
       = mem (comm_member g cm q rt) (sOff + comm_rank g cm q * n + t)"
  using assms by (simp add: Scatter_offs_def)

lemma Gather_at:
  assumes "comm_rank g cm q = rt" "0 \<le> k" "k < comm_size g cm" "0 \<le> t" "t < n"
  shows "Gather g cm n sOff rOff rt mem q (rOff + k * n + t) = mem (comm_member g cm q k) (sOff + t)"
proof -
  have "AllGather g cm n sOff rOff mem q (rOff + k * n + t) = mem (comm_member g cm q k) (sOff + t)"
    using assms(2-5) by (rule AllGather_at)
  then show ?thesis using assms(1) by (simp add: AllGather_def Gather_def)
qed

end
