(* ===== verification/Pack.thy ===== *)
theory Pack
  imports Comm
begin

text \<open>
  The pack and unpack loops shared by the protocols. The commonest copies a whole
  \<open>lh \<times> lw\<close> local matrix into a buffer column by column (one \<open>MemCopy\<close> of
  \<open>lh\<close> entries per local column, so entry \<open>(i, j)\<close> lands at offset \<open>j lh + i\<close>)
  and back. The lemmas read each loop back at every position it writes, and show the
  facts about distributed matrices that do not depend on the protocol: which fields the
  abstraction \<open>holds\<close> reads, and that a \<open>[MC,MR]\<close>-type matrix is held on every
  process.
\<close>

definition pack_local :: "int \<Rightarrow> int \<Rightarrow> 'a lmat \<Rightarrow> int \<Rightarrow> 'a buf \<Rightarrow> 'a buf" where
  "pack_local lh lw A off buf =
     for_loop2 lw lh (\<lambda>iLoc jLoc b. b(off + jLoc * lh + iLoc := A (iLoc, jLoc))) buf"

definition unpack_local :: "int \<Rightarrow> int \<Rightarrow> 'a buf \<Rightarrow> int \<Rightarrow> 'a lmat \<Rightarrow> 'a lmat" where
  "unpack_local lh lw buf off loc =
     for_loop2 lw lh (\<lambda>iLoc jLoc m. m((iLoc, jLoc) := buf (off + jLoc * lh + iLoc))) loc"

text \<open>The distributed form of a global matrix: every process holds the entries its
  shifts and strides select. It is what a correct redistribution produces, and gives
  concrete inputs to the theorems below.\<close>

text \<open>\<open>MemCopy(dst, src, n)\<close>: \<open>n\<close> consecutive entries of a source read through
  \<open>src\<close> (a column of a local matrix, or a stretch of a buffer) copied to
  \<open>dst, dst + 1, \<dots>\<close>.\<close>

definition MemCopy :: "int \<Rightarrow> (int \<Rightarrow> 'a) \<Rightarrow> int \<Rightarrow> 'a buf \<Rightarrow> 'a buf" where
  "MemCopy dst src n buf = for_loop n (\<lambda>i b. b(dst + i := src i)) buf"

definition distribute :: "'a gmat \<Rightarrow> 'a DistMatrix \<Rightarrow> 'a DistMatrix" where
  "distribute G M = M\<lparr>locals := \<lambda>q (iLoc, jLoc).
      G (ColShift M q + iLoc * ColStride M, RowShift M q + jLoc * RowStride M)\<rparr>"

definition same_layout :: "'a DistMatrix \<Rightarrow> 'a DistMatrix \<Rightarrow> bool" where
  "same_layout M N \<longleftrightarrow> colDist M = colDist N \<and> rowDist M = rowDist N \<and> dgrid M = dgrid N
     \<and> mheight M = mheight N \<and> mwidth M = mwidth N \<and> colAlign M = colAlign N
     \<and> rowAlign M = rowAlign N \<and> root M = root N"

definition is_MC_MR :: "'a DistMatrix \<Rightarrow> bool" where
  "is_MC_MR M \<longleftrightarrow> colDist M = MC \<and> rowDist M = MR"

text \<open>A matrix of the \<open>[VC,*]\<close> type: rows dealt over all processes in column-major
  order, columns replicated.\<close>

definition is_VC_STAR :: "'a DistMatrix \<Rightarrow> bool" where
  "is_VC_STAR M \<longleftrightarrow> colDist M = VC \<and> rowDist M = STAR"

text \<open>The \<open>[*,MC]\<close> type (columns dealt over the grid's rows, rows replicated) and the
  \<open>[MR,*]\<close> type (rows dealt over the grid's columns, columns replicated).\<close>

definition is_STAR_MC :: "'a DistMatrix \<Rightarrow> bool" where
  "is_STAR_MC M \<longleftrightarrow> colDist M = STAR \<and> rowDist M = MC"

definition is_MR_STAR :: "'a DistMatrix \<Rightarrow> bool" where
  "is_MR_STAR M \<longleftrightarrow> colDist M = MR \<and> rowDist M = STAR"

lemma colmajor_inj_on:
  "inj_on (\<lambda>(i, j). off + j * lh + i) ({0..<lh} \<times> {0..<lw::int})"
  by (auto simp: inj_on_def add.assoc colmajor_inj)

lemma pack_local_at:
  assumes "0 \<le> i" "i < lh" "0 \<le> j" "j < lw"
  shows "pack_local lh lw A off buf (off + j * lh + i) = A (i, j)"
  unfolding pack_local_def
  by (rule for_loop2_upd_at [where pos = "\<lambda>i j. off + j * lh + i"])
     (use assms colmajor_inj_on in simp_all)

lemma unpack_local_at:
  assumes "0 \<le> i" "i < lh" "0 \<le> j" "j < lw"
  shows "unpack_local lh lw buf off loc (i, j) = buf (off + j * lh + i)"
  unfolding unpack_local_def
  by (rule for_loop2_upd_at [where pos = "\<lambda>i j. (i, j)"]) (use assms in \<open>simp_all add: inj_on_def\<close>)

lemma pack_local_other:
  assumes "x < off \<or> off + lh * lw \<le> x"
  shows "pack_local lh lw A off buf x = buf x"
  unfolding pack_local_def
proof (rule for_loop2_upd_other)
  fix i j assume "0 \<le> i" "i < lh" "0 \<le> j" "j < lw"
  then have "0 \<le> j * lh + i" "j * lh + i < lh * lw"
    by (simp_all add: colmajor_bound)
  with assms show "off + j * lh + i \<noteq> x" by auto
qed

lemma MemCopy_writes:
  assumes "\<And>i. 0 \<le> i \<Longrightarrow> i < n \<Longrightarrow> src i = v (dst + i)"
  shows "writes (MemCopy dst src n) {dst..<dst + n} v"
proof -
  have "writes (for_loop n (\<lambda>i b. b(dst + i := src i))) (\<Union>i\<in>{0..<n}. {dst + i}) v"
    using assms by (intro writes_for_loop writes_upd) auto
  moreover have "(\<Union>i\<in>{0..<n}. {dst + i}) = {dst..<dst + n}"
    by (auto intro!: bexI [where x = "x - dst" for x])
  ultimately show ?thesis
    by (simp add: MemCopy_def [abs_def])
qed

section \<open>What \<open>holds\<close> reads\<close>

text \<open>Two matrices that agree on distribution, grid, size, alignment, root and local
  data hold the same global matrix.\<close>

lemma same_layout_dm [simp]:
  assumes "same_layout M N"
  shows "ColStride M = ColStride N" "RowStride M = RowStride N" "Participating M = Participating N"
    "ColShift M = ColShift N" "RowShift M = RowShift N"
    "LocalHeight M = LocalHeight N" "LocalWidth M = LocalWidth N"
  using assms by (simp_all add: same_layout_def dm_defs fun_eq_iff)

lemma holds_same_layout:
  assumes "same_layout M N" "locals M = locals N"
  shows "holds M A = holds N A"
proof -
  have "dgrid M = dgrid N" using assms(1) by (simp add: same_layout_def)
  with assms show ?thesis by (simp add: holds_def)
qed

lemma holds_locals_intro:
  assumes "\<And>q i j. q \<in> procs (dgrid M) \<Longrightarrow> Participating M q \<Longrightarrow> 0 \<le> i \<Longrightarrow> i < LocalHeight M q
      \<Longrightarrow> 0 \<le> j \<Longrightarrow> j < LocalWidth M q
      \<Longrightarrow> L q (i, j) = G (ColShift M q + i * ColStride M, RowShift M q + j * RowStride M)"
  shows "holds (M\<lparr>locals := L\<rparr>) G"
proof -
  have "same_layout (M\<lparr>locals := L\<rparr>) M" by (simp add: same_layout_def)
  then show ?thesis using assms by (simp add: holds_def)
qed

lemma same_layout_locals: "same_layout (N\<lparr>locals := L\<rparr>) M \<longleftrightarrow> same_layout N M"
  by (simp add: same_layout_def)

lemma holds_locals_update:
  "same_layout N M \<Longrightarrow> holds (N\<lparr>locals := L\<rparr>) G = holds (M\<lparr>locals := L\<rparr>) G"
  by (rule holds_same_layout) (simp_all add: same_layout_def)

text \<open>A matrix of the \<open>[MC,MR]\<close> type: the column index is scattered over the grid's
  rows, the row index over its columns; every process takes part.\<close>

lemma MC_MR_dm [simp]:
  assumes "is_MC_MR M"
  shows "ColStride M = gheight (dgrid M)" "RowStride M = gwidth (dgrid M)"
    "ColRank M q = grow (dgrid M) q" "RowRank M q = gcol (dgrid M) q"
    "Participating M q"
  using assms by (simp_all add: is_MC_MR_def dm_defs)

lemma MC_MR_shifts:
  assumes "is_MC_MR M"
  shows "ColShift M q = Shift (grow (dgrid M) q) (colAlign M) (gheight (dgrid M))"
    "RowShift M q = Shift (gcol (dgrid M) q) (rowAlign M) (gwidth (dgrid M))"
    "LocalHeight M q = Length (mheight M) (ColShift M q) (gheight (dgrid M))"
    "LocalWidth M q = Length (mwidth M) (RowShift M q) (gwidth (dgrid M))"
  using assms by (simp_all add: ColShift_def RowShift_def LocalHeight_def LocalWidth_def)

lemma holds_MC_MR_cong:
  assumes "is_MC_MR M" "is_MC_MR N" "dgrid M = dgrid N" "mheight M = mheight N" "mwidth M = mwidth N"
    "colAlign M = colAlign N" "rowAlign M = rowAlign N" "locals M = locals N"
  shows "holds M G = holds N G"
  using assms by (simp add: holds_def MC_MR_shifts)

lemma VC_STAR_dm [simp]:
  assumes "is_VC_STAR A"
  shows "ColStride A = gsize (dgrid A)" "RowStride A = 1" "Participating A q"
    "ColShift A q = Shift q (colAlign A) (gsize (dgrid A))"
    "LocalHeight A q = Length (mheight A) (Shift q (colAlign A) (gsize (dgrid A))) (gsize (dgrid A))"
  using assms by (simp_all add: is_VC_STAR_def dm_defs)

lemma VC_STAR_row [simp]:
  assumes "is_VC_STAR A" "dm_wf A"
  shows "RowShift A q = 0" "LocalWidth A q = mwidth A"
proof -
  have "rowAlign A = 0" using assms by (simp add: dm_wf_def is_VC_STAR_def RowStride_def)
  then show "RowShift A q = 0" "LocalWidth A q = mwidth A"
    using assms by (simp_all add: is_VC_STAR_def dm_defs Shift_def Length_def dm_wf_def)
qed

lemma STAR_MC_dm [simp]:
  assumes "is_STAR_MC A" "dm_wf A"
  shows "ColStride A = 1" "RowStride A = gheight (dgrid A)" "Participating A q" "ColShift A q = 0"
    "RowShift A q = Shift (grow (dgrid A) q) (rowAlign A) (gheight (dgrid A))"
    "LocalHeight A q = mheight A"
    "LocalWidth A q = Length (mwidth A) (Shift (grow (dgrid A) q) (rowAlign A) (gheight (dgrid A))) (gheight (dgrid A))"
proof -
  have "colAlign A = 0" using assms by (simp add: dm_wf_def is_STAR_MC_def ColStride_def)
  then show "ColStride A = 1" "RowStride A = gheight (dgrid A)" "Participating A q" "ColShift A q = 0"
    "RowShift A q = Shift (grow (dgrid A) q) (rowAlign A) (gheight (dgrid A))"
    "LocalHeight A q = mheight A"
    "LocalWidth A q = Length (mwidth A) (Shift (grow (dgrid A) q) (rowAlign A) (gheight (dgrid A))) (gheight (dgrid A))"
    using assms by (simp_all add: is_STAR_MC_def dm_defs Shift_def Length_def dm_wf_def)
qed

lemma MR_STAR_dm [simp]:
  assumes "is_MR_STAR A" "dm_wf A"
  shows "ColStride A = gwidth (dgrid A)" "RowStride A = 1" "Participating A q" "RowShift A q = 0"
    "ColShift A q = Shift (gcol (dgrid A) q) (colAlign A) (gwidth (dgrid A))"
    "LocalWidth A q = mwidth A"
    "LocalHeight A q = Length (mheight A) (Shift (gcol (dgrid A) q) (colAlign A) (gwidth (dgrid A))) (gwidth (dgrid A))"
proof -
  have "rowAlign A = 0" using assms by (simp add: dm_wf_def is_MR_STAR_def RowStride_def)
  then show "ColStride A = gwidth (dgrid A)" "RowStride A = 1" "Participating A q" "RowShift A q = 0"
    "ColShift A q = Shift (gcol (dgrid A) q) (colAlign A) (gwidth (dgrid A))"
    "LocalWidth A q = mwidth A"
    "LocalHeight A q = Length (mheight A) (Shift (gcol (dgrid A) q) (colAlign A) (gwidth (dgrid A))) (gwidth (dgrid A))"
    using assms by (simp_all add: is_MR_STAR_def dm_defs Shift_def Length_def dm_wf_def)
qed

lemma holds_distribute: "holds (distribute G M) G"
  by (simp add: holds_def distribute_def dm_defs)

lemma distribute_fields [simp]:
  "colDist (distribute G M) = colDist M" "rowDist (distribute G M) = rowDist M"
  "dgrid (distribute G M) = dgrid M" "mheight (distribute G M) = mheight M"
  "mwidth (distribute G M) = mwidth M" "colAlign (distribute G M) = colAlign M"
  "rowAlign (distribute G M) = rowAlign M" "root (distribute G M) = root M"
  by (simp_all add: distribute_def)

section \<open>Base operations\<close>

lemma AlignAndResize_fields [simp]:
  "colDist (AlignAndResize ca ra h w M) = colDist M"
  "rowDist (AlignAndResize ca ra h w M) = rowDist M"
  "dgrid (AlignAndResize ca ra h w M) = dgrid M"
  "mheight (AlignAndResize ca ra h w M) = h"
  "mwidth (AlignAndResize ca ra h w M) = w"
  "locals (AlignAndResize ca ra h w M) = locals M"
  "auxMem (AlignAndResize ca ra h w M) = auxMem M"
  by (simp_all add: AlignAndResize_def Resize_def)

lemma AlignAndResize_align:
  "colAlign (AlignAndResize ca ra h w M) \<in> {ca, colAlign M}"
  "rowAlign (AlignAndResize ca ra h w M) \<in> {ra, rowAlign M}"
  by (auto simp: AlignAndResize_def Resize_def)

lemma AlignAndResize_wf:
  assumes "dm_wf M" "dm_wf A" "colDist A = colDist M" "rowDist A = rowDist M" "dgrid A = dgrid M"
  shows "dm_wf (AlignAndResize (colAlign A) (rowAlign A) (mheight A) (mwidth A) M)"
  using assms AlignAndResize_align [of "colAlign A" "rowAlign A" "mheight A" "mwidth A" M]
  by (auto simp: dm_wf_def ColStride_def RowStride_def)

lemma AlignColsAndResize_fields [simp]:
  "colDist (AlignColsAndResize ca h w M) = colDist M"
  "rowDist (AlignColsAndResize ca h w M) = rowDist M"
  "dgrid (AlignColsAndResize ca h w M) = dgrid M"
  "mheight (AlignColsAndResize ca h w M) = h"
  "mwidth (AlignColsAndResize ca h w M) = w"
  "rowAlign (AlignColsAndResize ca h w M) = rowAlign M"
  by (simp_all add: AlignColsAndResize_def Resize_def)

lemma AlignColsAndResize_align: "colAlign (AlignColsAndResize ca h w M) \<in> {ca, colAlign M}"
  by (auto simp: AlignColsAndResize_def Resize_def)

lemma SetGrid_fields [simp]:
  "dgrid (SetGrid g M) = g" "colDist (SetGrid g M) = colDist M" "rowDist (SetGrid g M) = rowDist M"
  by (simp_all add: SetGrid_def Empty_def)

lemma AlignColsAndResize_keep:
  assumes "colAlign M = ca \<or> (\<not> viewing M \<and> \<not> colConstrained M)"
  shows "colAlign (AlignColsAndResize ca h w M) = ca"
  using assms by (auto simp: AlignColsAndResize_def Resize_def)

lemma AlignColsAndResize_data [simp]:
  "locals (AlignColsAndResize ca h w M) = locals M"
  "auxMem (AlignColsAndResize ca h w M) = auxMem M"
  "auxSize (AlignColsAndResize ca h w M) = auxSize M"
  by (simp_all add: AlignColsAndResize_def Resize_def)

section \<open>Point-to-point realignment of whole local matrices\<close>

text \<open>The exchange shared by the same-distribution realignments: every process packs its
  whole local matrix at the front of its arena, \<open>SendRecv\<close> delivers it behind the
  send buffer of its partner, which unpacks it. When the partner's local sizes are the
  receiver's, every received entry is the partner's entry at the same local position.\<close>

lemma realign_exchange:
  assumes ok: "SendRecv_ok g cm X"
    and shape: "\<And>q. sendOff (X q) = 0" "\<And>q. sendCount (X q) = lhA q * lwA q"
    and part: "\<And>q. q \<in> procs g \<Longrightarrow> lhA (comm_member g cm q (recvFrom (X q))) = lh q
                               \<and> lwA (comm_member g cm q (recvFrom (X q))) = lw q"
  obtains mem where "SendRecv g cm X (\<lambda>q. pack_local (lhA q) (lwA q) (LA q) 0 (B q)) = Some mem"
    and "\<And>q i j. q \<in> procs g \<Longrightarrow> 0 \<le> i \<Longrightarrow> i < lh q \<Longrightarrow> 0 \<le> j \<Longrightarrow> j < lw q \<Longrightarrow>
           unpack_local (lh q) (lw q) (mem q) (recvOff (X q)) (L q) (i, j)
           = LA (comm_member g cm q (recvFrom (X q))) (i, j)"
proof -
  let ?sent = "\<lambda>q. pack_local (lhA q) (lwA q) (LA q) 0 (B q)"
  obtain mem where mem: "SendRecv g cm X ?sent = Some mem"
    using ok by (simp add: SendRecv_def)
  moreover have "unpack_local (lh q) (lw q) (mem q) (recvOff (X q)) (L q) (i, j)
           = LA (comm_member g cm q (recvFrom (X q))) (i, j)"
    if q: "q \<in> procs g" and ij: "0 \<le> i" "i < lh q" "0 \<le> j" "j < lw q" for q i j
  proof -
    let ?s = "comm_member g cm q (recvFrom (X q))"
    have p: "lhA ?s = lh q" "lwA ?s = lw q" using part [OF q] by auto
    have off: "0 \<le> j * lh q + i" "j * lh q + i < lh q * lw q"
      using ij by (simp_all add: colmajor_bound)
    have "unpack_local (lh q) (lw q) (mem q) (recvOff (X q)) (L q) (i, j)
          = mem q (recvOff (X q) + (j * lh q + i))"
      using ij by (simp add: unpack_local_at add.assoc)
    also have "\<dots> = ?sent ?s (sendOff (X ?s) + (j * lh q + i))"
      using off p by (intro SendRecv_at [OF mem]) (simp_all add: shape)
    also have "\<dots> = LA ?s (i, j)"
      using pack_local_at [OF ij, of "LA ?s" 0 "B ?s"] p by (simp add: shape)
    finally show ?thesis .
  qed
  ultimately show ?thesis using that by blast
qed

end
