(* ===== verification/MC_MR.thy ===== *)
theory MC_MR
  imports Pack
begin

text \<open>
  The \<open>[MC,MR]\<close> matrix type (\<open>src/src/core/dist_matrix/mc_mr.cpp\<close>): rows scattered
  over the grid's rows, columns over its columns. This theory holds its assignment from
  another \<open>[MC,MR]\<close> matrix on the same grid (local reinterpretation when the
  alignments agree, point-to-point realignment otherwise), with its correctness.
\<close>

section \<open>\<open>[MC,MR] = [MC,MR]\<close> on one grid\<close>

text \<open>The arguments each process passes to \<open>SendRecv\<close> over \<open>VCComm\<close> when the
  alignments differ (\<open>mc_mr.cpp\<close>, lines 129--168).\<close>

definition MC_MR_exch_xfer :: "'a DistMatrix \<Rightarrow> 'a DistMatrix \<Rightarrow> int \<Rightarrow> xfer" where
  "MC_MR_exch_xfer M A q =
     (let colRank = ColRank M q; rowRank = RowRank M q;
          colStride = ColStride M; rowStride = RowStride M;
          colDiff = colAlign M - colAlign A; rowDiff = rowAlign M - rowAlign A;
          sendRow = (colRank + colStride + colDiff) smod colStride;
          recvRow = (colRank + colStride - colDiff) smod colStride;
          sendCol = (rowRank + rowStride + rowDiff) smod rowStride;
          recvCol = (rowRank + rowStride - rowDiff) smod rowStride;
          sendRank = sendRow + sendCol * colStride;
          recvRank = recvRow + recvCol * colStride;
          sendSize = LocalHeight A q * LocalWidth A q;
          recvSize = LocalHeight M q * LocalWidth M q
      in \<lparr>sendOff = 0, sendCount = sendSize, sendTo = sendRank,
          recvOff = sendSize, recvCount = recvSize, recvFrom = recvRank\<rparr>)"

text \<open>
  \<open>operator=( const DM<T>& A )\<close> when both matrices are on the same grid
  (lines 111--180): adopt \<open>A\<close>'s alignment and size unless constrained; with equal
  alignments each process copies \<open>A\<close>'s local matrix; otherwise each packs its local
  matrix into the front of the arena, exchanges it over \<open>VCComm\<close> and unpacks what it
  received behind it. Every process of the grid takes part in a \<open>[MC,MR]\<close> matrix, so
  the early return for non-participating processes is never taken.
\<close>

definition MC_MR_same_grid :: "'a DistMatrix \<Rightarrow> 'a DistMatrix \<Rightarrow> 'a DistMatrix exn" where
  "MC_MR_same_grid M0 A =
     (let M = AlignAndResize (colAlign A) (rowAlign A) (mheight A) (mwidth A) M0 in
      if colAlign M = colAlign A \<and> rowAlign M = rowAlign A then Inr (M\<lparr>locals := locals A\<rparr>)
      else
        (let X = MC_MR_exch_xfer M A;
             M1 = M\<lparr>auxSize := \<lambda>q. max (auxSize M q) (sendCount (X q) + recvCount (X q))\<rparr>;
             sent = (\<lambda>q. pack_local (LocalHeight A q) (LocalWidth A q) (locals A q) 0 (auxMem M1 q))
         in case SendRecv (dgrid M) VCComm X sent of
              None \<Rightarrow> Inl (CommError, M1\<lparr>auxMem := sent\<rparr>)
            | Some mem \<Rightarrow> Inr (M1\<lparr>auxMem := mem,
                 locals := \<lambda>q. unpack_local (LocalHeight M q) (LocalWidth M q) (mem q)
                                 (recvOff (X q)) (locals M q)\<rparr>)))"

section \<open>Correctness of \<open>[MC,MR] = [MC,MR]\<close>\<close>

text \<open>The partner a process receives from holds, under the source's alignment, the
  shifts the receiver needs under its own; the two partner maps are inverse; both are
  processes of the grid.\<close>

lemma MC_MR_exch_partner:
  assumes M: "is_MC_MR M" and A: "is_MC_MR A" and g: "dgrid A = dgrid M"
    and wfM: "dm_wf M" and wfA: "dm_wf A" and q: "q \<in> procs (dgrid M)"
  defines "X \<equiv> MC_MR_exch_xfer M A"
  shows "recvFrom (X q) \<in> procs (dgrid M)" "sendTo (X q) \<in> procs (dgrid M)"
    and "sendTo (X (recvFrom (X q))) = q" "recvFrom (X (sendTo (X q))) = q"
    and "ColShift A (recvFrom (X q)) = ColShift M q" "RowShift A (recvFrom (X q)) = RowShift M q"
proof -
  let ?g = "dgrid M" let ?r = "gheight ?g" let ?c = "gwidth ?g"
  have ok: "grid_ok ?g" using wfM by (simp add: dm_wf_def)
  have al: "0 \<le> colAlign M" "colAlign M < ?r" "0 \<le> rowAlign M" "rowAlign M < ?c"
    "0 \<le> colAlign A" "colAlign A < ?r" "0 \<le> rowAlign A" "rowAlign A < ?c"
    using wfM wfA M A g by (auto simp: dm_wf_def)
  have rc: "0 \<le> grow ?g q" "grow ?g q < ?r" "0 \<le> gcol ?g q" "gcol ?g q < ?c"
    using ok q grow_range gcol_range by auto
  define rr where "rr = (grow ?g q + ?r - (colAlign M - colAlign A)) smod ?r"
  define rc' where "rc' = (gcol ?g q + ?c - (rowAlign M - rowAlign A)) smod ?c"
  define sr where "sr = (grow ?g q + ?r + (colAlign M - colAlign A)) smod ?r"
  define sc where "sc = (gcol ?g q + ?c + (rowAlign M - rowAlign A)) smod ?c"
  have Xq: "recvFrom (X q) = rr + rc' * ?r" "sendTo (X q) = sr + sc * ?r"
    using M by (simp_all add: X_def MC_MR_exch_xfer_def Let_def rr_def rc'_def sr_def sc_def)
  have rr: "0 \<le> rr" "rr < ?r" "0 \<le> rc'" "rc' < ?c" "0 \<le> sr" "sr < ?r" "0 \<le> sc" "sc < ?c"
    using rc al by (simp_all add: rr_def rc'_def sr_def sc_def partner_range)
  show "recvFrom (X q) \<in> procs ?g" "sendTo (X q) \<in> procs ?g"
    using Xq rr ok by (simp_all add: rowcol_in_procs)
  have rowcol: "grow ?g (rr + rc' * ?r) = rr" "gcol ?g (rr + rc' * ?r) = rc'"
    "grow ?g (sr + sc * ?r) = sr" "gcol ?g (sr + sc * ?r) = sc"
    using ok rr by (simp_all add: rowcol_vc)
  have i: "(rr + ?r + (colAlign M - colAlign A)) smod ?r = grow ?g q"
    "(rc' + ?c + (rowAlign M - rowAlign A)) smod ?c = gcol ?g q"
    "(sr + ?r - (colAlign M - colAlign A)) smod ?r = grow ?g q"
    "(sc + ?c - (rowAlign M - rowAlign A)) smod ?c = gcol ?g q"
    unfolding rr_def rc'_def sr_def sc_def using rc al by (simp_all only: partner_inverse)
  have Xp: "\<And>p. sendTo (X p) = (grow ?g p + ?r + (colAlign M - colAlign A)) smod ?r
                  + ((gcol ?g p + ?c + (rowAlign M - rowAlign A)) smod ?c) * ?r"
    "\<And>p. recvFrom (X p) = (grow ?g p + ?r - (colAlign M - colAlign A)) smod ?r
                  + ((gcol ?g p + ?c - (rowAlign M - rowAlign A)) smod ?c) * ?r"
    using M by (simp_all add: X_def MC_MR_exch_xfer_def Let_def del: smod_nonneg_eq)
  show "sendTo (X (recvFrom (X q))) = q"
    by (simp only: Xp(1) Xq rowcol i vc_rowcol [OF ok])
  show "recvFrom (X (sendTo (X q))) = q"
    by (simp only: Xp(2) Xq rowcol i vc_rowcol [OF ok])
  have sh: "Shift rr (colAlign A) ?r = Shift (grow ?g q) (colAlign M) ?r"
    "Shift rc' (rowAlign A) ?c = Shift (gcol ?g q) (rowAlign M) ?c"
    unfolding rr_def rc'_def using rc al by (simp_all only: partner_Shift)
  show "ColShift A (recvFrom (X q)) = ColShift M q"
    using M A g by (simp add: Xq MC_MR_shifts rowcol sh del: smod_nonneg_eq)
  show "RowShift A (recvFrom (X q)) = RowShift M q"
    using M A g by (simp add: Xq MC_MR_shifts rowcol sh del: smod_nonneg_eq)
qed

text \<open>Assigning an \<open>[MC,MR]\<close> matrix to an \<open>[MC,MR]\<close> matrix on the same grid
  preserves its logical contents (the same-grid half of C1, theory \<open>CrossGrid\<close>): whatever alignment the destination ends up with (the
  source's, or its own when it is constrained or a view), the call returns normally and
  every process holds the source's global matrix under the destination's distribution.
  It covers both protocols: the local copy when the alignments agree and the
  point-to-point realignment over \<open>VCComm\<close> when they do not.\<close>

theorem MC_MR_same_grid_holds:
  assumes M0: "is_MC_MR M0" and A: "is_MC_MR A" and g: "dgrid A = dgrid M0"
    and wf0: "dm_wf M0" and wfA: "dm_wf A" and hA: "holds A G"
  shows "\<exists>M'. MC_MR_same_grid M0 A = Inr M' \<and> holds M' G \<and> is_MC_MR M'
           \<and> dgrid M' = dgrid A \<and> mheight M' = mheight A \<and> mwidth M' = mwidth A"
proof -
  define M where "M = AlignAndResize (colAlign A) (rowAlign A) (mheight A) (mwidth A) M0"
  have M: "is_MC_MR M" "dgrid A = dgrid M" "mheight M = mheight A" "mwidth M = mwidth A"
    using M0 g by (simp_all add: M_def is_MC_MR_def)
  have wfM: "dm_wf M"
    unfolding M_def using wf0 wfA M0 A g by (intro AlignAndResize_wf) (simp_all add: is_MC_MR_def)
  show ?thesis
  proof (cases "colAlign M = colAlign A \<and> rowAlign M = rowAlign A")
    case True
    let ?M' = "M\<lparr>locals := locals A\<rparr>"
    have "holds ?M' G = holds A G"
      using M A True by (intro holds_MC_MR_cong) (simp_all add: is_MC_MR_def)
    with True M hA show ?thesis
      by (simp add: MC_MR_same_grid_def M_def [symmetric] Let_def is_MC_MR_def)
  next
    case False
    define X where "X = MC_MR_exch_xfer M A"
    define M1 where "M1 = M\<lparr>auxSize := \<lambda>q. max (auxSize M q) (sendCount (X q) + recvCount (X q))\<rparr>"
    define sent where "sent = (\<lambda>q. pack_local (LocalHeight A q) (LocalWidth A q) (locals A q) 0 (auxMem M1 q))"
    let ?g = "dgrid M"
    note P = MC_MR_exch_partner [OF M(1) A M(2) wfM wfA, folded X_def]
    have cnt: "sendCount (X (recvFrom (X q))) = recvCount (X q)" if "q \<in> procs ?g" for q
      using P(5,6) [OF that] M A by (simp add: X_def MC_MR_exch_xfer_def Let_def MC_MR_shifts)
    have ok: "SendRecv_ok ?g VCComm X"
      unfolding SendRecv_ok_def using P cnt by (auto simp: procs_def)
    define mem where "mem = (\<lambda>q x. if recvOff (X q) \<le> x \<and> x < recvOff (X q) + sendCount (X (recvFrom (X q)))
        then sent (recvFrom (X q)) (sendOff (X (recvFrom (X q))) + (x - recvOff (X q))) else sent q x)"
    have SR: "SendRecv ?g VCComm X sent = Some mem"
      using SendRecv_Some [OF ok, of sent] by (simp add: mem_def cong: if_cong)
    let ?M' = "M1\<lparr>auxMem := mem, locals := \<lambda>q. unpack_local (LocalHeight M q) (LocalWidth M q) (mem q)
                                 (recvOff (X q)) (locals M q)\<rparr>"
    have res: "MC_MR_same_grid M0 A = Inr ?M'"
      unfolding MC_MR_same_grid_def Let_def M_def [symmetric] X_def [symmetric] M1_def [symmetric]
        sent_def [symmetric]
      using False SR by auto
    have "holds ?M' G"
      unfolding holds_def
    proof (intro ballI impI)
      fix q iLoc jLoc
      assume q: "q \<in> procs (dgrid ?M')" and i: "iLoc \<in> {0..<LocalHeight ?M' q}"
        and j: "jLoc \<in> {0..<LocalWidth ?M' q}"
      let ?s = "recvFrom (X q)"
      have q': "q \<in> procs ?g" using q by (simp add: M1_def)
      have lh: "LocalHeight ?M' q = LocalHeight M q" "LocalWidth ?M' q = LocalWidth M q"
        "ColShift ?M' q = ColShift M q" "RowShift ?M' q = RowShift M q"
        "ColStride ?M' = ColStride M" "RowStride ?M' = RowStride M"
        by (simp_all add: M1_def dm_defs)
      have lhs: "LocalHeight A ?s = LocalHeight M q" "LocalWidth A ?s = LocalWidth M q"
        using P(5,6) [OF q'] M A by (simp_all add: MC_MR_shifts)
      have ij: "0 \<le> iLoc" "iLoc < LocalHeight M q" "0 \<le> jLoc" "jLoc < LocalWidth M q"
        using i j lh by auto
      have off: "0 \<le> jLoc * LocalHeight M q + iLoc" "jLoc * LocalHeight M q + iLoc < LocalHeight M q * LocalWidth M q"
        using ij by (simp_all add: colmajor_bound)
      have sc: "sendCount (X ?s) = LocalHeight M q * LocalWidth M q" "sendOff (X ?s) = 0"
        using cnt [OF q'] by (simp_all add: X_def MC_MR_exch_xfer_def Let_def)
      have "locals ?M' q (iLoc, jLoc) = mem q (recvOff (X q) + jLoc * LocalHeight M q + iLoc)"
        using ij by (simp add: unpack_local_at)
      also have "\<dots> = sent ?s (0 + jLoc * LocalHeight A ?s + iLoc)"
        using off sc lhs by (simp add: mem_def)
      also have "\<dots> = locals A ?s (iLoc, jLoc)"
        unfolding sent_def using ij lhs by (intro pack_local_at) simp_all
      also have "\<dots> = G (ColShift A ?s + iLoc * ColStride A, RowShift A ?s + jLoc * RowStride A)"
        using hA P(1) [OF q'] ij lhs M(2) A by (auto simp: holds_def)
      also have "\<dots> = G (ColShift ?M' q + iLoc * ColStride ?M', RowShift ?M' q + jLoc * RowStride ?M')"
        using P(5,6) [OF q'] lh M A by simp
      finally show "locals ?M' q (iLoc, jLoc)
          = G (ColShift ?M' q + iLoc * ColStride ?M', RowShift ?M' q + jLoc * RowStride ?M')" .
    qed
    with res M show ?thesis by (simp add: M1_def is_MC_MR_def)
  qed
qed

end
