(* ===== verification/MC_MR_VC.thy ===== *)
theory MC_MR_VC
  imports MC_MR
begin

text \<open>
  \<open>[MC,MR] = [VC,*]\<close> (\<open>src/src/core/dist_matrix/mc_mr.cpp\<close>, lines 476--634): a
  matrix whose rows are dealt round-robin over all \<open>p = r c\<close> processes in
  column-major order becomes one whose rows are dealt over the grid's rows and columns
  over its columns. Each process splits its rows' entries by destination column,
  exchanges the pieces with its grid row in one all-to-all, and interleaves what it
  receives (the rows of the \<open>c\<close> processes \<open>row + k r\<close>) into its local rows with
  stride \<open>c\<close>. When the destination's column alignment is not the source's modulo
  \<open>r\<close>, the packed data first moves within the grid column by a point-to-point
  exchange to the process holding the right rows.
\<close>

section \<open>Pack and unpack\<close>

text \<open>The pack loop of both branches (lines 512--526 and 585--599): for each column
  \<open>k\<close> of the grid, the columns of \<open>A\<close>'s local matrix that \<open>[MC,MR]\<close> gives to
  grid column \<open>k\<close> (under row alignment \<open>rowAlign0\<close>, the destination's \<open>rowAlign\<close>), one \<open>MemCopy\<close> of
  \<open>localHeightA\<close> entries per column, into block \<open>k\<close> of \<open>portionSize\<close> entries from
  \<open>base\<close>.\<close>

definition pack_VC_STAR :: "int \<Rightarrow> int \<Rightarrow> int \<Rightarrow> int \<Rightarrow> int \<Rightarrow> 'a lmat \<Rightarrow> int \<Rightarrow> 'a buf \<Rightarrow> 'a buf" where
  "pack_VC_STAR c rowAlign0 width portionSize localHeightA ABuf base buf =
     for_loop c (\<lambda>k. let thisRowShift = Shift k rowAlign0 c;
                         thisLocalWidth = Length width thisRowShift c in
       for_loop thisLocalWidth (\<lambda>jLoc.
         MemCopy (base + k * portionSize + jLoc * localHeightA)
                 (\<lambda>i. ABuf (i, thisRowShift + jLoc * c)) localHeightA)) buf"

text \<open>The unpack loop (lines 532--551 and 611--630): block \<open>k\<close> came from (the data
  of) the \<open>[VC,*]\<close> process \<open>firstRow + k r\<close>, whose rows are the global rows
  \<open>thisColShift + iLoc p\<close>; its row \<open>iLoc\<close> becomes local row
  \<open>thisColOffset + iLoc c\<close>.\<close>

definition unpack_VC_STAR :: "int \<Rightarrow> int \<Rightarrow> int \<Rightarrow> int \<Rightarrow> int \<Rightarrow> int \<Rightarrow> int \<Rightarrow> int \<Rightarrow> int
     \<Rightarrow> 'a buf \<Rightarrow> 'a lmat \<Rightarrow> 'a lmat" where
  "unpack_VC_STAR r c firstRow colShift colAlignA height localWidth portionSize base buf loc =
     for_loop c (\<lambda>k. let p = r * c;
                         thisRank = firstRow + k * r;
                         thisColShift = Shift thisRank colAlignA p;
                         thisColOffset = (thisColShift - colShift) sdiv r;
                         thisLocalHeight = Length height thisColShift p in
       for_loop2 localWidth thisLocalHeight (\<lambda>iLoc jLoc m.
         m((thisColOffset + iLoc * c, jLoc) :=
             buf (base + k * portionSize + jLoc * thisLocalHeight + iLoc)))) loc"

section \<open>The conversion\<close>

text \<open>\<open>auxMemory_.Require(n)\<close> on every process; the later \<open>Release\<close> keeps the
  allocation, so it changes nothing in the model.\<close>

definition RequireAll :: "int \<Rightarrow> 'a DistMatrix \<Rightarrow> 'a DistMatrix" where
  "RequireAll n M = M\<lparr>auxSize := \<lambda>q. max (auxSize M q) n\<rparr>"

text \<open>Aligned branch (lines 488--553): pack at the front of the arena, all-to-all over
  the grid row into the second half, unpack.\<close>

definition MC_MR_VC_aligned :: "'a DistMatrix \<Rightarrow> 'a DistMatrix \<Rightarrow> 'a DistMatrix exn" where
  "MC_MR_VC_aligned M A =
     (let g = dgrid M; r = gheight g; c = gwidth g; p = r * c;
          portionSize = Pad (MaxLength (mheight M) p * MaxLength (mwidth M) c);
          M1 = RequireAll (2 * c * portionSize) M;
          sent = (\<lambda>q. pack_VC_STAR c (rowAlign M) (mwidth M) portionSize (LocalHeight A q)
                        (locals A q) 0 (auxMem M1 q));
          X = (\<lambda>q. \<lparr>a2aSendOff = 0, a2aSendCount = portionSize,
                     a2aRecvOff = c * portionSize, a2aRecvCount = portionSize\<rparr>)
      in case AllToAll g MRComm X sent of
           None \<Rightarrow> Inl (CommError, M1\<lparr>auxMem := sent\<rparr>)
         | Some mem \<Rightarrow> Inr (M1\<lparr>auxMem := mem,
             locals := \<lambda>q. unpack_VC_STAR r c (grow g q) (ColShift M q) (colAlign A) (mheight M)
                             (LocalWidth M q) portionSize (c * portionSize) (mem q) (locals M q)\<rparr>))"

text \<open>Unaligned branch (lines 554--632): pack into the second half, trade the packed
  data within the grid column (\<open>sendRow\<close>, \<open>recvRow\<close>), all-to-all over the grid row
  back into the second half, unpack as if the process were in row \<open>recvRow\<close>.\<close>

definition MC_MR_VC_rows :: "'a DistMatrix \<Rightarrow> 'a DistMatrix \<Rightarrow> int \<Rightarrow> int \<times> int" where
  "MC_MR_VC_rows M A q =
     (let r = gheight (dgrid M); row = grow (dgrid M) q in
      ((row + r + colAlign M - (colAlign A smod r)) smod r,
       (row + r + (colAlign A smod r) - colAlign M) smod r))"

definition MC_MR_VC_unaligned :: "'a DistMatrix \<Rightarrow> 'a DistMatrix \<Rightarrow> 'a DistMatrix exn" where
  "MC_MR_VC_unaligned M A =
     (let g = dgrid M; r = gheight g; c = gwidth g; p = r * c;
          portionSize = Pad (MaxLength (mheight M) p * MaxLength (mwidth M) c);
          M1 = RequireAll (2 * c * portionSize) M;
          sent = (\<lambda>q. pack_VC_STAR c (rowAlign M) (mwidth M) portionSize (LocalHeight A q)
                        (locals A q) (c * portionSize) (auxMem M1 q));
          X1 = (\<lambda>q. \<lparr>sendOff = c * portionSize, sendCount = c * portionSize,
                      sendTo = fst (MC_MR_VC_rows M A q), recvOff = 0,
                      recvCount = c * portionSize, recvFrom = snd (MC_MR_VC_rows M A q)\<rparr>);
          X2 = (\<lambda>q. \<lparr>a2aSendOff = 0, a2aSendCount = portionSize,
                      a2aRecvOff = c * portionSize, a2aRecvCount = portionSize\<rparr>)
      in case SendRecv g MCComm X1 sent of
           None \<Rightarrow> Inl (CommError, M1\<lparr>auxMem := sent\<rparr>)
         | Some mem1 \<Rightarrow>
             (case AllToAll g MRComm X2 mem1 of
                None \<Rightarrow> Inl (CommError, M1\<lparr>auxMem := mem1\<rparr>)
              | Some mem2 \<Rightarrow> Inr (M1\<lparr>auxMem := mem2,
                  locals := \<lambda>q. unpack_VC_STAR r c (snd (MC_MR_VC_rows M A q)) (ColShift M q)
                                  (colAlign A) (mheight M) (LocalWidth M q) portionSize
                                  (c * portionSize) (mem2 q) (locals M q)\<rparr>)))"

text \<open>The operator (lines 476--489 and 633--634): adopt \<open>A\<close>'s column alignment
  modulo \<open>r\<close> and its size unless constrained, then take the branch. Every process
  takes part in a \<open>[MC,MR]\<close> matrix, so the early return is never taken.\<close>

definition MC_MR_from_VC_STAR :: "'a DistMatrix \<Rightarrow> 'a DistMatrix \<Rightarrow> 'a DistMatrix exn" where
  "MC_MR_from_VC_STAR M0 A =
     (let r = gheight (dgrid M0);
          M = AlignColsAndResize (colAlign A smod r) (mheight A) (mwidth A) M0
      in if colAlign M = colAlign A smod r then MC_MR_VC_aligned M A
         else MC_MR_VC_unaligned M A)"

section \<open>Reading the loops back\<close>

lemma pack_VC_STAR_at:
  assumes c: "0 < c" and ra: "0 \<le> ra" "ra < c"
    and k: "0 \<le> k" "k < c" and j: "0 \<le> jLoc" "jLoc < Length width (Shift k ra c) c"
    and i: "0 \<le> i" "i < lhA"
    and fit: "\<And>k. 0 \<le> k \<Longrightarrow> k < c \<Longrightarrow> Length width (Shift k ra c) c * lhA \<le> portion"
  shows "pack_VC_STAR c ra width portion lhA ABuf base buf (base + k * portion + jLoc * lhA + i)
         = ABuf (i, Shift k ra c + jLoc * c)"
proof -
  define v where "v x = (let d = x - base; t = d mod portion
      in ABuf (t mod lhA, Shift (d div portion) ra c + (t div lhA) * c))" for x
  have v: "v (base + k' * portion + j' * lhA + i') = ABuf (i', Shift k' ra c + j' * c)"
    if "0 \<le> k'" "k' < c" "0 \<le> j'" "j' < Length width (Shift k' ra c) c" "0 \<le> i'" "i' < lhA" for k' j' i'
  proof -
    have "j' * lhA + i' < (j' + 1) * lhA" using that by (simp add: algebra_simps)
    also have "\<dots> \<le> Length width (Shift k' ra c) c * lhA"
      using that by (intro mult_right_mono) auto
    also have "\<dots> \<le> portion" using fit that by simp
    finally have lt: "j' * lhA + i' < portion" .
    have "0 \<le> j' * lhA + i'" using that by simp
    then have "(k' * portion + (j' * lhA + i')) div portion = k'"
      "(k' * portion + (j' * lhA + i')) mod portion = j' * lhA + i'"
      using lt by (simp_all only: block_div_mod)
    moreover have "(j' * lhA + i') mod lhA = i'" "(j' * lhA + i') div lhA = j'"
      using that by simp_all
    ultimately show ?thesis
      by (simp add: v_def Let_def add.assoc)
  qed
  have w: "writes (pack_VC_STAR c ra width portion lhA ABuf base)
     (\<Union>k\<in>{0..<c}. \<Union>jLoc\<in>{0..<Length width (Shift k ra c) c}.
        {base + k * portion + jLoc * lhA..<base + k * portion + jLoc * lhA + lhA}) v"
    unfolding pack_VC_STAR_def Let_def
  proof (intro writes_for_loop MemCopy_writes)
    fix k' j' i' assume "0 \<le> k'" "k' < c" "0 \<le> j'" "j' < Length width (Shift k' ra c) c"
      "0 \<le> i'" "i' < lhA"
    then show "ABuf (i', Shift k' ra c + j' * c) = v (base + k' * portion + j' * lhA + i')"
      using v by simp
  qed
  have "base + k * portion + jLoc * lhA + i \<in>
     (\<Union>k\<in>{0..<c}. \<Union>jLoc\<in>{0..<Length width (Shift k ra c) c}.
        {base + k * portion + jLoc * lhA..<base + k * portion + jLoc * lhA + lhA})"
    using k j i by (intro UN_I [of k] UN_I [of jLoc]) auto
  from writes_at [OF w this] show ?thesis
    using v k j i by simp
qed

lemma unpack_VC_STAR_at:
  fixes r c :: int
  assumes r: "0 < r" and c: "0 < c" and fr: "0 \<le> fr" "fr < r" and aA: "0 \<le> aA" "aA < r * c"
    and cs: "colShift = (fr - aA) mod r"
    and buf: "\<And>k jLoc iLoc. 0 \<le> k \<Longrightarrow> k < c \<Longrightarrow> 0 \<le> jLoc \<Longrightarrow> jLoc < lw \<Longrightarrow> 0 \<le> iLoc
       \<Longrightarrow> iLoc < Length height (Shift (fr + k * r) aA (r * c)) (r * c)
       \<Longrightarrow> buf (base + k * portion + jLoc * Length height (Shift (fr + k * r) aA (r * c)) (r * c) + iLoc)
           = V (Shift (fr + k * r) aA (r * c) + iLoc * (r * c), jLoc)"
    and i: "0 \<le> i" "i < Length height colShift r" and j: "0 \<le> j" "j < lw"
  shows "unpack_VC_STAR r c fr colShift aA height lw portion base buf loc (i, j)
         = V (colShift + i * r, j)"
proof -
  let ?p = "r * c"
  let ?ts = "\<lambda>k. Shift (fr + k * r) aA ?p"
  let ?to = "\<lambda>k. (?ts k - colShift) sdiv r"
  define v where "v = (\<lambda>(i', j'). V (colShift + i' * r, j'))"
  have ts: "0 \<le> ?ts k" "?ts k = colShift + ?to k * r" if "0 \<le> k" for k
  proof -
    have "?ts k mod r = colShift" using VC_shift_mod [OF r c fr(1) aA that] cs by simp
    moreover have "0 \<le> ?ts k" using that fr aA r c by (intro Shift_range) auto
    ultimately show "0 \<le> ?ts k" "?ts k = colShift + ?to k * r"
      using shift_offset [OF r] by auto
  qed
  have w: "writes (unpack_VC_STAR r c fr colShift aA height lw portion base buf)
     (\<Union>k\<in>{0..<c}. \<Union>j'\<in>{0..<lw}. \<Union>iLoc\<in>{0..<Length height (?ts k) ?p}. {(?to k + iLoc * c, j')}) v"
    unfolding unpack_VC_STAR_def Let_def
  proof (intro writes_for_loop writes_for_loop2 writes_upd)
    fix k iLoc j' assume k: "0 \<le> k" "k < c" and il: "0 \<le> iLoc" "iLoc < Length height (?ts k) ?p"
      and jl: "0 \<le> j'" "j' < lw"
    have "?ts k + iLoc * ?p = colShift + (?to k + iLoc * c) * r"
      using ts(2) [OF k(1)] by (simp add: algebra_simps)
    then show "buf (base + k * portion + j' * Length height (?ts k) ?p + iLoc) = v (?to k + iLoc * c, j')"
      using buf [OF k jl il] by (simp add: v_def)
  qed
  have cs0: "0 \<le> colShift" "colShift < r" using cs r by simp_all
  have gi: "0 \<le> colShift + i * r" "(colShift + i * r) mod r = (fr - aA) mod r"
    using cs0 i r cs by simp_all
  obtain k iLoc where k: "0 \<le> k" "k < c" and il: "0 \<le> iLoc"
      and e: "colShift + i * r = ?ts k + iLoc * ?p"
    using VC_owner [OF r c fr aA gi] by blast
  have lt: "colShift + i * r < height" using i r cs0 by (simp add: Length_iff)
  have "iLoc < Length height (?ts k) ?p"
    using e lt il r c by (simp add: Length_iff)
  moreover have "i = ?to k + iLoc * c"
  proof -
    have "colShift + i * r = colShift + (?to k + iLoc * c) * r"
      using e ts(2) [OF k(1)] by (simp add: algebra_simps)
    then show ?thesis using r by simp
  qed
  ultimately have "(i, j) \<in> (\<Union>k\<in>{0..<c}. \<Union>j'\<in>{0..<lw}. \<Union>iLoc\<in>{0..<Length height (?ts k) ?p}. {(?to k + iLoc * c, j')})"
    using k j il by (intro UN_I [of k] UN_I [of j] UN_I [of iLoc]) auto
  from writes_at [OF w this] show ?thesis by (simp add: v_def)
qed

section \<open>Correctness\<close>

text \<open>What one process unpacks: if block \<open>k\<close> of its receive buffer is the block the
  \<open>[VC,*]\<close> process \<open>fr + k r\<close> packed for its grid column, and \<open>fr\<close> is a row
  whose \<open>[VC,*]\<close> rows are the process's \<open>[MC,MR]\<close> rows, then every local entry is
  the global matrix's.\<close>

lemma MC_MR_VC_unpack_holds:
  assumes M: "is_MC_MR M" and A: "is_VC_STAR A" and g: "dgrid A = dgrid M"
    and wfM: "dm_wf M" and wfA: "dm_wf A" and hA: "holds A G"
    and sz: "mheight M = mheight A" "mwidth M = mwidth A"
    and q: "q \<in> procs (dgrid M)" and fr: "0 \<le> fr" "fr < gheight (dgrid M)"
    and cs: "ColShift M q = (fr - colAlign A) mod gheight (dgrid M)"
    and P: "P = Pad (MaxLength (mheight M) (gsize (dgrid M)) * MaxLength (mwidth M) (gwidth (dgrid M)))"
    and buf: "\<And>k t. 0 \<le> k \<Longrightarrow> k < gwidth (dgrid M) \<Longrightarrow> 0 \<le> t \<Longrightarrow> t < P \<Longrightarrow>
       buf (gwidth (dgrid M) * P + k * P + t)
       = pack_VC_STAR (gwidth (dgrid M)) (rowAlign M) (mwidth M) P
           (LocalHeight A (fr + k * gheight (dgrid M))) (locals A (fr + k * gheight (dgrid M)))
           base (B (fr + k * gheight (dgrid M))) (base + gcol (dgrid M) q * P + t)"
    and i: "0 \<le> i" "i < LocalHeight M q" and j: "0 \<le> j" "j < LocalWidth M q"
  shows "unpack_VC_STAR (gheight (dgrid M)) (gwidth (dgrid M)) fr (ColShift M q) (colAlign A)
           (mheight M) (LocalWidth M q) P (gwidth (dgrid M) * P) buf loc (i, j)
         = G (ColShift M q + i * ColStride M, RowShift M q + j * RowStride M)"
proof -
  let ?g = "dgrid M" let ?r = "gheight ?g" let ?c = "gwidth ?g" let ?p = "?r * ?c"
  have ok: "grid_ok ?g" using wfM by (simp add: dm_wf_def)
  then have r: "0 < ?r" and c: "0 < ?c" by (simp_all add: grid_ok_def)
  have gs: "gsize ?g = ?p" by (simp add: gsize_def)
  have aA: "0 \<le> colAlign A" "colAlign A < ?p" using wfA A g by (simp_all add: dm_wf_def gs)
  have ra: "0 \<le> rowAlign M" "rowAlign M < ?c" using wfM M by (simp_all add: dm_wf_def)
  have col: "0 \<le> gcol ?g q" "gcol ?g q < ?c" using gcol_range [OF ok q] by auto
  have rs: "RowShift M q = Shift (gcol ?g q) (rowAlign M) ?c" using M by (simp add: MC_MR_shifts)
  have lw: "LocalWidth M q = Length (mwidth M) (Shift (gcol ?g q) (rowAlign M) ?c) ?c"
    using M rs by (simp add: MC_MR_shifts)
  have hnn: "0 \<le> mheight M" "0 \<le> mwidth M" using wfM by (simp_all add: dm_wf_def)
  have bufP: "buf (?c * P + k * P + jLoc * Length (mheight M) (Shift (fr + k * ?r) (colAlign A) ?p) ?p + iLoc)
      = (\<lambda>(gi, jl). G (gi, RowShift M q + jl * ?c)) (Shift (fr + k * ?r) (colAlign A) ?p + iLoc * ?p, jLoc)"
    if k: "0 \<le> k" "k < ?c" and jl: "0 \<le> jLoc" "jLoc < LocalWidth M q"
      and il: "0 \<le> iLoc" "iLoc < Length (mheight M) (Shift (fr + k * ?r) (colAlign A) ?p) ?p"
    for k jLoc iLoc
  proof -
    let ?s = "fr + k * ?r"
    have lhA: "LocalHeight A ?s = Length (mheight M) (Shift ?s (colAlign A) ?p) ?p"
      using A g sz by (simp add: gs)
    have sh0: "0 \<le> Shift ?s (colAlign A) ?p" using fr k r aA by (intro Shift_range) auto
    have fit: "Length (mwidth M) (Shift k' (rowAlign M) ?c) ?c * LocalHeight A ?s \<le> P"
      if "0 \<le> k'" "k' < ?c" for k'
    proof -
      have "0 \<le> Shift k' (rowAlign M) ?c" using ra that by (intro Shift_range) auto
      then have "Length (mheight M) (Shift ?s (colAlign A) ?p) ?p * Length (mwidth M) (Shift k' (rowAlign M) ?c) ?c \<le> P"
        using P r c sh0 by (simp add: gs Pad_fit)
      then show ?thesis by (simp add: lhA mult.commute)
    qed
    have "0 \<le> LocalHeight A ?s" using lhA r c by (simp add: Length_nonneg)
    then have t0: "0 \<le> jLoc * LocalHeight A ?s + iLoc" using jl il by simp
    have "jLoc * LocalHeight A ?s + iLoc < (jLoc + 1) * LocalHeight A ?s"
      using il lhA by (simp add: algebra_simps)
    also have "\<dots> \<le> LocalWidth M q * LocalHeight A ?s"
      using jl il lhA by (intro mult_right_mono) auto
    also have "\<dots> \<le> P" using fit [OF col] lw by simp
    finally have t1: "jLoc * LocalHeight A ?s + iLoc < P" .
    have s: "?s \<in> procs ?g"
      using fr k ok by (simp add: rowcol_in_procs)
    have jA: "0 \<le> RowShift M q + jLoc * ?c" "RowShift M q + jLoc * ?c < mwidth A"
    proof -
      have "0 \<le> RowShift M q" using rs ra col by (simp add: Shift_range)
      then show "0 \<le> RowShift M q + jLoc * ?c" using jl c by simp
      show "RowShift M q + jLoc * ?c < mwidth A"
        using jl lw rs c sz by (simp add: Length_iff)
    qed
    have "buf (?c * P + k * P + (jLoc * LocalHeight A ?s + iLoc))
        = pack_VC_STAR ?c (rowAlign M) (mwidth M) P (LocalHeight A ?s) (locals A ?s) base (B ?s)
            (base + gcol ?g q * P + (jLoc * LocalHeight A ?s + iLoc))"
      using buf [OF k t0 t1] .
    also have "\<dots> = locals A ?s (iLoc, Shift (gcol ?g q) (rowAlign M) ?c + jLoc * ?c)"
    proof -
      have "pack_VC_STAR ?c (rowAlign M) (mwidth M) P (LocalHeight A ?s) (locals A ?s) base (B ?s)
              (base + gcol ?g q * P + jLoc * LocalHeight A ?s + iLoc)
            = locals A ?s (iLoc, Shift (gcol ?g q) (rowAlign M) ?c + jLoc * ?c)"
        by (rule pack_VC_STAR_at [OF c ra col]) (use jl il lw lhA fit in simp_all)
      then show ?thesis by (simp add: add.assoc)
    qed
    also have "\<dots> = G (Shift ?s (colAlign A) ?p + iLoc * ?p, RowShift M q + jLoc * ?c)"
      using hA s il jl jA rs A g wfA lhA by (auto simp: holds_def gs)
    finally show ?thesis using lhA by (simp add: add.assoc)
  qed
  have "unpack_VC_STAR ?r ?c fr (ColShift M q) (colAlign A) (mheight M) (LocalWidth M q) P (?c * P) buf loc (i, j)
        = (\<lambda>(gi, jl). G (gi, RowShift M q + jl * ?c)) (ColShift M q + i * ?r, j)"
    using i j M by (intro unpack_VC_STAR_at [OF r c fr aA cs] bufP) (simp_all add: MC_MR_shifts)
  then show ?thesis using M by simp
qed

lemma MC_MR_VC_finish:
  assumes M: "is_MC_MR M" and A: "is_VC_STAR A" and g: "dgrid A = dgrid M"
    and wfM: "dm_wf M" and wfA: "dm_wf A" and hA: "holds A G"
    and sz: "mheight M = mheight A" "mwidth M = mwidth A"
    and P: "P = Pad (MaxLength (mheight M) (gsize (dgrid M)) * MaxLength (mwidth M) (gwidth (dgrid M)))"
    and fr: "\<And>q. q \<in> procs (dgrid M) \<Longrightarrow> 0 \<le> fr q \<and> fr q < gheight (dgrid M)
               \<and> ColShift M q = (fr q - colAlign A) mod gheight (dgrid M)"
    and buf: "\<And>q k t. q \<in> procs (dgrid M) \<Longrightarrow> 0 \<le> k \<Longrightarrow> k < gwidth (dgrid M) \<Longrightarrow> 0 \<le> t \<Longrightarrow> t < P \<Longrightarrow>
       mem q (gwidth (dgrid M) * P + k * P + t)
       = pack_VC_STAR (gwidth (dgrid M)) (rowAlign M) (mwidth M) P
           (LocalHeight A (fr q + k * gheight (dgrid M))) (locals A (fr q + k * gheight (dgrid M)))
           base (B (fr q + k * gheight (dgrid M))) (base + gcol (dgrid M) q * P + t)"
    and lay: "same_layout N M"
  shows "holds (N\<lparr>locals := \<lambda>q. unpack_VC_STAR (gheight (dgrid M)) (gwidth (dgrid M)) (fr q)
            (ColShift M q) (colAlign A) (mheight M) (LocalWidth M q) P (gwidth (dgrid M) * P)
            (mem q) (locals M q)\<rparr>) G"
  unfolding holds_locals_update [OF lay]
proof (rule holds_locals_intro)
  fix q i j assume q: "q \<in> procs (dgrid M)" and i: "0 \<le> i" "i < LocalHeight M q"
    and j: "0 \<le> j" "j < LocalWidth M q"
  have f: "0 \<le> fr q" "fr q < gheight (dgrid M)" "ColShift M q = (fr q - colAlign A) mod gheight (dgrid M)"
    using fr [OF q] by auto
  show "unpack_VC_STAR (gheight (dgrid M)) (gwidth (dgrid M)) (fr q) (ColShift M q) (colAlign A)
          (mheight M) (LocalWidth M q) P (gwidth (dgrid M) * P) (mem q) (locals M q) (i, j)
        = G (ColShift M q + i * ColStride M, RowShift M q + j * RowStride M)"
    by (rule MC_MR_VC_unpack_holds [OF M A g wfM wfA hA sz q f P _ i j]) (rule buf [OF q])
qed

lemma MC_MR_VC_aligned_holds:
  assumes M: "is_MC_MR M" and A: "is_VC_STAR A" and g: "dgrid A = dgrid M"
    and wfM: "dm_wf M" and wfA: "dm_wf A" and hA: "holds A G"
    and sz: "mheight M = mheight A" "mwidth M = mwidth A"
    and al: "colAlign M = colAlign A smod gheight (dgrid M)"
  shows "\<exists>M'. MC_MR_VC_aligned M A = Inr M' \<and> holds M' G \<and> same_layout M' M"
proof -
  let ?g = "dgrid M" let ?r = "gheight ?g" let ?c = "gwidth ?g" let ?p = "?r * ?c"
  define P where "P = Pad (MaxLength (mheight M) ?p * MaxLength (mwidth M) ?c)"
  define M1 where "M1 = RequireAll (2 * ?c * P) M"
  define sent where "sent = (\<lambda>q. pack_VC_STAR ?c (rowAlign M) (mwidth M) P (LocalHeight A q)
                        (locals A q) 0 (auxMem M1 q))"
  define X where "X = (\<lambda>q::int. \<lparr>a2aSendOff = 0, a2aSendCount = P,
                     a2aRecvOff = ?c * P, a2aRecvCount = P\<rparr>)"
  have ok: "grid_ok ?g" using wfM by (simp add: dm_wf_def)
  then have r: "0 < ?r" by (simp add: grid_ok_def)
  have aA: "0 \<le> colAlign A" using wfA by (simp add: dm_wf_def)
  have "0 < P" by (simp add: P_def Pad_ge)
  then have "AllToAll_ok ?g MRComm X"
    by (simp add: AllToAll_ok_def X_def)
  then obtain mem where mem: "AllToAll ?g MRComm X sent = Some mem"
    using AllToAll_Some by blast
  have res: "MC_MR_VC_aligned M A = Inr (M1\<lparr>auxMem := mem,
             locals := \<lambda>q. unpack_VC_STAR ?r ?c (grow ?g q) (ColShift M q) (colAlign A) (mheight M)
                             (LocalWidth M q) P (?c * P) (mem q) (locals M q)\<rparr>)"
    using mem unfolding MC_MR_VC_aligned_def Let_def P_def [symmetric] M1_def [symmetric]
      sent_def [symmetric] X_def [symmetric] by simp
  have lay: "same_layout (M1\<lparr>auxMem := mem\<rparr>) M"
    by (simp add: same_layout_def M1_def RequireAll_def)
  have "holds (M1\<lparr>auxMem := mem, locals := \<lambda>q. unpack_VC_STAR ?r ?c (grow ?g q) (ColShift M q)
                 (colAlign A) (mheight M) (LocalWidth M q) P (?c * P) (mem q) (locals M q)\<rparr>) G"
  proof (rule MC_MR_VC_finish [OF M A g wfM wfA hA sz _ _ _ lay])
    show "P = Pad (MaxLength (mheight M) (gsize ?g) * MaxLength (mwidth M) ?c)"
      by (simp add: P_def gsize_def)
    fix q assume q: "q \<in> procs ?g"
    have fr: "0 \<le> grow ?g q" "grow ?g q < ?r" using grow_range [OF ok] by auto
    have "ColShift M q = (grow ?g q - colAlign M) mod ?r"
      using M wfM fr by (simp add: MC_MR_shifts Shift_eq dm_wf_def)
    also have "\<dots> = (grow ?g q - colAlign A) mod ?r"
      using al aA r by (simp add: mod_diff_right_eq)
    finally show "0 \<le> grow ?g q \<and> grow ?g q < ?r \<and> ColShift M q = (grow ?g q - colAlign A) mod ?r"
      using fr by simp
    fix k t assume k: "0 \<le> k" "k < ?c" and t: "0 \<le> t" "t < P"
    have "mem q (a2aRecvOff (X q) + k * a2aRecvCount (X q) + t)
        = sent (comm_member ?g MRComm q k)
            (a2aSendOff (X (comm_member ?g MRComm q k))
             + comm_rank ?g MRComm q * a2aSendCount (X (comm_member ?g MRComm q k)) + t)"
      by (rule AllToAll_at [OF mem]) (use k t in \<open>simp_all add: X_def\<close>)
    then show "mem q (?c * P + k * P + t)
        = pack_VC_STAR ?c (rowAlign M) (mwidth M) P (LocalHeight A (grow ?g q + k * ?r))
            (locals A (grow ?g q + k * ?r)) 0 (auxMem M1 (grow ?g q + k * ?r))
            (0 + gcol ?g q * P + t)"
      by (simp add: X_def sent_def)
  qed
  moreover have "same_layout (M1\<lparr>auxMem := mem, locals := \<lambda>q. unpack_VC_STAR ?r ?c (grow ?g q) (ColShift M q)
                 (colAlign A) (mheight M) (LocalWidth M q) P (?c * P) (mem q) (locals M q)\<rparr>) M"
    using lay by (simp only: same_layout_locals)
  ultimately show ?thesis using res by blast
qed

lemma MC_MR_VC_rows_eq:
  assumes M: "is_MC_MR M" and g: "dgrid A = dgrid M" and wfM: "dm_wf M" and wfA: "dm_wf A"
  defines "aAr \<equiv> colAlign A mod gheight (dgrid M)"
  shows "MC_MR_VC_rows M A q
     = ((grow (dgrid M) q + gheight (dgrid M) + (colAlign M - aAr)) smod gheight (dgrid M),
        (grow (dgrid M) q + gheight (dgrid M) - (colAlign M - aAr)) smod gheight (dgrid M))"
proof -
  have "0 \<le> colAlign A" "0 < gheight (dgrid M)" using wfA wfM by (simp_all add: dm_wf_def grid_ok_def)
  then have "colAlign A smod gheight (dgrid M) = aAr" by (simp add: aAr_def)
  then show ?thesis by (simp add: MC_MR_VC_rows_def Let_def algebra_simps)
qed

lemma MC_MR_VC_unaligned_holds:
  assumes M: "is_MC_MR M" and A: "is_VC_STAR A" and g: "dgrid A = dgrid M"
    and wfM: "dm_wf M" and wfA: "dm_wf A" and hA: "holds A G"
    and sz: "mheight M = mheight A" "mwidth M = mwidth A"
  shows "\<exists>M'. MC_MR_VC_unaligned M A = Inr M' \<and> holds M' G \<and> same_layout M' M"
proof -
  let ?g = "dgrid M" let ?r = "gheight ?g" let ?c = "gwidth ?g" let ?p = "?r * ?c"
  define aAr where "aAr = colAlign A mod ?r"
  define P where "P = Pad (MaxLength (mheight M) ?p * MaxLength (mwidth M) ?c)"
  define M1 where "M1 = RequireAll (2 * ?c * P) M"
  define sent where "sent = (\<lambda>q. pack_VC_STAR ?c (rowAlign M) (mwidth M) P (LocalHeight A q)
                        (locals A q) (?c * P) (auxMem M1 q))"
  define X1 where "X1 = (\<lambda>q. \<lparr>sendOff = ?c * P, sendCount = ?c * P,
                      sendTo = fst (MC_MR_VC_rows M A q), recvOff = 0,
                      recvCount = ?c * P, recvFrom = snd (MC_MR_VC_rows M A q)\<rparr>)"
  define X2 where "X2 = (\<lambda>q::int. \<lparr>a2aSendOff = 0, a2aSendCount = P,
                      a2aRecvOff = ?c * P, a2aRecvCount = P\<rparr>)"
  define sr where "sr q = (grow ?g q + ?r + (colAlign M - aAr)) smod ?r" for q
  define rr where "rr q = (grow ?g q + ?r - (colAlign M - aAr)) smod ?r" for q
  have ok: "grid_ok ?g" using wfM by (simp add: dm_wf_def)
  then have r: "0 < ?r" by (simp add: grid_ok_def)
  have aM: "0 \<le> colAlign M" "colAlign M < ?r" using wfM M by (simp_all add: dm_wf_def)
  have aAr: "0 \<le> aAr" "aAr < ?r" using r by (simp_all add: aAr_def)
  have rows: "MC_MR_VC_rows M A q = (sr q, rr q)" for q
    using MC_MR_VC_rows_eq [OF M g wfM wfA] by (simp add: sr_def rr_def aAr_def)
  have row: "0 \<le> grow ?g q" "grow ?g q < ?r" for q using grow_range [OF ok] by auto
  have srr: "0 \<le> sr q" "sr q < ?r" "0 \<le> rr q" "rr q < ?r" for q
    unfolding sr_def rr_def using row [of q] aM aAr by (simp_all add: partner_range)
  have inv: "rr (sr q + gcol ?g q * ?r) = grow ?g q" "sr (rr q + gcol ?g q * ?r) = grow ?g q" for q
  proof -
    have gr: "grow ?g (sr q + gcol ?g q * ?r) = sr q" "grow ?g (rr q + gcol ?g q * ?r) = rr q"
      using ok srr [of q] by (simp_all add: rowcol_vc)
    have pi: "((grow ?g q + ?r + (colAlign M - aAr)) smod ?r + ?r - (colAlign M - aAr)) smod ?r = grow ?g q"
      "((grow ?g q + ?r - (colAlign M - aAr)) smod ?r + ?r + (colAlign M - aAr)) smod ?r = grow ?g q"
      using partner_inverse [OF row(1) row(2) aM aAr, of q] by simp_all
    have "rr (sr q + gcol ?g q * ?r) = (grow ?g (sr q + gcol ?g q * ?r) + ?r - (colAlign M - aAr)) smod ?r"
      by (simp only: rr_def)
    also have "\<dots> = grow ?g q" by (simp only: gr) (simp only: sr_def pi)
    finally show "rr (sr q + gcol ?g q * ?r) = grow ?g q" .
    have "sr (rr q + gcol ?g q * ?r) = (grow ?g (rr q + gcol ?g q * ?r) + ?r + (colAlign M - aAr)) smod ?r"
      by (simp only: sr_def)
    also have "\<dots> = grow ?g q" by (simp only: gr) (simp only: rr_def pi)
    finally show "sr (rr q + gcol ?g q * ?r) = grow ?g q" .
  qed
  have "0 < P" by (simp add: P_def Pad_ge)
  have ok1: "SendRecv_ok ?g MCComm X1"
    unfolding SendRecv_ok_def
  proof
    fix q assume q: "q \<in> procs ?g"
    show "0 \<le> sendTo (X1 q) \<and> sendTo (X1 q) < comm_size ?g MCComm
        \<and> 0 \<le> recvFrom (X1 q) \<and> recvFrom (X1 q) < comm_size ?g MCComm
        \<and> recvFrom (X1 (comm_member ?g MCComm q (sendTo (X1 q)))) = comm_rank ?g MCComm q
        \<and> sendTo (X1 (comm_member ?g MCComm q (recvFrom (X1 q)))) = comm_rank ?g MCComm q
        \<and> sendCount (X1 (comm_member ?g MCComm q (recvFrom (X1 q)))) \<le> recvCount (X1 q)"
      using srr [of q] inv [of q] by (simp add: X1_def rows)
  qed
  then obtain mem1 where mem1: "SendRecv ?g MCComm X1 sent = Some mem1"
    by (simp add: SendRecv_def)
  have "AllToAll_ok ?g MRComm X2"
    using \<open>0 < P\<close> by (simp add: AllToAll_ok_def X2_def)
  then obtain mem2 where mem2: "AllToAll ?g MRComm X2 mem1 = Some mem2"
    using AllToAll_Some by blast
  have res: "MC_MR_VC_unaligned M A = Inr (M1\<lparr>auxMem := mem2,
                  locals := \<lambda>q. unpack_VC_STAR ?r ?c (snd (MC_MR_VC_rows M A q)) (ColShift M q)
                                  (colAlign A) (mheight M) (LocalWidth M q) P
                                  (?c * P) (mem2 q) (locals M q)\<rparr>)"
    using mem1 mem2 unfolding MC_MR_VC_unaligned_def Let_def P_def [symmetric] M1_def [symmetric]
      sent_def [symmetric] X1_def [symmetric] X2_def [symmetric] by simp
  have lay: "same_layout (M1\<lparr>auxMem := mem2\<rparr>) M"
    by (simp add: same_layout_def M1_def RequireAll_def)
  have "holds (M1\<lparr>auxMem := mem2, locals := \<lambda>q. unpack_VC_STAR ?r ?c (snd (MC_MR_VC_rows M A q)) (ColShift M q)
                                  (colAlign A) (mheight M) (LocalWidth M q) P
                                  (?c * P) (mem2 q) (locals M q)\<rparr>) G"
  proof (rule MC_MR_VC_finish [OF M A g wfM wfA hA sz _ _ _ lay])
    show "P = Pad (MaxLength (mheight M) (gsize ?g) * MaxLength (mwidth M) ?c)"
      by (simp add: P_def gsize_def)
    fix q assume q: "q \<in> procs ?g"
    have "ColShift M q = Shift (grow ?g q) (colAlign M) ?r"
      using M by (simp add: MC_MR_shifts)
    also have "\<dots> = Shift (rr q) aAr ?r"
      unfolding rr_def using partner_Shift [OF row(1) row(2) aM aAr, of q] by (rule sym)
    also have "\<dots> = (rr q - colAlign A) mod ?r"
      using srr [of q] aAr by (simp add: Shift_eq aAr_def mod_diff_right_eq)
    finally show "0 \<le> snd (MC_MR_VC_rows M A q) \<and> snd (MC_MR_VC_rows M A q) < ?r
        \<and> ColShift M q = (snd (MC_MR_VC_rows M A q) - colAlign A) mod ?r"
      using srr [of q] by (simp add: rows)
    fix k t assume k: "0 \<le> k" "k < ?c" and t: "0 \<le> t" "t < P"
    let ?s = "comm_member ?g MRComm q k"
    have s: "?s = grow ?g q + k * ?r" "grow ?g ?s = grow ?g q" "gcol ?g ?s = k"
      using row [of q] ok by (simp_all add: rowcol_vc)
    have "mem2 q (a2aRecvOff (X2 q) + k * a2aRecvCount (X2 q) + t)
        = mem1 ?s (a2aSendOff (X2 ?s) + comm_rank ?g MRComm q * a2aSendCount (X2 ?s) + t)"
      by (rule AllToAll_at [OF mem2]) (use k t in \<open>simp_all add: X2_def\<close>)
    also have "\<dots> = mem1 ?s (recvOff (X1 ?s) + (gcol ?g q * P + t))"
      by (simp add: X2_def X1_def)
    also have "\<dots> = sent (comm_member ?g MCComm ?s (recvFrom (X1 ?s)))
                      (sendOff (X1 (comm_member ?g MCComm ?s (recvFrom (X1 ?s)))) + (gcol ?g q * P + t))"
    proof (rule SendRecv_at [OF mem1])
      show "0 \<le> gcol ?g q * P + t" using gcol_range [OF ok q] t by simp
      have "gcol ?g q * P + t < (gcol ?g q + 1) * P" using t by (simp add: algebra_simps)
      also have "\<dots> \<le> ?c * P" using gcol_range [OF ok q] \<open>0 < P\<close> by (intro mult_right_mono) auto
      finally show "gcol ?g q * P + t < sendCount (X1 (comm_member ?g MCComm ?s (recvFrom (X1 ?s))))"
        by (simp add: X1_def)
    qed
    also have "comm_member ?g MCComm ?s (recvFrom (X1 ?s)) = snd (MC_MR_VC_rows M A q) + k * ?r"
      using s by (simp add: X1_def rows rr_def)
    finally show "mem2 q (?c * P + k * P + t)
        = pack_VC_STAR ?c (rowAlign M) (mwidth M) P (LocalHeight A (snd (MC_MR_VC_rows M A q) + k * ?r))
            (locals A (snd (MC_MR_VC_rows M A q) + k * ?r)) (?c * P)
            (auxMem M1 (snd (MC_MR_VC_rows M A q) + k * ?r)) (?c * P + gcol ?g q * P + t)"
      by (simp add: X1_def X2_def sent_def add.assoc)
  qed
  moreover have "same_layout (M1\<lparr>auxMem := mem2, locals := \<lambda>q. unpack_VC_STAR ?r ?c (snd (MC_MR_VC_rows M A q))
                 (ColShift M q) (colAlign A) (mheight M) (LocalWidth M q) P (?c * P) (mem2 q) (locals M q)\<rparr>) M"
    using lay by (simp only: same_layout_locals)
  ultimately show ?thesis using res by blast
qed

lemma MC_MR_from_VC_STAR_correct:
  assumes M0: "is_MC_MR M0" and A: "is_VC_STAR A" and g: "dgrid A = dgrid M0"
    and wf0: "dm_wf M0" and wfA: "dm_wf A" and hA: "holds A G"
  shows "\<exists>M'. MC_MR_from_VC_STAR M0 A = Inr M' \<and> holds M' G \<and> is_MC_MR M'
           \<and> dgrid M' = dgrid A \<and> mheight M' = mheight A \<and> mwidth M' = mwidth A"
proof -
  let ?r = "gheight (dgrid M0)"
  define M where "M = AlignColsAndResize (colAlign A smod ?r) (mheight A) (mwidth A) M0"
  have r: "0 < ?r" using wf0 by (simp add: dm_wf_def grid_ok_def)
  have aA: "0 \<le> colAlign A" using wfA by (simp add: dm_wf_def)
  have M: "is_MC_MR M" "dgrid A = dgrid M" "mheight M = mheight A" "mwidth M = mwidth A"
    using M0 g by (simp_all add: M_def is_MC_MR_def)
  have wfM: "dm_wf M"
  proof -
    have "colAlign M \<in> {colAlign A smod ?r, colAlign M0}" unfolding M_def by (rule AlignColsAndResize_align)
    moreover have "0 \<le> colAlign A smod ?r" "colAlign A smod ?r < ?r" using r aA by simp_all
    ultimately show ?thesis
      using wf0 wfA M0 g by (auto simp: dm_wf_def M_def ColStride_def RowStride_def is_MC_MR_def)
  qed
  have res: "MC_MR_from_VC_STAR M0 A
      = (if colAlign M = colAlign A smod gheight (dgrid M) then MC_MR_VC_aligned M A else MC_MR_VC_unaligned M A)"
    using g M by (simp add: MC_MR_from_VC_STAR_def M_def Let_def)
  have "\<exists>M'. MC_MR_from_VC_STAR M0 A = Inr M' \<and> holds M' G \<and> same_layout M' M"
  proof (cases "colAlign M = colAlign A smod gheight (dgrid M)")
    case True
    then show ?thesis
      using res MC_MR_VC_aligned_holds [OF M(1) A M(2) wfM wfA hA M(3,4) True] by simp
  next
    case False
    then show ?thesis
      using res MC_MR_VC_unaligned_holds [OF M(1) A M(2) wfM wfA hA M(3,4)] by simp
  qed
  then show ?thesis
    using M by (auto simp: same_layout_def is_MC_MR_def)
qed

text \<open>C2. Assigning a \<open>[VC,*]\<close> matrix to an \<open>[MC,MR]\<close> matrix on the same grid returns
  normally, whatever the destination's alignment constraint, and the destination then
  holds the source's global matrix with the source's size: the aligned branch by one
  all-to-all over the grid row, the unaligned one by a point-to-point trade within the
  grid column followed by the all-to-all.\<close>

theorem MC_MR_from_VC_STAR_holds:
  assumes M0: "is_MC_MR M0" and A: "is_VC_STAR A" and g: "dgrid A = dgrid M0"
    and wf0: "dm_wf M0" and wfA: "dm_wf A" and hA: "holds A G"
  shows "\<exists>M'. MC_MR_from_VC_STAR M0 A = Inr M' \<and> holds M' G \<and> is_MC_MR M'
           \<and> dgrid M' = dgrid A \<and> mheight M' = mheight A \<and> mwidth M' = mwidth A"
  using assms by (rule MC_MR_from_VC_STAR_correct)

end
