(* ===== verification/MC_MR_Align.thy ===== *)
theory MC_MR_Align
  imports Pack
begin

text \<open>
  Alignment resolution of the \<open>[MC,MR]\<close> type (\<open>src/src/core/dist_matrix/mc_mr.cpp\<close>,
  lines 926--995, spec 4.2): \<open>AlignWith\<close>, \<open>AlignColsWith\<close> and \<open>AlignRowsWith\<close>
  take over the alignment of a descriptor whose distribution shares an axis with
  \<open>[MC,MR]\<close>, by a closed table of tag patterns. Their checks are written inside
  \<open>DEBUG_ONLY\<close>: a tag pattern outside the table, or (for the one-axis variants) a
  descriptor on another grid, raises only in a debug build. The lemmas show what the
  table achieves: afterwards every axis of the descriptor that is tied to a grid row or
  column is owned, index by index, by the same grid row or column as the matching axis
  of the matrix, and that axis is constrained.
\<close>

section \<open>Operations\<close>

text \<open>\<open>AlignWith\<close> (lines 926--953). \<open>ColStride()\<close> and \<open>RowStride()\<close> of
  \<open>[MC,MR]\<close> are the grid's height and width (lines 1201--1203), read after
  \<open>SetGrid\<close>.\<close>

definition MC_MR_AlignWith :: "build \<Rightarrow> DistData \<Rightarrow> 'a DistMatrix \<Rightarrow> 'a DistMatrix exn" where
  "MC_MR_AlignWith b data M0 =
     (let M = SetGrid (ddGrid data) M0; cd = ddColDist data; rd = ddRowDist data in
      if cd = MC \<and> rd = MR then Inr (Align (ddColAlign data) (ddRowAlign data) M)
      else if cd = MC \<and> rd = STAR then Inr (AlignCols (ddColAlign data) M)
      else if cd = MR \<and> rd = MC then Inr (Align (ddRowAlign data) (ddColAlign data) M)
      else if cd = MR \<and> rd = STAR then Inr (AlignRows (ddColAlign data) M)
      else if cd = STAR \<and> rd = MC then Inr (AlignCols (ddRowAlign data) M)
      else if cd = STAR \<and> rd = MR then Inr (AlignRows (ddRowAlign data) M)
      else if cd = STAR \<and> rd = VC then Inr (AlignCols (ddRowAlign data smod gheight (dgrid M)) M)
      else if cd = STAR \<and> rd = VR then Inr (AlignRows (ddRowAlign data smod gwidth (dgrid M)) M)
      else if cd = VC \<and> rd = STAR then Inr (AlignCols (ddColAlign data smod gheight (dgrid M)) M)
      else if cd = VR \<and> rd = STAR then Inr (AlignRows (ddColAlign data smod gwidth (dgrid M)) M)
      else if b = Debug then Inl (LogicError ''Nonsensical alignment'', M)
      else Inr M)"

text \<open>\<open>AlignColsWith\<close> (lines 955--975): align the column axis (\<open>MC\<close>) with the
  descriptor's \<open>MC\<close> or \<open>VC\<close> axis. The grid check compares the two grids.\<close>

definition MC_MR_AlignColsWith :: "build \<Rightarrow> DistData \<Rightarrow> 'a DistMatrix \<Rightarrow> 'a DistMatrix exn" where
  "MC_MR_AlignColsWith b data M =
     (if b = Debug \<and> dgrid M \<noteq> ddGrid data then Inl (LogicError ''Grids do not match'', M)
      else if ddColDist data = MC then Inr (AlignCols (ddColAlign data) M)
      else if ddRowDist data = MC then Inr (AlignCols (ddRowAlign data) M)
      else if ddColDist data = VC then Inr (AlignCols (ddColAlign data smod gheight (dgrid M)) M)
      else if ddRowDist data = VC then Inr (AlignCols (ddRowAlign data smod gheight (dgrid M)) M)
      else if b = Debug then Inl (LogicError ''Nonsensical alignment'', M)
      else Inr M)"

text \<open>\<open>AlignRowsWith\<close> (lines 977--995): the same for the row axis (\<open>MR\<close>) and the
  descriptor's \<open>MR\<close> or \<open>VR\<close> axis.\<close>

definition MC_MR_AlignRowsWith :: "build \<Rightarrow> DistData \<Rightarrow> 'a DistMatrix \<Rightarrow> 'a DistMatrix exn" where
  "MC_MR_AlignRowsWith b data M =
     (if b = Debug \<and> dgrid M \<noteq> ddGrid data then Inl (LogicError ''Grids do not match'', M)
      else if ddColDist data = MR then Inr (AlignRows (ddColAlign data) M)
      else if ddRowDist data = MR then Inr (AlignRows (ddRowAlign data) M)
      else if ddColDist data = VR then Inr (AlignRows (ddColAlign data smod gwidth (dgrid M)) M)
      else if ddRowDist data = VR then Inr (AlignRows (ddRowAlign data smod gwidth (dgrid M)) M)
      else if b = Debug then Inl (LogicError ''Nonsensical alignment'', M)
      else Inr M)"

text \<open>The tag pairs \<open>AlignWith\<close> handles: the ten branches of its table.\<close>

definition AlignWith_handles :: "Dist \<Rightarrow> Dist \<Rightarrow> bool" where
  "AlignWith_handles cd rd \<longleftrightarrow>
     (cd, rd) \<in> set [(MC, MR), (MC, STAR), (MR, MC), (MR, STAR), (STAR, MC), (STAR, MR),
                     (STAR, VC), (STAR, VR), (VC, STAR), (VR, STAR)]"

text \<open>The distribution pairs of the library: \<open>[MC,MR]\<close> and the thirteen pairs its
  copy constructor is instantiated from (lines 1394--1410).\<close>

definition dist_pair :: "Dist \<Rightarrow> Dist \<Rightarrow> bool" where
  "dist_pair cd rd \<longleftrightarrow>
     (cd, rd) \<in> set [(MC, MR), (CIRC, CIRC), (MC, STAR), (MD, STAR), (MR, MC), (MR, STAR),
                     (STAR, MC), (STAR, MD), (STAR, MR), (STAR, STAR), (STAR, VC), (STAR, VR),
                     (VC, STAR), (VR, STAR)]"

text \<open>The axes of a descriptor, as (tag, alignment) pairs.\<close>

definition dd_axes :: "DistData \<Rightarrow> (Dist \<times> int) set" where
  "dd_axes data = {(ddColDist data, ddColAlign data), (ddRowDist data, ddRowAlign data)}"

text \<open>The axis of an \<open>[MC,MR]\<close> matrix owned along a grid coordinate: rows of the
  matrix along grid rows, columns along grid columns.\<close>

fun MC_MR_axis :: "'a DistMatrix \<Rightarrow> gaxis \<Rightarrow> Dist \<times> int" where
  "MC_MR_axis M GRow = (MC, colAlign M)"
| "MC_MR_axis M GCol = (MR, rowAlign M)"

fun axis_constrained :: "'a DistMatrix \<Rightarrow> gaxis \<Rightarrow> bool" where
  "axis_constrained M GRow = colConstrained M"
| "axis_constrained M GCol = rowConstrained M"

section \<open>What the tables achieve\<close>

text \<open>C3. For every tag pair in its table, \<open>[MC,MR]::AlignWith\<close> moves the matrix to
  the descriptor's grid and makes each axis of the descriptor that is tied to a grid
  coordinate share its ownership index by index with the matching axis of the matrix
  (grid rows own the same rows, grid columns the same columns), and constrains that axis.\<close>

theorem MC_MR_AlignWith_aligns:
  assumes res: "MC_MR_AlignWith b data M = Inr M'"
    and h: "AlignWith_handles (ddColDist data) (ddRowDist data)"
    and g: "grid_ok (ddGrid data)" and a: "0 \<le> ddColAlign data" "0 \<le> ddRowAlign data"
    and ax: "(d, al) \<in> dd_axes data" and own: "owner_coord (ddGrid data) d al i = Some (x, y)"
  shows "owner_coord (dgrid M') (fst (MC_MR_axis M' x)) (snd (MC_MR_axis M' x)) i = Some (x, y)
         \<and> axis_constrained M' x \<and> dgrid M' = ddGrid data"
proof -
  have r: "0 < gheight (ddGrid data)" "0 < gwidth (ddGrid data)" using g by (simp_all add: grid_ok_def)
  show ?thesis
    using res h ax own a r
    by (cases "ddColDist data"; cases "ddRowDist data"; cases x)
       (auto simp: MC_MR_AlignWith_def AlignWith_handles_def dd_axes_def Let_def base_defs
          gsize_mod_mod)
qed

text \<open>C4. Outside its table, \<open>AlignWith\<close> has already moved the matrix to the
  descriptor's grid (\<open>SetGrid\<close>, which empties it when the grid changes) when it
  raises the nonsensical-alignment error, and it raises it only in a debug build: a
  release build returns normally with the alignment untouched.\<close>

theorem MC_MR_AlignWith_unhandled:
  assumes "\<not> AlignWith_handles (ddColDist data) (ddRowDist data)"
  shows "MC_MR_AlignWith Debug data M = Inl (LogicError ''Nonsensical alignment'', SetGrid (ddGrid data) M)
       \<and> MC_MR_AlignWith Release data M = Inr (SetGrid (ddGrid data) M)"
  using assms
  by (cases "ddColDist data"; cases "ddRowDist data") (simp_all add: MC_MR_AlignWith_def AlignWith_handles_def)

text \<open>C5. For every distribution pair of the library and a descriptor on the matrix's
  grid, \<open>AlignColsWith\<close> returns normally and aligns the matrix's column axis with the
  descriptor's axis owned along grid rows (its \<open>MC\<close> or \<open>VC\<close> axis), constraining
  it and leaving the row alignment alone.\<close>

theorem MC_MR_AlignColsWith_aligns:
  assumes v: "dist_pair (ddColDist data) (ddRowDist data)" and gm: "dgrid M = ddGrid data"
    and g: "grid_ok (ddGrid data)" and a: "0 \<le> ddColAlign data" "0 \<le> ddRowAlign data"
    and ax: "(d, al) \<in> dd_axes data" and own: "owner_coord (ddGrid data) d al i = Some (GRow, y)"
  shows "\<exists>M'. MC_MR_AlignColsWith b data M = Inr M'
           \<and> owner_coord (dgrid M') MC (colAlign M') i = Some (GRow, y) \<and> colConstrained M'
           \<and> rowAlign M' = rowAlign M \<and> dgrid M' = dgrid M"
proof -
  have r: "0 < gheight (ddGrid data)" using g by (simp add: grid_ok_def)
  show ?thesis
    using v ax own a r gm
    by (cases "ddColDist data"; cases "ddRowDist data")
       (auto simp: MC_MR_AlignColsWith_def dist_pair_def dd_axes_def base_defs gsize_mod_mod)
qed

text \<open>C6. Symmetrically, \<open>AlignRowsWith\<close> aligns the row axis with the descriptor's
  axis owned along grid columns (its \<open>MR\<close> or \<open>VR\<close> axis).\<close>

theorem MC_MR_AlignRowsWith_aligns:
  assumes v: "dist_pair (ddColDist data) (ddRowDist data)" and gm: "dgrid M = ddGrid data"
    and g: "grid_ok (ddGrid data)" and a: "0 \<le> ddColAlign data" "0 \<le> ddRowAlign data"
    and ax: "(d, al) \<in> dd_axes data" and own: "owner_coord (ddGrid data) d al i = Some (GCol, y)"
  shows "\<exists>M'. MC_MR_AlignRowsWith b data M = Inr M'
           \<and> owner_coord (dgrid M') MR (rowAlign M') i = Some (GCol, y) \<and> rowConstrained M'
           \<and> colAlign M' = colAlign M \<and> dgrid M' = dgrid M"
proof -
  have c: "0 < gwidth (ddGrid data)" using g by (simp add: grid_ok_def)
  show ?thesis
    using v ax own a c gm
    by (cases "ddColDist data"; cases "ddRowDist data")
       (auto simp: MC_MR_AlignRowsWith_def dist_pair_def dd_axes_def base_defs gsize_mod_mod)
qed

end
