(* ===== verification/MC_MR_Trans.thy ===== *)
theory MC_MR_Trans
  imports Pack
begin

text \<open>
  \<open>[MC,MR]::TransposeFrom\<close> (\<open>src/src/core/dist_matrix/mc_mr.cpp\<close>, lines
  1000--1118): the destination becomes the transpose (or, with \<open>conjugate\<close>, the
  conjugate transpose) of a \<open>[*,MC]\<close> or an \<open>[MR,*]\<close> matrix. Both are local copies
  when the destination's alignment matches; the \<open>[*,MC]\<close> source additionally has a
  point-to-point path within the grid column when the destination's column alignment
  is constrained to another value. The element conjugation \<open>Conj\<close> is a parameter
  \<open>cj\<close> of the model; only whether it is applied matters here.
\<close>

section \<open>Loops\<close>

text \<open>The entry operation of the loops: \<open>conjugate ? Conj(x) : x\<close>.\<close>

definition conj_if :: "bool \<Rightarrow> ('a \<Rightarrow> 'a) \<Rightarrow> 'a \<Rightarrow> 'a" where
  "conj_if conjugate cj x = (if conjugate then cj x else x)"

text \<open>Aligned \<open>[*,MC]\<close> path (lines 1013--1032): local entry \<open>(iLoc, jLoc)\<close> is entry
  \<open>(rowShift + jLoc rowStride, iLoc)\<close> of \<open>A\<close>'s local matrix.\<close>

definition trans_STAR_MC_local :: "int \<Rightarrow> int \<Rightarrow> int \<Rightarrow> int \<Rightarrow> ('a \<Rightarrow> 'a) \<Rightarrow> 'a lmat \<Rightarrow> 'a lmat \<Rightarrow> 'a lmat" where
  "trans_STAR_MC_local localHeight localWidth rowShift rowStride f ABuf loc =
     for_loop2 localWidth localHeight
       (\<lambda>iLoc jLoc m. m((iLoc, jLoc) := f (ABuf (rowShift + jLoc * rowStride, iLoc)))) loc"

text \<open>Unaligned \<open>[*,MC]\<close> path, pack (lines 1058--1068): column \<open>jLoc\<close> of the packed
  transpose, \<open>localWidthA\<close> entries, is written from offset \<open>jLoc * localWidth\<close>.\<close>

definition pack_trans_STAR_MC :: "int \<Rightarrow> int \<Rightarrow> int \<Rightarrow> int \<Rightarrow> ('a \<Rightarrow> 'a) \<Rightarrow> 'a lmat \<Rightarrow> 'a buf \<Rightarrow> 'a buf" where
  "pack_trans_STAR_MC localWidth localWidthA rowShift rowStride f ABuf buf =
     for_loop2 localWidth localWidthA
       (\<lambda>iLoc jLoc b. b(jLoc * localWidth + iLoc := f (ABuf (rowShift + jLoc * rowStride, iLoc)))) buf"

text \<open>The partners and sizes of the exchange (lines 1041--1055).\<close>

definition trans_STAR_MC_xfer :: "'a DistMatrix \<Rightarrow> 'a DistMatrix \<Rightarrow> int \<Rightarrow> xfer" where
  "trans_STAR_MC_xfer M A q =
     (let colStride = ColStride M; colRank = ColRank M q;
          sendRank = (colRank + colStride + colAlign M - rowAlign A) smod colStride;
          recvRank = (colRank + colStride + rowAlign A - colAlign M) smod colStride;
          sendSize = LocalWidth A q * LocalWidth M q;
          recvSize = LocalHeight M q * LocalWidth M q
      in \<lparr>sendOff = 0, sendCount = sendSize, sendTo = sendRank,
          recvOff = sendSize, recvCount = recvSize, recvFrom = recvRank\<rparr>)"

section \<open>The operations\<close>

text \<open>\<open>TransposeFrom( const DistMatrix<T,STAR,MC>& A, bool conjugate )\<close>
  (lines 1000--1085). The unpack (lines 1076--1082) copies column \<open>jLoc\<close> of
  \<open>localHeight\<close> entries from \<open>recvBuf[jLoc * localHeight]\<close>, which is
  \<open>unpack_local\<close>.\<close>

definition MC_MR_TransposeFrom_STAR_MC ::
  "bool \<Rightarrow> ('a \<Rightarrow> 'a) \<Rightarrow> 'a DistMatrix \<Rightarrow> 'a DistMatrix \<Rightarrow> 'a DistMatrix exn" where
  "MC_MR_TransposeFrom_STAR_MC conjugate cj M0 A =
     (let M = AlignColsAndResize (rowAlign A) (mwidth A) (mheight A) M0;
          f = conj_if conjugate cj in
      if colAlign M = rowAlign A then
        Inr (M\<lparr>locals := \<lambda>q. trans_STAR_MC_local (LocalHeight M q) (LocalWidth M q) (RowShift M q)
                                (RowStride M) f (locals A q) (locals M q)\<rparr>)
      else
        (let X = trans_STAR_MC_xfer M A;
             M1 = M\<lparr>auxSize := \<lambda>q. max (auxSize M q) (sendCount (X q) + recvCount (X q))\<rparr>;
             sent = (\<lambda>q. pack_trans_STAR_MC (LocalWidth M q) (LocalWidth A q) (RowShift M q)
                            (RowStride M) f (locals A q) (auxMem M1 q))
         in case SendRecv (dgrid M) MCComm X sent of
              None \<Rightarrow> Inl (CommError, M1\<lparr>auxMem := sent\<rparr>)
            | Some mem \<Rightarrow> Inr (M1\<lparr>auxMem := mem,
                 locals := \<lambda>q. unpack_local (LocalHeight M q) (LocalWidth M q) (mem q)
                                 (recvOff (X q)) (locals M q)\<rparr>)))"

text \<open>\<open>TransposeFrom( const DistMatrix<T,MR,STAR>& A, bool conjugate )\<close>
  (lines 1087--1118): force the row alignment to \<open>A\<close>'s column alignment, then
  local entry \<open>(iLoc, jLoc)\<close> is entry \<open>(jLoc, colShift + iLoc colStride)\<close> of
  \<open>A\<close>'s local matrix.\<close>

definition trans_MR_STAR_local :: "int \<Rightarrow> int \<Rightarrow> int \<Rightarrow> int \<Rightarrow> ('a \<Rightarrow> 'a) \<Rightarrow> 'a lmat \<Rightarrow> 'a lmat \<Rightarrow> 'a lmat" where
  "trans_MR_STAR_local localHeight localWidth colShift colStride f ABuf loc =
     for_loop2 localWidth localHeight
       (\<lambda>iLoc jLoc m. m((iLoc, jLoc) := f (ABuf (jLoc, colShift + iLoc * colStride)))) loc"

definition MC_MR_TransposeFrom_MR_STAR ::
  "bool \<Rightarrow> ('a \<Rightarrow> 'a) \<Rightarrow> 'a DistMatrix \<Rightarrow> 'a DistMatrix \<Rightarrow> 'a DistMatrix exn" where
  "MC_MR_TransposeFrom_MR_STAR conjugate cj M0 A =
     (case AlignRowsAndResizeForce (colAlign A) (mwidth A) (mheight A) M0 of
        Inl e \<Rightarrow> Inl e
      | Inr M \<Rightarrow> Inr (M\<lparr>locals := \<lambda>q. trans_MR_STAR_local (LocalHeight M q) (LocalWidth M q)
                     (ColShift M q) (ColStride M) (conj_if conjugate cj) (locals A q) (locals M q)\<rparr>))"

section \<open>Reading the loops back\<close>

lemma trans_STAR_MC_local_at:
  assumes "0 \<le> i" "i < lh" "0 \<le> j" "j < lw"
  shows "trans_STAR_MC_local lh lw rs st f A loc (i, j) = f (A (rs + j * st, i))"
  unfolding trans_STAR_MC_local_def
  by (rule for_loop2_upd_at [where pos = "\<lambda>i j. (i, j)"]) (use assms in \<open>simp_all add: inj_on_def\<close>)

lemma trans_MR_STAR_local_at:
  assumes "0 \<le> i" "i < lh" "0 \<le> j" "j < lw"
  shows "trans_MR_STAR_local lh lw cs st f A loc (i, j) = f (A (j, cs + i * st))"
  unfolding trans_MR_STAR_local_def
  by (rule for_loop2_upd_at [where pos = "\<lambda>i j. (i, j)"]) (use assms in \<open>simp_all add: inj_on_def\<close>)

lemma pack_trans_STAR_MC_at:
  assumes "0 \<le> i" "i < lwA" "lwA \<le> lw" "0 \<le> j" "j < lw"
  shows "pack_trans_STAR_MC lw lwA rs st f A buf (j * lw + i) = f (A (rs + j * st, i))"
  unfolding pack_trans_STAR_MC_def
proof (rule for_loop2_upd_at [where pos = "\<lambda>i j. j * lw + i"])
  show "inj_on (\<lambda>(i, j). j * lw + i) ({0..<lwA} \<times> {0..<lw})"
    using assms by (auto simp: inj_on_def colmajor_inj)
qed (use assms in simp_all)

section \<open>The exchange of the unaligned path\<close>

lemma trans_STAR_MC_partner:
  assumes M: "is_MC_MR M" and A: "is_STAR_MC A" and g: "dgrid A = dgrid M"
    and wfM: "dm_wf M" and wfA: "dm_wf A" and q: "q \<in> procs (dgrid M)"
  defines "X \<equiv> trans_STAR_MC_xfer M A"
  defines "src \<equiv> comm_member (dgrid M) MCComm q (recvFrom (X q))"
  shows "0 \<le> recvFrom (X q)" "recvFrom (X q) < gheight (dgrid M)"
    "0 \<le> sendTo (X q)" "sendTo (X q) < gheight (dgrid M)"
    "recvFrom (X (comm_member (dgrid M) MCComm q (sendTo (X q)))) = grow (dgrid M) q"
    "sendTo (X src) = grow (dgrid M) q"
    "src \<in> procs (dgrid M)" "gcol (dgrid M) src = gcol (dgrid M) q"
    "RowShift A src = ColShift M q"
proof -
  let ?g = "dgrid M" let ?r = "gheight ?g"
  let ?d = "colAlign M - rowAlign A"
  have ok: "grid_ok ?g" using wfM by (simp add: dm_wf_def)
  have al: "0 \<le> colAlign M" "colAlign M < ?r" "0 \<le> rowAlign A" "rowAlign A < ?r"
    using wfM wfA M A g by (auto simp: dm_wf_def is_STAR_MC_def RowStride_def)
  have row: "0 \<le> grow ?g q" "grow ?g q < ?r" using grow_range [OF ok] by auto
  have col: "0 \<le> gcol ?g q" "gcol ?g q < gwidth ?g" using gcol_range [OF ok q] by auto
  define sr where "sr p = (grow ?g p + ?r + ?d) smod ?r" for p
  define rr where "rr p = (grow ?g p + ?r - ?d) smod ?r" for p
  have Xp: "sendTo (X p) = sr p" "recvFrom (X p) = rr p" for p
    using M by (simp_all add: X_def trans_STAR_MC_xfer_def Let_def sr_def rr_def algebra_simps)
  have srr: "0 \<le> sr q" "sr q < ?r" "0 \<le> rr q" "rr q < ?r"
    unfolding sr_def rr_def using row al by (simp_all add: partner_range)
  then show "0 \<le> recvFrom (X q)" "recvFrom (X q) < ?r" "0 \<le> sendTo (X q)" "sendTo (X q) < ?r"
    by (simp_all add: Xp)
  have gr: "grow ?g (sr q + gcol ?g q * ?r) = sr q" "grow ?g (rr q + gcol ?g q * ?r) = rr q"
    "gcol ?g (rr q + gcol ?g q * ?r) = gcol ?g q"
    using ok srr by (simp_all add: rowcol_vc)
  have pi: "((grow ?g q + ?r + ?d) smod ?r + ?r - ?d) smod ?r = grow ?g q"
    "((grow ?g q + ?r - ?d) smod ?r + ?r + ?d) smod ?r = grow ?g q"
    using partner_inverse [OF row al] by simp_all
  have "rr (sr q + gcol ?g q * ?r) = (grow ?g (sr q + gcol ?g q * ?r) + ?r - ?d) smod ?r"
    by (simp only: rr_def)
  also have "\<dots> = grow ?g q" by (simp only: gr) (simp only: sr_def pi)
  finally show "recvFrom (X (comm_member ?g MCComm q (sendTo (X q)))) = grow ?g q"
    by (simp add: Xp)
  have srcd: "src = rr q + gcol ?g q * ?r" by (simp add: src_def Xp)
  have "sr (rr q + gcol ?g q * ?r) = (grow ?g (rr q + gcol ?g q * ?r) + ?r + ?d) smod ?r"
    by (simp only: sr_def)
  also have "\<dots> = grow ?g q" by (simp only: gr) (simp only: rr_def pi)
  finally show "sendTo (X src) = grow ?g q" by (simp add: Xp srcd)
  show "src \<in> procs ?g" using srcd srr col ok by (simp add: rowcol_in_procs)
  show "gcol ?g src = gcol ?g q" using srcd gr by simp
  have "RowShift A src = Shift (rr q) (rowAlign A) ?r"
    using A wfA g srcd gr by simp
  also have "\<dots> = Shift (grow ?g q) (colAlign M) ?r"
    unfolding rr_def using partner_Shift [OF row al] by simp
  also have "\<dots> = ColShift M q" using M by (simp add: MC_MR_shifts)
  finally show "RowShift A src = ColShift M q" .
qed

lemma trans_STAR_MC_unaligned_at:
  assumes M0: "is_MC_MR M0" and A: "is_STAR_MC A" and g: "dgrid A = dgrid M0"
    and wf0: "dm_wf M0" and wfA: "dm_wf A"
  defines "M \<equiv> AlignColsAndResize (rowAlign A) (mwidth A) (mheight A) M0"
  defines "X \<equiv> trans_STAR_MC_xfer M A"
  defines "src \<equiv> \<lambda>q. comm_member (dgrid M) MCComm q (recvFrom (X q))"
  assumes un: "colAlign M \<noteq> rowAlign A"
  shows "\<exists>M'. MC_MR_TransposeFrom_STAR_MC conjugate cj M0 A = Inr M' \<and> same_layout M' M
    \<and> (\<forall>q\<in>procs (dgrid M). \<forall>i j. 0 \<le> i \<longrightarrow> i < LocalHeight M q \<longrightarrow> 0 \<le> j \<longrightarrow> j < LocalWidth M q \<longrightarrow>
         locals M' q (i, j) = pack_trans_STAR_MC (LocalWidth M (src q)) (LocalWidth A (src q))
           (RowShift M (src q)) (RowStride M) (conj_if conjugate cj) (locals A (src q))
           (auxMem M0 (src q)) (j * LocalHeight M q + i))"
proof -
  let ?g = "dgrid M" let ?r = "gheight ?g" let ?c = "gwidth ?g"
  let ?f = "conj_if conjugate cj"
  have Mf: "is_MC_MR M" "dgrid A = dgrid M" "mheight M = mwidth A" "mwidth M = mheight A"
    using M0 g by (simp_all add: M_def is_MC_MR_def)
  have ok: "grid_ok ?g" using wf0 by (simp add: M_def dm_wf_def)
  have wfM: "dm_wf M"
  proof -
    have "colAlign M \<in> {rowAlign A, colAlign M0}" unfolding M_def by (rule AlignColsAndResize_align)
    moreover have "0 \<le> rowAlign A" "rowAlign A < gheight (dgrid A)"
      using wfA A by (simp_all add: dm_wf_def is_STAR_MC_def RowStride_def)
    ultimately show ?thesis
      using wf0 wfA M0 g by (auto simp: dm_wf_def M_def ColStride_def RowStride_def is_MC_MR_def)
  qed
  note P = trans_STAR_MC_partner [OF Mf(1) A Mf(2) wfM wfA]
  have lw: "LocalWidth M (src q) = LocalWidth M q" if "q \<in> procs ?g" for q
    using P(8) [OF that] Mf by (simp add: src_def X_def MC_MR_shifts)
  have lwA: "LocalWidth A (src q) = LocalHeight M q" if "q \<in> procs ?g" for q
    using P(9) [OF that] Mf A wfA by (simp add: src_def X_def MC_MR_shifts)
  have okX: "SendRecv_ok ?g MCComm X"
    unfolding SendRecv_ok_def
  proof
    fix q assume q: "q \<in> procs ?g"
    have cnt: "sendCount (X (src q)) = recvCount (X q)"
      using lw [OF q] lwA [OF q] by (simp add: X_def trans_STAR_MC_xfer_def Let_def mult.commute)
    show "0 \<le> sendTo (X q) \<and> sendTo (X q) < comm_size ?g MCComm
        \<and> 0 \<le> recvFrom (X q) \<and> recvFrom (X q) < comm_size ?g MCComm
        \<and> recvFrom (X (comm_member ?g MCComm q (sendTo (X q)))) = comm_rank ?g MCComm q
        \<and> sendTo (X (comm_member ?g MCComm q (recvFrom (X q)))) = comm_rank ?g MCComm q
        \<and> sendCount (X (comm_member ?g MCComm q (recvFrom (X q)))) \<le> recvCount (X q)"
      using P(1-6) [OF q] cnt by (simp add: X_def src_def)
  qed
  define M1 where "M1 = M\<lparr>auxSize := \<lambda>q. max (auxSize M q) (sendCount (X q) + recvCount (X q))\<rparr>"
  define sent where "sent = (\<lambda>q. pack_trans_STAR_MC (LocalWidth M q) (LocalWidth A q) (RowShift M q)
                            (RowStride M) ?f (locals A q) (auxMem M1 q))"
  obtain mem where mem: "SendRecv ?g MCComm X sent = Some mem"
    using okX by (simp add: SendRecv_def)
  define L where "L = (\<lambda>q. unpack_local (LocalHeight M q) (LocalWidth M q) (mem q) (recvOff (X q)) (locals M q))"
  have res: "MC_MR_TransposeFrom_STAR_MC conjugate cj M0 A = Inr (M1\<lparr>auxMem := mem, locals := L\<rparr>)"
    using un mem unfolding MC_MR_TransposeFrom_STAR_MC_def Let_def M_def [symmetric] X_def [symmetric]
      M1_def [symmetric] sent_def [symmetric] by (simp add: L_def)
  have lay: "same_layout (M1\<lparr>auxMem := mem, locals := L\<rparr>) M"
    by (simp add: same_layout_def M1_def)
  have val: "L q (i, j) = sent (src q) (j * LocalHeight M q + i)"
    if q: "q \<in> procs ?g" and i: "0 \<le> i" "i < LocalHeight M q" and j: "0 \<le> j" "j < LocalWidth M q" for q i j
  proof -
    have "L q (i, j) = mem q (recvOff (X q) + j * LocalHeight M q + i)"
      using i j by (simp add: L_def unpack_local_at)
    also have "\<dots> = mem q (recvOff (X q) + (j * LocalHeight M q + i))" by (simp add: add.assoc)
    also have "\<dots> = sent (src q) (sendOff (X (src q)) + (j * LocalHeight M q + i))"
    proof (unfold src_def, rule SendRecv_at [OF mem])
      show "0 \<le> j * LocalHeight M q + i" using i j by simp
      have "j * LocalHeight M q + i < (j + 1) * LocalHeight M q" using i by (simp add: algebra_simps)
      also have "\<dots> \<le> LocalWidth M q * LocalHeight M q"
        using i j by (intro mult_right_mono) auto
      also have "\<dots> = sendCount (X (src q))"
        using lw [OF q] lwA [OF q] by (simp add: X_def trans_STAR_MC_xfer_def Let_def)
      finally show "j * LocalHeight M q + i < sendCount (X (comm_member ?g MCComm q (recvFrom (X q))))"
        by (simp add: src_def)
    qed
    finally show ?thesis by (simp add: X_def trans_STAR_MC_xfer_def Let_def)
  qed
  show ?thesis
  proof (intro exI conjI)
    show "MC_MR_TransposeFrom_STAR_MC conjugate cj M0 A = Inr (M1\<lparr>auxMem := mem, locals := L\<rparr>)" by (rule res)
    show "same_layout (M1\<lparr>auxMem := mem, locals := L\<rparr>) M" by (rule lay)
    show "\<forall>q\<in>procs ?g. \<forall>i j. 0 \<le> i \<longrightarrow> i < LocalHeight M q \<longrightarrow> 0 \<le> j \<longrightarrow> j < LocalWidth M q \<longrightarrow>
         locals (M1\<lparr>auxMem := mem, locals := L\<rparr>) q (i, j) = pack_trans_STAR_MC (LocalWidth M (src q)) (LocalWidth A (src q))
           (RowShift M (src q)) (RowStride M) ?f (locals A (src q)) (auxMem M0 (src q)) (j * LocalHeight M q + i)"
      using val by (simp add: sent_def M1_def M_def)
  qed
qed

section \<open>Correctness\<close>

text \<open>C7. When the destination can take the source's row alignment as its column
  alignment (it is not constrained or a view, or already has it), \<open>TransposeFrom\<close> a
  \<open>[*,MC]\<close> matrix is a local copy and the destination holds the (conjugate)
  transpose of the source's global matrix.\<close>

theorem MC_MR_TransposeFrom_STAR_MC_local:
  assumes M0: "is_MC_MR M0" and A: "is_STAR_MC A" and g: "dgrid A = dgrid M0"
    and wf0: "dm_wf M0" and wfA: "dm_wf A" and hA: "holds A G"
    and al: "colAlign M0 = rowAlign A \<or> (\<not> viewing M0 \<and> \<not> colConstrained M0)"
  shows "\<exists>M'. MC_MR_TransposeFrom_STAR_MC conjugate cj M0 A = Inr M'
           \<and> holds M' (\<lambda>(i, j). conj_if conjugate cj (G (j, i))) \<and> is_MC_MR M'
           \<and> dgrid M' = dgrid A \<and> mheight M' = mwidth A \<and> mwidth M' = mheight A"
proof -
  define M where "M = AlignColsAndResize (rowAlign A) (mwidth A) (mheight A) M0"
  let ?g = "dgrid M" let ?r = "gheight ?g" let ?c = "gwidth ?g"
  let ?f = "conj_if conjugate cj"
  have Mf: "is_MC_MR M" "dgrid M = dgrid A" "mheight M = mwidth A" "mwidth M = mheight A"
    using M0 g by (simp_all add: M_def is_MC_MR_def)
  have ca: "colAlign M = rowAlign A" using al by (simp add: M_def AlignColsAndResize_keep)
  define L where "L = (\<lambda>q. trans_STAR_MC_local (LocalHeight M q) (LocalWidth M q) (RowShift M q)
                                (RowStride M) ?f (locals A q) (locals M q))"
  have res: "MC_MR_TransposeFrom_STAR_MC conjugate cj M0 A = Inr (M\<lparr>locals := L\<rparr>)"
    unfolding MC_MR_TransposeFrom_STAR_MC_def Let_def M_def [symmetric] L_def [symmetric]
    by (rule if_P [OF ca])
  have ok: "grid_ok ?g" using wf0 by (simp add: M_def dm_wf_def)
  have wfM: "0 \<le> rowAlign M" "rowAlign M < ?c" "0 \<le> mwidth A" "0 \<le> mheight A"
    using wf0 wfA M0 by (simp_all add: M_def dm_wf_def)
  have aA: "0 \<le> rowAlign A" "rowAlign A < ?r"
    using wfA A Mf(2) by (simp_all add: dm_wf_def is_STAR_MC_def RowStride_def)
  have "holds (M\<lparr>locals := L\<rparr>) (\<lambda>(i, j). ?f (G (j, i)))"
  proof (rule holds_locals_intro)
    fix q i j assume q: "q \<in> procs ?g" and i: "0 \<le> i" "i < LocalHeight M q"
      and j: "0 \<le> j" "j < LocalWidth M q"
    have qA: "q \<in> procs (dgrid A)" using q Mf by simp
    have rs: "0 \<le> RowShift M q" using Mf wfM gcol_range [OF ok q] by (simp add: MC_MR_shifts Shift_range)
    have jA: "RowShift M q + j * ?c < mheight A"
      using j Mf ok by (simp add: MC_MR_shifts Length_iff grid_ok_def)
    have iA: "i < LocalWidth A q"
      using i Mf ca A wfA by (simp add: MC_MR_shifts)
    have "L q (i, j) = ?f (locals A q (RowShift M q + j * ?c, i))"
      using i j Mf by (simp add: L_def trans_STAR_MC_local_at)
    also have "\<dots> = ?f (G (RowShift M q + j * ?c, RowShift A q + i * ?r))"
      using hA qA A wfA Mf rs jA iA i j ok
      by (auto simp: holds_def grid_ok_def)
    finally show "L q (i, j) = (\<lambda>(i, j). ?f (G (j, i))) (ColShift M q + i * ColStride M, RowShift M q + j * RowStride M)"
      using Mf ca A wfA by (simp add: MC_MR_shifts)
  qed
  then show ?thesis using res Mf by (auto simp: is_MC_MR_def)
qed

text \<open>C8. When every process holds a square share of the same size (the grid's height
  divides the source's width, its width divides the source's height, with equal
  quotients), \<open>TransposeFrom\<close> a \<open>[*,MC]\<close> matrix delivers the (conjugate) transpose
  whatever the destination's alignment, through the point-to-point path when it is
  constrained to another one. The hypothesis makes the pack stride \<open>localWidth\<close>
  equal to the block height \<open>localWidthA\<close> the receiver unpacks with.\<close>

theorem MC_MR_TransposeFrom_STAR_MC_uniform:
  assumes M0: "is_MC_MR M0" and A: "is_STAR_MC A" and g: "dgrid A = dgrid M0"
    and wf0: "dm_wf M0" and wfA: "dm_wf A" and hA: "holds A G"
    and dr: "gheight (dgrid A) dvd mwidth A" and dc: "gwidth (dgrid A) dvd mheight A"
    and sq: "mwidth A div gheight (dgrid A) = mheight A div gwidth (dgrid A)"
  shows "\<exists>M'. MC_MR_TransposeFrom_STAR_MC conjugate cj M0 A = Inr M'
           \<and> holds M' (\<lambda>(i, j). conj_if conjugate cj (G (j, i))) \<and> is_MC_MR M'
           \<and> dgrid M' = dgrid A \<and> mheight M' = mwidth A \<and> mwidth M' = mheight A"
proof (cases "colAlign (AlignColsAndResize (rowAlign A) (mwidth A) (mheight A) M0) = rowAlign A")
  case True
  then have "colAlign M0 = rowAlign A \<or> (\<not> viewing M0 \<and> \<not> colConstrained M0)"
    by (auto simp: AlignColsAndResize_def Resize_def split: if_splits)
  then show ?thesis by (rule MC_MR_TransposeFrom_STAR_MC_local [OF M0 A g wf0 wfA hA])
next
  case False
  define M where "M = AlignColsAndResize (rowAlign A) (mwidth A) (mheight A) M0"
  define src where "src = (\<lambda>q. comm_member (dgrid M) MCComm q (recvFrom (trans_STAR_MC_xfer M A q)))"
  let ?g = "dgrid M" let ?r = "gheight ?g" let ?c = "gwidth ?g"
  let ?f = "conj_if conjugate cj"
  let ?k = "mwidth A div ?r"
  have Mf: "is_MC_MR M" "dgrid A = dgrid M" "mheight M = mwidth A" "mwidth M = mheight A"
    using M0 g by (simp_all add: M_def is_MC_MR_def)
  have ok: "grid_ok ?g" using wf0 by (simp add: M_def dm_wf_def)
  then have rc: "0 < ?r" "0 < ?c" by (simp_all add: grid_ok_def)
  have wfM: "dm_wf M"
  proof -
    have "colAlign M \<in> {rowAlign A, colAlign M0}" unfolding M_def by (rule AlignColsAndResize_align)
    moreover have "0 \<le> rowAlign A" "rowAlign A < gheight (dgrid A)"
      using wfA A by (simp_all add: dm_wf_def is_STAR_MC_def RowStride_def)
    ultimately show ?thesis
      using wf0 wfA M0 g by (auto simp: dm_wf_def M_def ColStride_def RowStride_def is_MC_MR_def)
  qed
  have nn: "0 \<le> mwidth A" "0 \<le> mheight A" using wfA by (simp_all add: dm_wf_def)
  have sh: "0 \<le> ColShift M q" "ColShift M q < ?r" "0 \<le> RowShift M q" "RowShift M q < ?c"
    if "q \<in> procs ?g" for q
    using Mf wfM ok grow_range [OF ok, of q] gcol_range [OF ok that]
    by (simp_all add: MC_MR_shifts Shift_range dm_wf_def)
  have LH: "LocalHeight M q = ?k" if "q \<in> procs ?g" for q
    using Mf sh [OF that] rc dr nn by (simp add: MC_MR_shifts Length_dvd)
  have LW: "LocalWidth M q = ?k" if "q \<in> procs ?g" for q
    using Mf sh [OF that] rc dc nn sq by (simp add: MC_MR_shifts Length_dvd)
  note P = trans_STAR_MC_partner [OF Mf(1) A Mf(2) wfM wfA]
  obtain M' where res: "MC_MR_TransposeFrom_STAR_MC conjugate cj M0 A = Inr M'" and lay: "same_layout M' M"
    and val: "\<And>q i j. q \<in> procs ?g \<Longrightarrow> 0 \<le> i \<Longrightarrow> i < LocalHeight M q \<Longrightarrow> 0 \<le> j \<Longrightarrow> j < LocalWidth M q \<Longrightarrow>
         locals M' q (i, j) = pack_trans_STAR_MC (LocalWidth M (src q)) (LocalWidth A (src q))
           (RowShift M (src q)) (RowStride M) ?f (locals A (src q)) (auxMem M0 (src q)) (j * LocalHeight M q + i)"
    using trans_STAR_MC_unaligned_at [OF M0 A g wf0 wfA False, of conjugate cj]
    unfolding M_def [symmetric] src_def by blast
  have "holds (M'\<lparr>locals := locals M'\<rparr>) (\<lambda>(i, j). ?f (G (j, i)))"
    unfolding holds_locals_update [OF lay]
  proof (rule holds_locals_intro)
    fix q i j assume q: "q \<in> procs ?g" and i: "0 \<le> i" "i < LocalHeight M q"
      and j: "0 \<le> j" "j < LocalWidth M q"
    have s: "src q \<in> procs ?g" "gcol ?g (src q) = gcol ?g q" "RowShift A (src q) = ColShift M q"
      using P(7-9) [OF q] by (simp_all add: src_def)
    have lwA: "LocalWidth A (src q) = ?k"
      using s(3) Mf A wfA LH [OF q] by (simp add: MC_MR_shifts)
    have rs: "RowShift M (src q) = RowShift M q" using s(2) Mf by (simp add: MC_MR_shifts)
    have jA: "RowShift M q + j * ?c < mheight A"
      using j Mf sh [OF q] rc by (simp add: MC_MR_shifts Length_iff)
    have "locals M' q (i, j) = ?f (locals A (src q) (RowShift M q + j * ?c, i))"
      using val [OF q i j] i j LH [OF q] LW [OF q] LW [OF s(1)] lwA rs Mf
      by (simp add: pack_trans_STAR_MC_at)
    also have "\<dots> = ?f (G (RowShift M q + j * ?c, ColShift M q + i * ?r))"
      using hA s A wfA Mf i jA sh [OF q] lwA LH [OF q] j
      by (auto simp: holds_def)
    finally show "locals M' q (i, j) = (\<lambda>(i, j). ?f (G (j, i))) (ColShift M q + i * ColStride M, RowShift M q + j * RowStride M)"
      using Mf by simp
  qed
  then show ?thesis using res lay Mf by (auto simp: same_layout_def is_MC_MR_def)
qed

end
