(* ===== verification/MR_STAR.thy ===== *)
theory MR_STAR
  imports MC_MR_Align
begin

text \<open>
  The \<open>[MR,*]\<close> matrix type (\<open>src/src/core/dist_matrix/mr_star.cpp\<close>): rows dealt
  over the grid's columns (\<open>ColStride = c\<close>, \<open>ColComm = MRComm\<close>), columns replicated
  (lines 630--646). This theory holds its assignment from another \<open>[MR,*]\<close> matrix
  (local copy, or point-to-point realignment within the grid row), its alignment
  resolution, and the correctness of both.
\<close>

section \<open>\<open>[MR,*] = [MR,*]\<close>\<close>

text \<open>Partners and sizes of the realignment (lines 283--297): the process of grid column
  \<open>rank\<close> sends its whole local matrix to column \<open>(rank + c + colAlign - colAlignOfA) % c\<close>
  of its grid row and receives from \<open>(rank + c + colAlignOfA - colAlign) % c\<close>.\<close>

definition MR_STAR_exch_xfer :: "'a DistMatrix \<Rightarrow> 'a DistMatrix \<Rightarrow> int \<Rightarrow> xfer" where
  "MR_STAR_exch_xfer M A q =
     (let rank = gcol (dgrid M) q; c = gwidth (dgrid M);
          thisColAlign = colAlign M; colAlignOfA = colAlign A;
          sendRank = (rank + c + thisColAlign - colAlignOfA) smod c;
          recvRank = (rank + c + colAlignOfA - thisColAlign) smod c;
          width = mwidth M;
          sendSize = LocalHeight A q * width;
          recvSize = LocalHeight M q * width
      in \<lparr>sendOff = 0, sendCount = sendSize, sendTo = sendRank,
          recvOff = sendSize, recvCount = recvSize, recvFrom = recvRank\<rparr>)"

text \<open>\<open>operator=( const DM<T>& A )\<close> (lines 260--334): adopt \<open>A\<close>'s column alignment
  and size unless constrained; with equal alignments take \<open>A\<close>'s local matrix; otherwise
  pack its columns (one \<open>MemCopy\<close> of \<open>localHeightOfA\<close> entries each), exchange over the
  grid row (\<open>RowComm\<close>, which is \<open>MRComm\<close>) and unpack column by column. Every process
  takes part in an \<open>[MR,*]\<close> matrix.\<close>

definition MR_STAR_same :: "'a DistMatrix \<Rightarrow> 'a DistMatrix \<Rightarrow> 'a DistMatrix exn" where
  "MR_STAR_same M0 A =
     (let M = AlignColsAndResize (colAlign A) (mheight A) (mwidth A) M0 in
      if colAlign M = colAlign A then Inr (M\<lparr>locals := locals A\<rparr>)
      else
        (let X = MR_STAR_exch_xfer M A;
             M1 = M\<lparr>auxSize := \<lambda>q. max (auxSize M q) (sendCount (X q) + recvCount (X q))\<rparr>;
             sent = (\<lambda>q. pack_local (LocalHeight A q) (mwidth M) (locals A q) 0 (auxMem M1 q))
         in case SendRecv (dgrid M) MRComm X sent of
              None \<Rightarrow> Inl (CommError, M1\<lparr>auxMem := sent\<rparr>)
            | Some mem \<Rightarrow> Inr (M1\<lparr>auxMem := mem,
                 locals := \<lambda>q. unpack_local (LocalHeight M q) (mwidth M) (mem q)
                                 (recvOff (X q)) (locals M q)\<rparr>)))"

section \<open>Alignment\<close>

text \<open>\<open>AlignWith\<close> (lines 427--443): the column axis (\<open>MR\<close>) follows the descriptor's
  \<open>MR\<close> or \<open>VR\<close> axis; \<open>ColStride()\<close> is the grid's width (line 644).
  \<open>AlignColsWith\<close> is the same call (lines 445--449).\<close>

definition MR_STAR_AlignWith :: "build \<Rightarrow> DistData \<Rightarrow> 'a DistMatrix \<Rightarrow> 'a DistMatrix exn" where
  "MR_STAR_AlignWith b data M0 =
     (let M = SetGrid (ddGrid data) M0 in
      if ddColDist data = MR then Inr (AlignCols (ddColAlign data) M)
      else if ddRowDist data = MR then Inr (AlignCols (ddRowAlign data) M)
      else if ddColDist data = VR then Inr (AlignCols (ddColAlign data smod gwidth (dgrid M)) M)
      else if ddRowDist data = VR then Inr (AlignCols (ddRowAlign data smod gwidth (dgrid M)) M)
      else if b = Debug then Inl (LogicError ''Nonsensical alignment'', M)
      else Inr M)"

definition MR_STAR_AlignColsWith :: "build \<Rightarrow> DistData \<Rightarrow> 'a DistMatrix \<Rightarrow> 'a DistMatrix exn" where
  "MR_STAR_AlignColsWith b data M = MR_STAR_AlignWith b data M"

section \<open>Correctness\<close>

text \<open>The partner of the realignment holds the shift the receiver needs, and the
  partners match.\<close>

lemma MR_STAR_exch_partner:
  assumes M: "is_MR_STAR M" and A: "is_MR_STAR A" and g: "dgrid A = dgrid M"
    and wfM: "dm_wf M" and wfA: "dm_wf A" and q: "q \<in> procs (dgrid M)"
  defines "X \<equiv> MR_STAR_exch_xfer M A"
  defines "src \<equiv> comm_member (dgrid M) MRComm q (recvFrom (X q))"
  shows "0 \<le> recvFrom (X q)" "recvFrom (X q) < gwidth (dgrid M)"
    "0 \<le> sendTo (X q)" "sendTo (X q) < gwidth (dgrid M)"
    "recvFrom (X (comm_member (dgrid M) MRComm q (sendTo (X q)))) = gcol (dgrid M) q"
    "sendTo (X src) = gcol (dgrid M) q"
    "src \<in> procs (dgrid M)" "ColShift A src = ColShift M q"
proof -
  let ?g = "dgrid M" let ?r = "gheight ?g" let ?c = "gwidth ?g"
  let ?d = "colAlign M - colAlign A"
  have ok: "grid_ok ?g" using wfM by (simp add: dm_wf_def)
  have al: "0 \<le> colAlign M" "colAlign M < ?c" "0 \<le> colAlign A" "colAlign A < ?c"
    using wfM wfA M A g by (auto simp: dm_wf_def is_MR_STAR_def ColStride_def)
  have row: "0 \<le> grow ?g q" "grow ?g q < ?r" using grow_range [OF ok] by auto
  have col: "0 \<le> gcol ?g q" "gcol ?g q < ?c" using gcol_range [OF ok q] by auto
  define sr where "sr p = (gcol ?g p + ?c + ?d) smod ?c" for p
  define rr where "rr p = (gcol ?g p + ?c - ?d) smod ?c" for p
  have Xp: "sendTo (X p) = sr p" "recvFrom (X p) = rr p" for p
    by (simp_all add: X_def MR_STAR_exch_xfer_def Let_def sr_def rr_def algebra_simps)
  have srr: "0 \<le> sr q" "sr q < ?c" "0 \<le> rr q" "rr q < ?c"
    unfolding sr_def rr_def using col al by (simp_all add: partner_range)
  then show "0 \<le> recvFrom (X q)" "recvFrom (X q) < ?c" "0 \<le> sendTo (X q)" "sendTo (X q) < ?c"
    by (simp_all add: Xp)
  have gc: "gcol ?g (grow ?g q + sr q * ?r) = sr q" "gcol ?g (grow ?g q + rr q * ?r) = rr q"
    "grow ?g (grow ?g q + rr q * ?r) = grow ?g q"
    using ok row by (simp_all add: rowcol_vc)
  have pi: "((gcol ?g q + ?c + ?d) smod ?c + ?c - ?d) smod ?c = gcol ?g q"
    "((gcol ?g q + ?c - ?d) smod ?c + ?c + ?d) smod ?c = gcol ?g q"
    using partner_inverse [OF col al] by simp_all
  have "rr (grow ?g q + sr q * ?r) = (gcol ?g (grow ?g q + sr q * ?r) + ?c - ?d) smod ?c"
    by (simp only: rr_def)
  also have "\<dots> = gcol ?g q" by (simp only: gc) (simp only: sr_def pi)
  finally show "recvFrom (X (comm_member ?g MRComm q (sendTo (X q)))) = gcol ?g q"
    by (simp add: Xp)
  have srcd: "src = grow ?g q + rr q * ?r" by (simp add: src_def Xp)
  have "sr (grow ?g q + rr q * ?r) = (gcol ?g (grow ?g q + rr q * ?r) + ?c + ?d) smod ?c"
    by (simp only: sr_def)
  also have "\<dots> = gcol ?g q" by (simp only: gc) (simp only: rr_def pi)
  finally show "sendTo (X src) = gcol ?g q" by (simp add: Xp srcd)
  show "src \<in> procs ?g" using srcd srr row ok by (simp add: rowcol_in_procs)
  have "ColShift A src = Shift (rr q) (colAlign A) ?c"
    using A wfA g srcd gc by simp
  also have "\<dots> = Shift (gcol ?g q) (colAlign M) ?c"
    unfolding rr_def using partner_Shift [OF col al] by simp
  also have "\<dots> = ColShift M q" using M wfM by simp
  finally show "ColShift A src = ColShift M q" .
qed


lemma MR_STAR_same_correct:
  assumes M0: "is_MR_STAR M0" and A: "is_MR_STAR A" and g: "dgrid A = dgrid M0"
    and wf0: "dm_wf M0" and wfA: "dm_wf A" and hA: "holds A G"
  shows "\<exists>M'. MR_STAR_same M0 A = Inr M' \<and> holds M' G \<and> is_MR_STAR M'
           \<and> dgrid M' = dgrid A \<and> mheight M' = mheight A \<and> mwidth M' = mwidth A"
proof -
  define M where "M = AlignColsAndResize (colAlign A) (mheight A) (mwidth A) M0"
  let ?g = "dgrid M"
  have Mf: "is_MR_STAR M" "dgrid A = dgrid M" "mheight M = mheight A" "mwidth M = mwidth A"
    using M0 g by (simp_all add: M_def is_MR_STAR_def)
  have wfM: "dm_wf M"
  proof -
    have "colAlign M \<in> {colAlign A, colAlign M0}" unfolding M_def by (rule AlignColsAndResize_align)
    then show ?thesis
      using wf0 wfA M0 A g by (auto simp: dm_wf_def M_def ColStride_def RowStride_def is_MR_STAR_def)
  qed
  have lay0: "same_layout (M\<lparr>locals := L\<rparr>) M" for L :: "int \<Rightarrow> 'a lmat"
    by (simp add: same_layout_def)
  have sh: "ColShift M q = ColShift A q" "LocalHeight M q = LocalHeight A q" if "colAlign M = colAlign A" for q
    using that Mf A wfM wfA by simp_all
  show ?thesis
  proof (cases "colAlign M = colAlign A")
    case True
    have "holds (M\<lparr>locals := locals A\<rparr>) G"
    proof (rule holds_locals_intro)
      fix q i j assume "q \<in> procs ?g" "Participating M q" "0 \<le> i" "i < LocalHeight M q" "0 \<le> j" "j < LocalWidth M q"
      then show "locals A q (i, j) = G (ColShift M q + i * ColStride M, RowShift M q + j * RowStride M)"
        using hA sh [OF True] Mf A wfM wfA by (auto simp: holds_def)
    qed
    then show ?thesis
      using True Mf by (simp add: MR_STAR_same_def M_def [symmetric] Let_def is_MR_STAR_def)
  next
    case False
    define X where "X = MR_STAR_exch_xfer M A"
    define M1 where "M1 = M\<lparr>auxSize := \<lambda>q. max (auxSize M q) (sendCount (X q) + recvCount (X q))\<rparr>"
    let ?src = "\<lambda>q. comm_member ?g MRComm q (recvFrom (X q))"
    note P = MR_STAR_exch_partner [OF Mf(1) A Mf(2) wfM wfA, folded X_def]
    have lh: "LocalHeight A (?src q) = LocalHeight M q" if "q \<in> procs ?g" for q
      using P(8) [OF that] Mf A wfM wfA by simp
    have ok: "SendRecv_ok ?g MRComm X"
      unfolding SendRecv_ok_def
    proof
      fix q assume q: "q \<in> procs ?g"
      have "sendCount (X (?src q)) = recvCount (X q)"
        using lh [OF q] by (simp add: X_def MR_STAR_exch_xfer_def Let_def)
      then show "0 \<le> sendTo (X q) \<and> sendTo (X q) < comm_size ?g MRComm
        \<and> 0 \<le> recvFrom (X q) \<and> recvFrom (X q) < comm_size ?g MRComm
        \<and> recvFrom (X (comm_member ?g MRComm q (sendTo (X q)))) = comm_rank ?g MRComm q
        \<and> sendTo (X (comm_member ?g MRComm q (recvFrom (X q)))) = comm_rank ?g MRComm q
        \<and> sendCount (X (comm_member ?g MRComm q (recvFrom (X q)))) \<le> recvCount (X q)"
        using P(1-6) [OF q] by simp
    qed
    obtain mem where mem: "SendRecv ?g MRComm X
          (\<lambda>q. pack_local (LocalHeight A q) (mwidth M) (locals A q) 0 (auxMem M1 q)) = Some mem"
      and val: "\<And>q i j. q \<in> procs ?g \<Longrightarrow> 0 \<le> i \<Longrightarrow> i < LocalHeight M q \<Longrightarrow> 0 \<le> j \<Longrightarrow> j < mwidth M \<Longrightarrow>
           unpack_local (LocalHeight M q) (mwidth M) (mem q) (recvOff (X q)) (locals M q) (i, j)
           = locals A (?src q) (i, j)"
    proof (rule realign_exchange [OF ok, where lhA = "LocalHeight A" and lwA = "\<lambda>_. mwidth M"
          and lh = "LocalHeight M" and lw = "\<lambda>_. mwidth M" and LA = "locals A" and B = "auxMem M1"
          and L = "locals M"])
      show "sendOff (X q) = 0" "sendCount (X q) = LocalHeight A q * mwidth M" for q
        by (simp_all add: X_def MR_STAR_exch_xfer_def Let_def)
      show "LocalHeight A (?src q) = LocalHeight M q \<and> mwidth M = mwidth M" if "q \<in> procs ?g" for q
        using lh [OF that] by simp
    qed blast
    define L where "L = (\<lambda>q. unpack_local (LocalHeight M q) (mwidth M) (mem q) (recvOff (X q)) (locals M q))"
    have res: "MR_STAR_same M0 A = Inr (M1\<lparr>auxMem := mem, locals := L\<rparr>)"
      using False mem unfolding MR_STAR_same_def Let_def M_def [symmetric] X_def [symmetric]
        M1_def [symmetric] by (simp add: L_def)
    have lay: "same_layout (M1\<lparr>auxMem := mem\<rparr>) M" by (simp add: same_layout_def M1_def)
    have "holds (M1\<lparr>auxMem := mem, locals := L\<rparr>) G"
      unfolding holds_locals_update [OF lay]
    proof (rule holds_locals_intro)
      fix q i j assume q: "q \<in> procs ?g" and "Participating M q" and i: "0 \<le> i" "i < LocalHeight M q"
        and j: "0 \<le> j" "j < LocalWidth M q"
      have jw: "j < mwidth M" using j Mf wfM by simp
      have "L q (i, j) = locals A (?src q) (i, j)" using val [OF q i j(1) jw] by (simp add: L_def)
      also have "\<dots> = G (ColShift A (?src q) + i * ColStride A, RowShift A (?src q) + j * RowStride A)"
        using hA P(7) [OF q] i lh [OF q] jw Mf A wfA j by (auto simp: holds_def)
      also have "\<dots> = G (ColShift M q + i * ColStride M, RowShift M q + j * RowStride M)"
        using P(8) [OF q] Mf A wfM wfA by simp
      finally show "L q (i, j) = G (ColShift M q + i * ColStride M, RowShift M q + j * RowStride M)" .
    qed
    moreover have "same_layout (M1\<lparr>auxMem := mem, locals := L\<rparr>) M"
      using lay by (simp only: same_layout_locals)
    ultimately show ?thesis using res Mf by (auto simp: same_layout_def is_MR_STAR_def)
  qed
qed

text \<open>C10. Assigning an \<open>[MR,*]\<close> matrix to an \<open>[MR,*]\<close> matrix on the same grid
  returns normally and the destination holds the source's global matrix, by a local copy
  when the alignments agree and by the point-to-point exchange within the grid row when
  the destination keeps another alignment.\<close>

theorem MR_STAR_same_holds:
  assumes M0: "is_MR_STAR M0" and A: "is_MR_STAR A" and g: "dgrid A = dgrid M0"
    and wf0: "dm_wf M0" and wfA: "dm_wf A" and hA: "holds A G"
  shows "\<exists>M'. MR_STAR_same M0 A = Inr M' \<and> holds M' G \<and> is_MR_STAR M'
           \<and> dgrid M' = dgrid A \<and> mheight M' = mheight A \<and> mwidth M' = mwidth A"
  using assms by (rule MR_STAR_same_correct)


text \<open>C11. For every distribution pair of the library whose descriptor has an axis owned
  along grid columns (an \<open>MR\<close> or \<open>VR\<close> axis), \<open>[MR,*]::AlignWith\<close> returns
  normally, moves the matrix to the descriptor's grid and aligns its column axis with that
  axis index by index, constraining it.\<close>

theorem MR_STAR_AlignWith_aligns:
  assumes v: "dist_pair (ddColDist data) (ddRowDist data)"
    and g: "grid_ok (ddGrid data)" and a: "0 \<le> ddColAlign data" "0 \<le> ddRowAlign data"
    and ax: "(d, al) \<in> dd_axes data" and own: "owner_coord (ddGrid data) d al i = Some (GCol, y)"
  shows "\<exists>M'. MR_STAR_AlignWith b data M = Inr M'
           \<and> owner_coord (dgrid M') MR (colAlign M') i = Some (GCol, y) \<and> colConstrained M'
           \<and> dgrid M' = ddGrid data"
proof -
  have c: "0 < gwidth (ddGrid data)" using g by (simp add: grid_ok_def)
  show ?thesis
    using v ax own a c
    by (cases "ddColDist data"; cases "ddRowDist data")
       (auto simp: MR_STAR_AlignWith_def dist_pair_def dd_axes_def base_defs gsize_mod_mod Let_def)
qed

text \<open>C12. A descriptor with no \<open>MR\<close> or \<open>VR\<close> axis makes \<open>[MR,*]::AlignWith\<close>
  raise the nonsensical-alignment error in a debug build, after \<open>SetGrid\<close>, and return
  with only \<open>SetGrid\<close> done in a release build.\<close>

theorem MR_STAR_AlignWith_unhandled:
  assumes "ddColDist data \<notin> {MR, VR}" "ddRowDist data \<notin> {MR, VR}"
  shows "MR_STAR_AlignWith Debug data M = Inl (LogicError ''Nonsensical alignment'', SetGrid (ddGrid data) M)
       \<and> MR_STAR_AlignWith Release data M = Inr (SetGrid (ddGrid data) M)"
  using assms by (simp add: MR_STAR_AlignWith_def Let_def)

end
