(* ===== verification/Queries.thy ===== *)
theory Queries
  imports Dist
begin

text \<open>
  The basic queries every distribution reports: its distributing, cross, redundant,
  column and row communicators and its two strides (\<open>DistComm\<close> \<dots> \<open>RowStride\<close>
  at the end of each of \<open>src/src/core/dist_matrix/mc_mr.cpp\<close>, \<open>mr_star.cpp\<close> and
  \<open>star_md.cpp\<close>). The redistribution protocols read the communicators and the
  strides from these queries, and the shifts from the strides, so the two must agree:
  \<open>comms_consistent\<close> states that agreement for a distribution pair.
\<close>

record dist_comms =
  qDistComm :: comm
  qCrossComm :: comm
  qRedundantComm :: comm
  qColComm :: comm
  qRowComm :: comm
  qColStride :: int
  qRowStride :: int

text \<open>\<open>[MC,MR]\<close> (\<open>mc_mr.cpp\<close>, lines 1189--1203).\<close>

definition MC_MR_queries :: "grid \<Rightarrow> dist_comms" where
  "MC_MR_queries g =
     \<lparr>qDistComm = VCComm, qCrossComm = SelfComm, qRedundantComm = SelfComm,
      qColComm = MCComm, qRowComm = MRComm, qColStride = gheight g, qRowStride = gwidth g\<rparr>"

text \<open>\<open>[MR,*]\<close> (\<open>mr_star.cpp\<close>, lines 632--646).\<close>

definition MR_STAR_queries :: "grid \<Rightarrow> dist_comms" where
  "MR_STAR_queries g =
     \<lparr>qDistComm = MRComm, qCrossComm = SelfComm, qRedundantComm = MCComm,
      qColComm = MRComm, qRowComm = SelfComm, qColStride = gwidth g, qRowStride = 1\<rparr>"

text \<open>\<open>[*,MD]\<close> (\<open>star_md.cpp\<close>, lines 319--333): the row stride is \<open>Grid::LCM()\<close>.\<close>

definition STAR_MD_queries :: "grid \<Rightarrow> dist_comms" where
  "STAR_MD_queries g =
     \<lparr>qDistComm = MDComm, qCrossComm = MDPerpComm, qRedundantComm = SelfComm,
      qColComm = SelfComm, qRowComm = MDComm, qColStride = 1,
      qRowStride = lcm (gheight g) (gwidth g)\<rparr>"

text \<open>Each stride is the size of the communicator of its axis and the stride of the
  axis's tag; a process's rank in the column and row communicators is its rank along
  the tags; and the distributing, cross and redundant communicators split the grid:
  the product of their sizes is the number of processes.\<close>

definition comms_consistent :: "grid \<Rightarrow> Dist \<Rightarrow> Dist \<Rightarrow> 'q dist_comms_scheme \<Rightarrow> bool" where
  "comms_consistent g cd rd Q \<longleftrightarrow>
     qColStride Q = comm_size g (qColComm Q) \<and> qRowStride Q = comm_size g (qRowComm Q)
   \<and> qColStride Q = dist_stride g cd \<and> qRowStride Q = dist_stride g rd
   \<and> comm_size g (qDistComm Q) * comm_size g (qCrossComm Q) * comm_size g (qRedundantComm Q) = gsize g
   \<and> (\<forall>q \<in> procs g. comm_rank g (qColComm Q) q = dist_rank g cd q
                     \<and> comm_rank g (qRowComm Q) q = dist_rank g rd q)"

lemma gcd_lcm_grid:
  "grid_ok g \<Longrightarrow> lcm (gheight g) (gwidth g) * gcd (gheight g) (gwidth g) = gsize g"
  unfolding grid_ok_def gsize_def
  by (metis abs_of_pos mult.commute prod_gcd_lcm_int zero_less_mult_iff)

text \<open>C19. The basic queries of \<open>[MC,MR]\<close>, \<open>[MR,*]\<close> and \<open>[*,MD]\<close> are
  consistent with their distributions on every grid (for \<open>[*,MD]\<close>: the diagonal
  communicator has \<open>lcm(r, c)\<close> members and there are \<open>gcd(r, c)\<close> diagonals).\<close>

theorem basic_queries_consistent:
  assumes g: "grid_ok g"
  shows "comms_consistent g MC MR (MC_MR_queries g) \<and> comms_consistent g MR STAR (MR_STAR_queries g)
       \<and> comms_consistent g STAR MD (STAR_MD_queries g)"
  using gcd_lcm_grid [OF g]
  by (simp add: comms_consistent_def MC_MR_queries_def MR_STAR_queries_def STAR_MD_queries_def
      gsize_def mult.commute)

end
