(* ===== verification/BC_VC_STAR.thy ===== *)
theory BC_VC_STAR
  imports MC_MR_Align Queries
begin

text \<open>
  Assignment into a block-cyclic \<open>[VC,*]\<close> matrix
  (\<open>src/src/core/DistMatrix/BlockCyclic/VC_STAR.cpp\<close>). Each \<open>operator=\<close> overload
  either calls one of the library's copy primitives (\<open>copy::ColAllToAllDemote\<close>,
  \<open>copy::PartialColFilter\<close>, \<open>copy::Translate\<close>, \<open>copy::ColFilter\<close>), or builds
  temporaries of other distributions with their converting constructors and assigns the
  last one to \<open>*this\<close> through the overload of its static type, or raises
  \<open>This routine is not yet written\<close>. The primitives and the other distributions'
  constructors are not among the files of \<open>src/\<close>: they are the parameters of the
  model, an environment \<open>bc_env\<close> over an abstract matrix type \<open>'m\<close>. The overload is
  chosen by the static type of the source, a distribution pair; the recursion through a
  temporary always lands on an overload that does not recurse, which is the termination
  measure. The dynamic dispatch on a \<open>BlockCyclicMatrix\<close> (lines 150--162) forwards to
  the overload of the source's run-time pair.
\<close>

section \<open>The environment\<close>

datatype copy_op = ColAllToAllDemote | PartialColFilter | Translate | ColFilter

record 'm bc_env =
  bc_copy :: "copy_op \<Rightarrow> 'm \<Rightarrow> 'm \<Rightarrow> 'm exn"
  bc_make :: "Dist \<times> Dist \<Rightarrow> 'm \<Rightarrow> 'm exn"

text \<open>A temporary is built from \<open>A\<close>; if its constructor throws, the exception
  leaves \<open>*this\<close> as it was.\<close>

definition with_temp :: "'m exn \<Rightarrow> 'm \<Rightarrow> ('m \<Rightarrow> 'm exn) \<Rightarrow> 'm exn" where
  "with_temp r M k = (case r of Inl (e, _) \<Rightarrow> Inl (e, M) | Inr T \<Rightarrow> k T)"

section \<open>The overloads\<close>

text \<open>The pairs whose overload ends in \<open>This routine is not yet written\<close>, directly
  (\<open>[VR,*]\<close>, \<open>[CIRC,CIRC]\<close>) or through a \<open>[VR,*]\<close> temporary.\<close>

definition VC_STAR_unwritten :: "(Dist \<times> Dist) set" where
  "VC_STAR_unwritten = {(VR, STAR), (CIRC, CIRC), (MR, MC), (MR, STAR), (STAR, MC), (STAR, VC)}"

text \<open>How many temporaries deep an overload goes before it reaches one that does not
  recurse: the overloads the recursive ones delegate to are \<open>[MC,MR]\<close>, \<open>[*,*]\<close> and
  \<open>[VR,*]\<close>.\<close>

definition bc_depth :: "Dist \<times> Dist \<Rightarrow> nat" where
  "bc_depth s = (if s \<in> {(MC, MR), (STAR, STAR), (VR, STAR)} then 0 else 1)"

function (sequential) VC_STAR_assign :: "'m bc_env \<Rightarrow> Dist \<times> Dist \<Rightarrow> 'm \<Rightarrow> 'm \<Rightarrow> 'm exn" where
  "VC_STAR_assign env (MC, MR) M A = bc_copy env ColAllToAllDemote M A"
| "VC_STAR_assign env (MC, STAR) M A = bc_copy env PartialColFilter M A"
| "VC_STAR_assign env (STAR, MR) M A =
     with_temp (bc_make env (MC, MR) A) M (\<lambda>T. VC_STAR_assign env (MC, MR) M T)"
| "VC_STAR_assign env (MD, STAR) M A =
     with_temp (bc_make env (STAR, STAR) A) M (\<lambda>T. VC_STAR_assign env (STAR, STAR) M T)"
| "VC_STAR_assign env (STAR, MD) M A =
     with_temp (bc_make env (STAR, STAR) A) M (\<lambda>T. VC_STAR_assign env (STAR, STAR) M T)"
| "VC_STAR_assign env (MR, MC) M A =
     with_temp (bc_make env (VR, STAR) A) M (\<lambda>T. VC_STAR_assign env (VR, STAR) M T)"
| "VC_STAR_assign env (MR, STAR) M A =
     with_temp (bc_make env (VR, STAR) A) M (\<lambda>T. VC_STAR_assign env (VR, STAR) M T)"
| "VC_STAR_assign env (STAR, MC) M A =
     with_temp (bc_make env (MR, MC) A) M (\<lambda>T1.
       with_temp (bc_make env (VR, STAR) T1) M (\<lambda>T2. VC_STAR_assign env (VR, STAR) M T2))"
| "VC_STAR_assign env (VC, STAR) M A = bc_copy env Translate M A"
| "VC_STAR_assign env (STAR, VC) M A =
     with_temp (bc_make env (MR, MC) A) M (\<lambda>T1.
       with_temp (bc_make env (VR, STAR) T1) M (\<lambda>T2. VC_STAR_assign env (VR, STAR) M T2))"
| "VC_STAR_assign env (VR, STAR) M A = Inl (LogicError ''This routine is not yet written'', M)"
| "VC_STAR_assign env (STAR, VR) M A =
     with_temp (bc_make env (MC, MR) A) M (\<lambda>T. VC_STAR_assign env (MC, MR) M T)"
| "VC_STAR_assign env (STAR, STAR) M A = bc_copy env ColFilter M A"
| "VC_STAR_assign env (CIRC, CIRC) M A = Inl (LogicError ''This routine is not yet written'', M)"
| "VC_STAR_assign env s M A = Inr M"
  by pat_completeness auto

termination
proof (relation "measure (\<lambda>(env, s, M, A). bc_depth s)")
qed (auto simp: bc_depth_def)

text \<open>\<open>operator=( const BlockCyclicMatrix<T>& A )\<close>: the guard chain over the
  distribution pairs forwards to the overload of \<open>A\<close>'s run-time pair.\<close>

definition VC_STAR_assign_dyn :: "'m bc_env \<Rightarrow> ('m \<Rightarrow> Dist \<times> Dist) \<Rightarrow> 'm \<Rightarrow> 'm \<Rightarrow> 'm exn" where
  "VC_STAR_assign_dyn env tags M A = VC_STAR_assign env (tags A) M A"

section \<open>Basic queries\<close>

text \<open>The communicators and strides a distribution reports (lines 167--209 for
  \<open>[VC,*]\<close>).\<close>

record dist_queries = dist_comms +
  qPartialColComm :: comm
  qPartialUnionColComm :: comm
  qPartialColStride :: int
  qPartialUnionColStride :: int
  qDistSize :: int
  qCrossSize :: int
  qRedundantSize :: int

definition VC_STAR_queries :: "grid \<Rightarrow> dist_queries" where
  "VC_STAR_queries g =
     \<lparr>qDistComm = VCComm, qCrossComm = SelfComm, qRedundantComm = SelfComm,
      qColComm = VCComm, qRowComm = SelfComm, qColStride = gsize g, qRowStride = 1,
      qPartialColComm = MCComm, qPartialUnionColComm = MRComm, qPartialColStride = gheight g,
      qPartialUnionColStride = gwidth g, qDistSize = gsize g, qCrossSize = 1,
      qRedundantSize = 1\<rparr>"

text \<open>What the queries must agree on, beyond \<open>comms_consistent\<close>: each size and
  partial stride is the size of its communicator, and the column axis splits into the
  partial and the partial-union axes.\<close>

definition queries_consistent :: "grid \<Rightarrow> Dist \<Rightarrow> Dist \<Rightarrow> dist_queries \<Rightarrow> bool" where
  "queries_consistent g cd rd Q \<longleftrightarrow>
     comms_consistent g cd rd Q
   \<and> qPartialColStride Q = comm_size g (qPartialColComm Q)
   \<and> qPartialUnionColStride Q = comm_size g (qPartialUnionColComm Q)
   \<and> qDistSize Q = comm_size g (qDistComm Q) \<and> qCrossSize Q = comm_size g (qCrossComm Q)
   \<and> qRedundantSize Q = comm_size g (qRedundantComm Q)
   \<and> qPartialColStride Q * qPartialUnionColStride Q = qColStride Q"

text \<open>The contract of the environment: every copy primitive returns normally with the
  source's global matrix and the destination's distribution, and every converting
  constructor returns a temporary of the requested pair holding the source's global matrix.
  \<open>glob\<close> reads the global matrix a distributed one holds, \<open>tags\<close> its pair.\<close>

definition bc_env_ok :: "('m \<Rightarrow> 'g) \<Rightarrow> ('m \<Rightarrow> Dist \<times> Dist) \<Rightarrow> 'm bc_env \<Rightarrow> bool" where
  "bc_env_ok glob tags env \<longleftrightarrow>
     (\<forall>op M A. \<exists>B. bc_copy env op M A = Inr B \<and> glob B = glob A \<and> tags B = tags M)
   \<and> (\<forall>p A. \<exists>T. bc_make env p A = Inr T \<and> glob T = glob A \<and> tags T = p)"

section \<open>Lemmas\<close>

lemma with_temp_Inr [simp]: "with_temp (Inr T) M k = k T"
  by (simp add: with_temp_def)

lemma with_temp_Inl [simp]: "with_temp (Inl (e, X)) M k = Inl (e, M)"
  by (simp add: with_temp_def)

text \<open>Under the contract, the primitives and constructors are total functions of their
  arguments: choose them once, and every overload evaluates by rewriting.\<close>

lemma bc_env_okE:
  assumes "bc_env_ok glob tags env"
  obtains h f where
    "\<And>op M A. bc_copy env op M A = Inr (h op M A)" "\<And>op M A. glob (h op M A) = glob A"
    "\<And>op M A. tags (h op M A) = tags M"
    "\<And>p A. bc_make env p A = Inr (f p A)" "\<And>p A. glob (f p A) = glob A" "\<And>p A. tags (f p A) = p"
proof -
  from assms have "\<forall>op M A. \<exists>B. bc_copy env op M A = Inr B \<and> glob B = glob A \<and> tags B = tags M"
    and "\<forall>p A. \<exists>T. bc_make env p A = Inr T \<and> glob T = glob A \<and> tags T = p"
    by (simp_all add: bc_env_ok_def)
  then obtain h f where "\<forall>op M A. bc_copy env op M A = Inr (h op M A) \<and> glob (h op M A) = glob A \<and> tags (h op M A) = tags M"
    and "\<forall>p A. bc_make env p A = Inr (f p A) \<and> glob (f p A) = glob A \<and> tags (f p A) = p"
    by metis
  then show ?thesis using that by blast
qed

text \<open>C13. Under the environment's contract, assigning a matrix of any of the library's
  pairs outside \<open>VC_STAR_unwritten\<close> to a block-cyclic \<open>[VC,*]\<close> matrix returns
  normally; the result holds the source's global matrix and keeps the \<open>[VC,*]\<close> pair.\<close>

theorem VC_STAR_assign_dyn_ok:
  assumes env: "bc_env_ok glob tags env"
    and p: "dist_pair (fst (tags A)) (snd (tags A))" and w: "tags A \<notin> VC_STAR_unwritten"
  shows "\<exists>B. VC_STAR_assign_dyn env tags M A = Inr B \<and> glob B = glob A \<and> tags B = tags M"
proof -
  obtain h f where e: "\<And>op M A. bc_copy env op M A = Inr (h op M A)" "\<And>op M A. glob (h op M A) = glob A"
    "\<And>op M A. tags (h op M A) = tags M"
    "\<And>p A. bc_make env p A = Inr (f p A)" "\<And>p A. glob (f p A) = glob A" "\<And>p A. tags (f p A) = p"
    by (rule bc_env_okE [OF env]) blast
  obtain cd rd where s: "tags A = (cd, rd)" by fastforce
  show ?thesis
    using p w unfolding VC_STAR_assign_dyn_def s
    by (cases cd; cases rd) (simp_all add: dist_pair_def VC_STAR_unwritten_def e)
qed

text \<open>C14. The six pairs of \<open>VC_STAR_unwritten\<close> end in the not-yet-written error with
  \<open>*this\<close> unchanged, even when every temporary on the way is built: \<open>[VR,*]\<close> and
  \<open>[CIRC,CIRC]\<close> raise it directly, the other four reach it through their \<open>[VR,*]\<close>
  temporary.\<close>

theorem VC_STAR_assign_unwritten:
  assumes env: "bc_env_ok glob tags env" and s: "s \<in> VC_STAR_unwritten"
  shows "VC_STAR_assign env s M A = Inl (LogicError ''This routine is not yet written'', M)"
proof -
  obtain h f where e: "\<And>op M A. bc_copy env op M A = Inr (h op M A)" "\<And>op M A. glob (h op M A) = glob A"
    "\<And>op M A. tags (h op M A) = tags M"
    "\<And>p A. bc_make env p A = Inr (f p A)" "\<And>p A. glob (f p A) = glob A" "\<And>p A. tags (f p A) = p"
    by (rule bc_env_okE [OF env]) blast
  show ?thesis
    using s unfolding VC_STAR_unwritten_def by (auto simp: e)
qed

text \<open>C15. The block-cyclic \<open>[VC,*]\<close> queries are consistent with the
  \<open>[VC,*]\<close> distribution on every grid.\<close>

theorem VC_STAR_queries_consistent:
  "queries_consistent g VC STAR (VC_STAR_queries g)"
  by (simp add: queries_consistent_def comms_consistent_def VC_STAR_queries_def gsize_def)

end
