(* ===== verification/Replicated.thy ===== *)
theory Replicated
  imports Pack
begin

text \<open>
  The replicated distribution \<open>[*,*]\<close> and the two protocols that link every other
  distribution to it (spec 4.3, protocols 2 and 3). \<open>FilterFrom\<close> (the axis filter,
  called as \<open>FilterFrom\<close>, \<open>RowFilterFrom\<close> and \<open>ColFilterFrom\<close> from a \<open>[*,*]\<close>
  source) resizes the destination and lets each participating process copy, out of the
  whole matrix it already holds, the entries it owns; it needs no communication. The
  converting constructor \<open>DistMatrix<T,STAR,STAR>(A)\<close> gathers the whole matrix onto
  every process; the all-gather behind it is not among the files of \<open>src/\<close>, and the
  model takes it as a parameter \<open>gather\<close>, which must return, at every index of the
  matrix, the entry of the global matrix the source holds (\<open>gathers\<close>). The lemmas
  show that a filter from a replicated matrix holds the global matrix the source held.
\<close>

section \<open>Definitions\<close>

text \<open>A matrix built by \<open>DistMatrix(const Grid&)\<close>: empty, zero alignments and root,
  unconstrained (\<open>star_md.cpp\<close>, lines 24--27; the other types' constructors are the
  same).\<close>

definition new_dm :: "Dist \<Rightarrow> Dist \<Rightarrow> grid \<Rightarrow> 'a DistMatrix" where
  "new_dm cd rd g =
     \<lparr>colDist = cd, rowDist = rd, dgrid = g, mheight = 0, mwidth = 0, colAlign = 0,
      rowAlign = 0, root = 0, viewing = False, colConstrained = False, rowConstrained = False,
      locals = (\<lambda>_ _. undefined), auxMem = (\<lambda>_ _. undefined), auxSize = (\<lambda>_. 0)\<rparr>"

definition is_STAR_STAR :: "'a DistMatrix \<Rightarrow> bool" where
  "is_STAR_STAR M \<longleftrightarrow> colDist M = STAR \<and> rowDist M = STAR"

definition FilterFrom :: "'a DistMatrix \<Rightarrow> 'a DistMatrix \<Rightarrow> 'a DistMatrix" where
  "FilterFrom A M0 =
     (let M = Resize (mheight A) (mwidth A) M0 in
      M\<lparr>locals := \<lambda>q. if Participating M q
         then (\<lambda>(iLoc, jLoc). locals A q (ColShift M q + iLoc * ColStride M, RowShift M q + jLoc * RowStride M))
         else locals M q\<rparr>)"

text \<open>The \<open>[*,*]\<close> temporary \<open>DistMatrix<T,STAR,STAR> A_STAR_STAR( A )\<close>.\<close>

definition STAR_STAR_of :: "('a DistMatrix \<Rightarrow> 'a gmat) \<Rightarrow> 'a DistMatrix \<Rightarrow> 'a DistMatrix" where
  "STAR_STAR_of gather A =
     (Resize (mheight A) (mwidth A) (new_dm STAR STAR (dgrid A)))\<lparr>locals := \<lambda>q. gather A\<rparr>"

definition gathers :: "('a DistMatrix \<Rightarrow> 'a gmat) \<Rightarrow> 'a DistMatrix \<Rightarrow> 'a gmat \<Rightarrow> bool" where
  "gathers gather A G \<longleftrightarrow> (\<forall>i\<in>{0..<mheight A}. \<forall>j\<in>{0..<mwidth A}. gather A (i, j) = G (i, j))"

section \<open>Ranks, shifts and owned indices\<close>

lemma dist_stride_pos [idx_simps]: "grid_ok g \<Longrightarrow> 0 < dist_stride g d"
  by (cases d) (simp_all add: grid_ok_def gsize_def lcm_pos_int)

lemma dist_rank_range:
  assumes g: "grid_ok g" and q: "q \<in> procs g"
  shows "0 \<le> dist_rank g d q \<and> dist_rank g d q < dist_stride g d"
  using grow_range [OF g] gcol_range [OF g q] vr_rank_range [OF g q] md_rank_walk [OF g q] q
  by (cases d) (simp_all add: procs_def)

lemma shift_range:
  assumes wf: "dm_wf M" and q: "q \<in> procs (dgrid M)"
  shows "0 \<le> ColShift M q" "ColShift M q < ColStride M"
    and "0 \<le> RowShift M q" "RowShift M q < RowStride M"
proof -
  have g: "grid_ok (dgrid M)" using wf by (simp add: dm_wf_def)
  have a: "0 \<le> colAlign M" "colAlign M < ColStride M" "0 \<le> rowAlign M" "rowAlign M < RowStride M"
    using wf by (simp_all add: dm_wf_def)
  have r: "0 \<le> ColRank M q" "0 \<le> RowRank M q"
    using dist_rank_range [OF g q] by (simp_all add: ColRank_def RowRank_def)
  have s: "0 < ColStride M" "0 < RowStride M"
    using dist_stride_pos [OF g] by (simp_all add: ColStride_def RowStride_def)
  show "0 \<le> ColShift M q" "ColShift M q < ColStride M"
    using Shift_range [OF r(1) a(1,2)] s by (simp_all add: ColShift_def)
  show "0 \<le> RowShift M q" "RowShift M q < RowStride M"
    using Shift_range [OF r(2) a(3,4)] s by (simp_all add: RowShift_def)
qed

text \<open>A local position within the local size stands for a global index within the
  matrix.\<close>

lemma owned_in_range:
  assumes wf: "dm_wf M" and q: "q \<in> procs (dgrid M)" and p: "Participating M q"
    and i: "0 \<le> i" "i < LocalHeight M q" and j: "0 \<le> j" "j < LocalWidth M q"
  shows "0 \<le> ColShift M q + i * ColStride M" "ColShift M q + i * ColStride M < mheight M"
    and "0 \<le> RowShift M q + j * RowStride M" "RowShift M q + j * RowStride M < mwidth M"
proof -
  have g: "grid_ok (dgrid M)" using wf by (simp add: dm_wf_def)
  have s: "0 < ColStride M" "0 < RowStride M"
    using dist_stride_pos [OF g] by (simp_all add: ColStride_def RowStride_def)
  note sh = shift_range [OF wf q]
  show "0 \<le> ColShift M q + i * ColStride M" "0 \<le> RowShift M q + j * RowStride M"
    using sh s i j by simp_all
  show "ColShift M q + i * ColStride M < mheight M"
    using i p Length_iff [OF s(1) i(1)] by (simp add: LocalHeight_def)
  show "RowShift M q + j * RowStride M < mwidth M"
    using j p Length_iff [OF s(2) j(1)] by (simp add: LocalWidth_def)
qed

lemma STAR_STAR_dm [simp]:
  assumes "is_STAR_STAR T" "dm_wf T"
  shows "ColStride T = 1" "RowStride T = 1" "Participating T q" "ColShift T q = 0" "RowShift T q = 0"
    "LocalHeight T q = max 0 (mheight T)" "LocalWidth T q = max 0 (mwidth T)"
proof -
  have "colAlign T = 0" "rowAlign T = 0"
    using assms by (simp_all add: dm_wf_def is_STAR_STAR_def ColStride_def RowStride_def)
  then show "ColStride T = 1" "RowStride T = 1" "Participating T q" "ColShift T q = 0" "RowShift T q = 0"
    "LocalHeight T q = max 0 (mheight T)" "LocalWidth T q = max 0 (mwidth T)"
    using assms by (simp_all add: is_STAR_STAR_def dm_defs Shift_def Length_def)
qed

lemma dm_wf_Resize: "dm_wf M \<Longrightarrow> 0 \<le> h \<Longrightarrow> 0 \<le> w \<Longrightarrow> dm_wf (Resize h w M)"
  by (simp add: dm_wf_def Resize_def ColStride_def RowStride_def)

section \<open>The filter and the gathered temporary\<close>

lemma FilterFrom_fields [simp]:
  "colDist (FilterFrom A M) = colDist M" "rowDist (FilterFrom A M) = rowDist M"
  "dgrid (FilterFrom A M) = dgrid M" "mheight (FilterFrom A M) = mheight A"
  "mwidth (FilterFrom A M) = mwidth A" "colAlign (FilterFrom A M) = colAlign M"
  "rowAlign (FilterFrom A M) = rowAlign M" "root (FilterFrom A M) = root M"
  "viewing (FilterFrom A M) = viewing M"
  by (simp_all add: FilterFrom_def Resize_def Let_def)

lemma STAR_STAR_of_fields [simp]:
  "is_STAR_STAR (STAR_STAR_of gather A)" "dgrid (STAR_STAR_of gather A) = dgrid A"
  "mheight (STAR_STAR_of gather A) = mheight A" "mwidth (STAR_STAR_of gather A) = mwidth A"
  by (simp_all add: STAR_STAR_of_def new_dm_def Resize_def is_STAR_STAR_def)

lemma STAR_STAR_of_wf: "dm_wf A \<Longrightarrow> dm_wf (STAR_STAR_of gather A)"
  by (simp add: STAR_STAR_of_def new_dm_def Resize_def dm_wf_def ColStride_def RowStride_def)

lemma STAR_STAR_of_holds: "gathers gather A G \<Longrightarrow> dm_wf A \<Longrightarrow> holds (STAR_STAR_of gather A) G"
  using STAR_STAR_of_wf [of A gather]
  by (auto simp: holds_def gathers_def)
     (simp add: STAR_STAR_of_def)

text \<open>A replicated matrix that holds \<open>G\<close> keeps all of \<open>G\<close> on every process.\<close>

lemma holds_STAR_STAR_at:
  assumes T: "is_STAR_STAR T" "dm_wf T" "holds T G" and q: "q \<in> procs (dgrid T)"
    and x: "0 \<le> x" "x < mheight T" and y: "0 \<le> y" "y < mwidth T"
  shows "locals T q (x, y) = G (x, y)"
proof -
  have "\<forall>iLoc\<in>{0..<LocalHeight T q}. \<forall>jLoc\<in>{0..<LocalWidth T q}.
      locals T q (iLoc, jLoc) = G (ColShift T q + iLoc * ColStride T, RowShift T q + jLoc * RowStride T)"
    using T(3) q STAR_STAR_dm(3) [OF T(1,2)] unfolding holds_def by blast
  moreover have "x \<in> {0..<LocalHeight T q}" "y \<in> {0..<LocalWidth T q}"
    using x y T(1,2) by simp_all
  ultimately show ?thesis using T(1,2) by simp
qed

text \<open>Filtering from a replicated matrix that holds \<open>G\<close> yields a matrix that holds
  \<open>G\<close>, in the destination's distribution and alignment at the source's size.\<close>

lemma FilterFrom_holds:
  assumes T: "is_STAR_STAR T" "dm_wf T" "holds T G" and g: "dgrid M = dgrid T" and wf: "dm_wf M"
  shows "holds (FilterFrom T M) G"
proof -
  let ?M = "Resize (mheight T) (mwidth T) M"
  have hw: "0 \<le> mheight T" "0 \<le> mwidth T" using T(2) by (simp_all add: dm_wf_def)
  have wfM: "dm_wf ?M" using dm_wf_Resize [OF wf hw] .
  have gM: "dgrid ?M = dgrid T" using g by (simp add: Resize_def)
  have "holds (?M\<lparr>locals := \<lambda>q. if Participating ?M q
         then (\<lambda>(iLoc, jLoc). locals T q (ColShift ?M q + iLoc * ColStride ?M, RowShift ?M q + jLoc * RowStride ?M))
         else locals ?M q\<rparr>) G"
  proof (rule holds_locals_intro)
    fix q i j
    assume q: "q \<in> procs (dgrid ?M)" and p: "Participating ?M q" and i: "0 \<le> i" "i < LocalHeight ?M q"
      and j: "0 \<le> j" "j < LocalWidth ?M q"
    note o = owned_in_range [OF wfM q p i j]
    have qT: "q \<in> procs (dgrid T)" using q gM by simp
    note hT = holds_STAR_STAR_at [OF T qT]
    have "mheight ?M = mheight T" "mwidth ?M = mwidth T" by (simp_all add: Resize_def)
    then show "(if Participating ?M q
         then (\<lambda>(iLoc, jLoc). locals T q (ColShift ?M q + iLoc * ColStride ?M, RowShift ?M q + jLoc * RowStride ?M))
         else locals ?M q) (i, j) = G (ColShift ?M q + i * ColStride ?M, RowShift ?M q + j * RowStride ?M)"
      using p o hT by simp
  qed
  then show ?thesis by (simp add: FilterFrom_def Let_def)
qed

end
