(* ===== verification/STAR_MD.thy ===== *)
theory STAR_MD
  imports Replicated MC_MR_Align
begin

text \<open>
  The \<open>[*,MD]\<close> type (\<open>src/src/core/dist_matrix/star_md.cpp\<close>): columns dealt
  along one generalised diagonal of the grid (the one numbered by the matrix's root),
  rows replicated. Every conversion into it except two goes through a \<open>[*,*]\<close>
  temporary and the row filter (lines 101--254). The same-type assignment (lines
  145--177) first adopts the source's root and row alignment when it may, and copies the
  local matrix when the two then agree, falling back to the \<open>[*,*]\<close> route otherwise.
  The \<open>[CIRC,CIRC]\<close> conversion (lines 265--275) builds an \<open>[MC,MR]\<close> temporary,
  aligns it with \<open>*this\<close> through \<open>[MC,MR]::AlignWith\<close>, scatters into it (the
  scatter is \<open>[MC,MR] = [CIRC,CIRC]\<close>, \<open>mc_mr.cpp\<close> lines 831--913, a parameter
  \<open>scatter\<close> here, which theory \<open>CIRC_CIRC\<close> models), and converts the temporary. \<open>AlignWith\<close> (lines
  288--311) takes the root and the alignment of a descriptor's \<open>MD\<close> axis.
\<close>

section \<open>Operations\<close>

definition is_STAR_MD :: "'a DistMatrix \<Rightarrow> bool" where
  "is_STAR_MD M \<longleftrightarrow> colDist M = STAR \<and> rowDist M = MD"

text \<open>The body shared by the overloads that go through \<open>[*,*]\<close>:
  \<open>DistMatrix<T,STAR,STAR> A_STAR_STAR( A ); *this = A_STAR_STAR;\<close>, the second
  statement being the \<open>[*,*]\<close> overload, \<open>RowFilterFrom\<close> (lines 256--263).\<close>

definition STAR_MD_via_STAR_STAR ::
  "('a DistMatrix \<Rightarrow> 'a gmat) \<Rightarrow> 'a DistMatrix \<Rightarrow> 'a DistMatrix \<Rightarrow> 'a DistMatrix" where
  "STAR_MD_via_STAR_STAR gather M A = FilterFrom (STAR_STAR_of gather A) M"

text \<open>\<open>operator=( const DM<T>& A )\<close> (lines 145--177). \<open>rowAlign0\<close> is the
  alignment after the adoption step.\<close>

definition STAR_MD_same :: "('a DistMatrix \<Rightarrow> 'a gmat) \<Rightarrow> 'a DistMatrix \<Rightarrow> 'a DistMatrix \<Rightarrow> 'a DistMatrix" where
  "STAR_MD_same gather M0 A =
     (let M1 = (if \<not> viewing M0 \<and> \<not> rowConstrained M0
                then AlignRows (rowAlign A) (SetRoot (root A) M0) else M0);
          M = Resize (mheight A) (mwidth A) M1
      in if root M = root A \<and> rowAlign M = rowAlign A then M\<lparr>locals := locals A\<rparr>
         else STAR_MD_via_STAR_STAR gather M A)"

text \<open>\<open>AlignWith\<close> (lines 288--306) and \<open>AlignRowsWith\<close> (lines 308--311).\<close>

definition STAR_MD_AlignWith :: "build \<Rightarrow> DistData \<Rightarrow> 'a DistMatrix \<Rightarrow> 'a DistMatrix exn" where
  "STAR_MD_AlignWith b data M0 =
     (let M = SetGrid (ddGrid data) M0 in
      if ddColDist data = MD \<and> ddRowDist data = STAR
        then Inr (AlignRows (ddColAlign data) (SetRoot (ddRoot data) M))
      else if ddColDist data = STAR \<and> ddRowDist data = MD
        then Inr (AlignRows (ddRowAlign data) (SetRoot (ddRoot data) M))
      else if b = Debug then Inl (LogicError ''Invalid alignment'', M)
      else Inr M)"

definition STAR_MD_AlignRowsWith :: "build \<Rightarrow> DistData \<Rightarrow> 'a DistMatrix \<Rightarrow> 'a DistMatrix exn" where
  "STAR_MD_AlignRowsWith b data M = STAR_MD_AlignWith b data M"

text \<open>\<open>operator=( const DistMatrix<T,CIRC,CIRC>& A )\<close> (lines 265--275). An exception
  thrown while the temporary is prepared leaves \<open>*this\<close> as it was.\<close>

definition STAR_MD_from_CIRC ::
  "build \<Rightarrow> ('a DistMatrix \<Rightarrow> 'a gmat) \<Rightarrow> ('a DistMatrix \<Rightarrow> 'a DistMatrix \<Rightarrow> 'a DistMatrix)
   \<Rightarrow> 'a DistMatrix \<Rightarrow> 'a DistMatrix \<Rightarrow> 'a DistMatrix exn" where
  "STAR_MD_from_CIRC b gather scatter M A =
     (case MC_MR_AlignWith b (DistData_of M) (new_dm MC MR (dgrid A)) of
        Inl (e, _) \<Rightarrow> Inl (e, M)
      | Inr A_MC_MR \<Rightarrow> Inr (STAR_MD_via_STAR_STAR gather M (scatter A_MC_MR A)))"

text \<open>The overloads of \<open>operator=\<close> (lines 101--275), chosen by the static type of the
  source, a distribution pair.\<close>

fun STAR_MD_assign ::
  "build \<Rightarrow> ('a DistMatrix \<Rightarrow> 'a gmat) \<Rightarrow> ('a DistMatrix \<Rightarrow> 'a DistMatrix \<Rightarrow> 'a DistMatrix)
   \<Rightarrow> Dist \<times> Dist \<Rightarrow> 'a DistMatrix \<Rightarrow> 'a DistMatrix \<Rightarrow> 'a DistMatrix exn" where
  "STAR_MD_assign b gather scatter (MC, MR) M A = Inr (STAR_MD_via_STAR_STAR gather M A)"
| "STAR_MD_assign b gather scatter (MC, STAR) M A = Inr (STAR_MD_via_STAR_STAR gather M A)"
| "STAR_MD_assign b gather scatter (STAR, MR) M A = Inr (STAR_MD_via_STAR_STAR gather M A)"
| "STAR_MD_assign b gather scatter (MD, STAR) M A = Inr (STAR_MD_via_STAR_STAR gather M A)"
| "STAR_MD_assign b gather scatter (STAR, MD) M A = Inr (STAR_MD_same gather M A)"
| "STAR_MD_assign b gather scatter (MR, MC) M A = Inr (STAR_MD_via_STAR_STAR gather M A)"
| "STAR_MD_assign b gather scatter (MR, STAR) M A = Inr (STAR_MD_via_STAR_STAR gather M A)"
| "STAR_MD_assign b gather scatter (STAR, MC) M A = Inr (STAR_MD_via_STAR_STAR gather M A)"
| "STAR_MD_assign b gather scatter (VC, STAR) M A = Inr (STAR_MD_via_STAR_STAR gather M A)"
| "STAR_MD_assign b gather scatter (STAR, VC) M A = Inr (STAR_MD_via_STAR_STAR gather M A)"
| "STAR_MD_assign b gather scatter (VR, STAR) M A = Inr (STAR_MD_via_STAR_STAR gather M A)"
| "STAR_MD_assign b gather scatter (STAR, VR) M A = Inr (STAR_MD_via_STAR_STAR gather M A)"
| "STAR_MD_assign b gather scatter (STAR, STAR) M A = Inr (FilterFrom A M)"
| "STAR_MD_assign b gather scatter (CIRC, CIRC) M A = STAR_MD_from_CIRC b gather scatter M A"
| "STAR_MD_assign b gather scatter s M A = Inr M"

section \<open>Lemmas\<close>

lemma STAR_MD_colAlign: "is_STAR_MD M \<Longrightarrow> dm_wf M \<Longrightarrow> colAlign M = 0"
  by (simp add: dm_wf_def is_STAR_MD_def ColStride_def)

lemma STAR_MD_via_holds:
  assumes "dm_wf A" "gathers gather A G" "dgrid M = dgrid A" "dm_wf M"
  shows "holds (STAR_MD_via_STAR_STAR gather M A) G"
  unfolding STAR_MD_via_STAR_STAR_def
  using assms by (intro FilterFrom_holds STAR_STAR_of_holds STAR_STAR_of_wf) simp_all

lemma STAR_MD_via_fields [simp]:
  "colDist (STAR_MD_via_STAR_STAR gather M A) = colDist M"
  "rowDist (STAR_MD_via_STAR_STAR gather M A) = rowDist M"
  "dgrid (STAR_MD_via_STAR_STAR gather M A) = dgrid M"
  "mheight (STAR_MD_via_STAR_STAR gather M A) = mheight A"
  "mwidth (STAR_MD_via_STAR_STAR gather M A) = mwidth A"
  by (simp_all add: STAR_MD_via_STAR_STAR_def)

text \<open>The same-type assignment holds the source's global matrix on both of its
  paths.\<close>

lemma STAR_MD_same_holds:
  assumes M0: "is_STAR_MD M0" and A: "is_STAR_MD A" and g: "dgrid A = dgrid M0"
    and wf0: "dm_wf M0" and wfA: "dm_wf A" and hA: "holds A G" and ga: "gathers gather A G"
  shows "holds (STAR_MD_same gather M0 A) G \<and> is_STAR_MD (STAR_MD_same gather M0 A)
       \<and> dgrid (STAR_MD_same gather M0 A) = dgrid A
       \<and> mheight (STAR_MD_same gather M0 A) = mheight A \<and> mwidth (STAR_MD_same gather M0 A) = mwidth A"
proof -
  define M1 where "M1 = (if \<not> viewing M0 \<and> \<not> rowConstrained M0
                          then AlignRows (rowAlign A) (SetRoot (root A) M0) else M0)"
  define M where "M = Resize (mheight A) (mwidth A) M1"
  have f: "is_STAR_MD M" "dgrid M = dgrid A" "mheight M = mheight A" "mwidth M = mwidth A"
    "colAlign M = colAlign M0"
    using M0 g by (simp_all add: M_def M1_def base_defs is_STAR_MD_def)
  have wfM: "dm_wf M"
    using wf0 wfA M0 A g
    by (simp add: M_def M1_def base_defs dm_wf_def is_STAR_MD_def ColStride_def RowStride_def)
  have res: "STAR_MD_same gather M0 A = (if root M = root A \<and> rowAlign M = rowAlign A
      then M\<lparr>locals := locals A\<rparr> else STAR_MD_via_STAR_STAR gather M A)"
    by (simp add: STAR_MD_same_def M_def M1_def Let_def)
  show ?thesis
  proof (cases "root M = root A \<and> rowAlign M = rowAlign A")
    case True
    have "colAlign M = colAlign A"
      using f(5) STAR_MD_colAlign [OF M0 wf0] STAR_MD_colAlign [OF A wfA] by simp
    then have "same_layout (M\<lparr>locals := locals A\<rparr>) A"
      using True f A by (simp add: same_layout_def is_STAR_MD_def)
    then have "holds (M\<lparr>locals := locals A\<rparr>) G"
      using hA holds_same_layout [of "M\<lparr>locals := locals A\<rparr>" A G] by simp
    then show ?thesis using res True f by (simp add: is_STAR_MD_def)
  next
    case False
    have "holds (STAR_MD_via_STAR_STAR gather M A) G"
      using wfA ga f(2) wfM by (rule STAR_MD_via_holds)
    then show ?thesis using res False f by (simp add: is_STAR_MD_def)
  qed
qed

text \<open>C16. Every overload of \<open>[*,MD] = X\<close> for a library pair other than
  \<open>[CIRC,CIRC]\<close> returns normally with a \<open>[*,MD]\<close> matrix on the source's grid, of
  the source's size, holding the source's global matrix, given that the \<open>[*,*]\<close>
  temporary gathers it.\<close>

theorem STAR_MD_assign_holds:
  assumes s: "dist_pair (fst s) (snd s)" "s \<noteq> (CIRC, CIRC)"
    and A: "colDist A = fst s" "rowDist A = snd s" and M: "is_STAR_MD M" and g: "dgrid A = dgrid M"
    and wfM: "dm_wf M" and wfA: "dm_wf A" and hA: "holds A G" and ga: "gathers gather A G"
  shows "\<exists>M'. STAR_MD_assign b gather scatter s M A = Inr M' \<and> holds M' G \<and> is_STAR_MD M'
           \<and> dgrid M' = dgrid A \<and> mheight M' = mheight A \<and> mwidth M' = mwidth A"
proof -
  obtain cd rd where sc: "s = (cd, rd)" by fastforce
  have via: "holds (STAR_MD_via_STAR_STAR gather M A) G"
    using wfA ga g [symmetric] wfM by (rule STAR_MD_via_holds)
  show ?thesis
  proof (cases "s = (STAR, MD) \<or> s = (STAR, STAR)")
    case True
    then show ?thesis
    proof
      assume "s = (STAR, MD)"
      then show ?thesis
        using STAR_MD_same_holds [OF M _ g wfM wfA hA ga] A by (simp add: is_STAR_MD_def)
    next
      assume st: "s = (STAR, STAR)"
      have "holds (FilterFrom A M) G"
        using A st wfA hA g wfM by (intro FilterFrom_holds) (simp_all add: is_STAR_STAR_def)
      then show ?thesis using st M g by (simp add: is_STAR_MD_def)
    qed
  next
    case False
    then show ?thesis
      using s via M g unfolding sc
      by (cases cd; cases rd) (simp_all add: dist_pair_def is_STAR_MD_def)
  qed
qed

text \<open>C17. \<open>[*,MD] = [CIRC,CIRC]\<close> asks \<open>[MC,MR]::AlignWith\<close> to align its
  temporary with the \<open>[*,MD]\<close> destination, a tag pair outside that routine's table:
  a debug build always raises the nonsensical-alignment error (with \<open>*this\<close>
  untouched), and a release build scatters into a temporary left at alignment
  \<open>(0, 0)\<close>, unconstrained, whatever the destination.\<close>

theorem STAR_MD_from_CIRC_misaligned:
  assumes M: "is_STAR_MD M"
  shows "STAR_MD_assign Debug gather scatter (CIRC, CIRC) M A = Inl (LogicError ''Nonsensical alignment'', M)
       \<and> (\<exists>T. STAR_MD_assign Release gather scatter (CIRC, CIRC) M A
                = Inr (STAR_MD_via_STAR_STAR gather M (scatter T A))
              \<and> colAlign T = 0 \<and> rowAlign T = 0 \<and> \<not> colConstrained T \<and> \<not> rowConstrained T)"
  using M
  by (simp add: STAR_MD_from_CIRC_def MC_MR_AlignWith_def DistData_of_def is_STAR_MD_def new_dm_def
      base_defs) (rule exI, rule conjI [OF refl], simp)

text \<open>C18. After \<open>AlignWith\<close> on the descriptor of a \<open>[*,MD]\<close> matrix, the same-type
  assignment from that matrix takes the local-copy path: the destination has the
  source's grid, root and row alignment, constrained, so the result is the resized
  destination with the source's local matrices, whatever the gather would have done.\<close>

theorem STAR_MD_AlignWith_then_copy:
  assumes A: "is_STAR_MD A" and al: "STAR_MD_AlignWith b (DistData_of A) M = Inr M'"
  shows "STAR_MD_same gather M' A = (Resize (mheight A) (mwidth A) M')\<lparr>locals := locals A\<rparr>
       \<and> dgrid M' = dgrid A \<and> root M' = root A \<and> rowAlign M' = rowAlign A \<and> rowConstrained M'"
proof -
  have M': "M' = AlignRows (rowAlign A) (SetRoot (root A) (SetGrid (dgrid A) M))"
    using al A by (simp add: STAR_MD_AlignWith_def DistData_of_def is_STAR_MD_def Let_def)
  then have f: "dgrid M' = dgrid A" "root M' = root A" "rowAlign M' = rowAlign A" "rowConstrained M'"
    by (simp_all add: base_defs)
  then show ?thesis by (simp add: STAR_MD_same_def Let_def Resize_def)
qed

end
