(* ===== verification/Routes.thy ===== *)
theory Routes
  imports STAR_MD MR_STAR MC_MR_VC
begin

text \<open>
  Conversions composed of other conversions (spec 4.3, protocol 6): the overloads of
  \<open>[MC,MR]\<close> (\<open>mc_mr.cpp\<close>) and \<open>[MR,*]\<close> (\<open>mr_star.cpp\<close>) that build one to three
  temporaries of linking distributions and assign the last one to \<open>*this\<close>. The
  conversions into the temporaries, and the gathers \<open>RowAllGather\<close> and
  \<open>PartialColAllGather\<close>, live in files that are not under \<open>src/\<close>; they are
  modelled from the spec as \<open>convert\<close>: the destination, resized to the source's size
  and keeping its distribution, grid and alignments, receives the global matrix the
  all-gather \<open>gather\<close> reads off the source. A temporary built as
  \<open>DistMatrix<T,U,V>(true, this->ColAlign(), g)\<close> is constrained to the destination's
  column alignment (\<open>new_dm_col\<close>). The lemmas show that the \<open>[VR,*]\<close> route
  into \<open>[MC,MR]\<close> always reaches the aligned branch of \<open>[MC,MR] = [VC,*]\<close> and
  delivers the source's global matrix. The other routes are modelled for the clients
  that call them, but since every step of theirs is a spec-modelled conversion, what
  they deliver follows from \<open>convert\<close>'s definition and is not stated as a property
  of the code.
\<close>

section \<open>The conversions outside the engine's files\<close>

definition convert ::
  "('a DistMatrix \<Rightarrow> 'a gmat) \<Rightarrow> 'a DistMatrix \<Rightarrow> 'a DistMatrix \<Rightarrow> 'a DistMatrix" where
  "convert gather M A = distribute (gather A) (Resize (mheight A) (mwidth A) M)"

definition new_dm_col :: "Dist \<Rightarrow> Dist \<Rightarrow> int \<Rightarrow> grid \<Rightarrow> 'a DistMatrix" where
  "new_dm_col cd rd ca g = (new_dm cd rd g)\<lparr>colAlign := ca, colConstrained := True\<rparr>"

text \<open>A gather is correct for \<open>G\<close> when it reads \<open>G\<close> off every well-formed matrix
  that holds \<open>G\<close>.\<close>

definition gather_ok :: "('a DistMatrix \<Rightarrow> 'a gmat) \<Rightarrow> 'a gmat \<Rightarrow> bool" where
  "gather_ok gather G \<longleftrightarrow> (\<forall>T. dm_wf T \<longrightarrow> holds T G \<longrightarrow> gathers gather T G)"

section \<open>Routes into \<open>[MC,MR]\<close>\<close>

text \<open>\<open>[MC,MR] = [MD,*]\<close> and \<open>[MC,MR] = [*,MD]\<close> (lines 209--229) go through
  \<open>[*,*]\<close>, whose overload is \<open>FilterFrom\<close> (lines 822--829).\<close>

definition MC_MR_from_STAR_STAR :: "'a DistMatrix \<Rightarrow> 'a DistMatrix \<Rightarrow> 'a DistMatrix" where
  "MC_MR_from_STAR_STAR M A = FilterFrom A M"

definition MC_MR_via_STAR_STAR ::
  "('a DistMatrix \<Rightarrow> 'a gmat) \<Rightarrow> 'a DistMatrix \<Rightarrow> 'a DistMatrix \<Rightarrow> 'a DistMatrix" where
  "MC_MR_via_STAR_STAR gather M A = MC_MR_from_STAR_STAR M (STAR_STAR_of gather A)"

text \<open>\<open>[MC,MR] = [VR,*]\<close> (lines 648--658): a \<open>[VC,*]\<close> temporary constrained to
  \<open>this->ColAlign()\<close> on \<open>this->Grid()\<close>, then \<open>[MC,MR] = [VC,*]\<close>.\<close>

definition MC_MR_from_VR_STAR ::
  "('a DistMatrix \<Rightarrow> 'a gmat) \<Rightarrow> 'a DistMatrix \<Rightarrow> 'a DistMatrix \<Rightarrow> 'a DistMatrix exn" where
  "MC_MR_from_VR_STAR gather M A =
     (let A_VC_STAR = convert gather (new_dm_col VC STAR (colAlign M) (dgrid M)) A
      in MC_MR_from_VC_STAR M A_VC_STAR)"

text \<open>\<open>[MC,MR] = [MR,*]\<close> (lines 442--456): \<open>[VR,*]\<close>, then \<open>[VC,*]\<close> constrained to
  \<open>this->ColAlign()\<close>, both on \<open>A.Grid()\<close>, then \<open>[MC,MR] = [VC,*]\<close>.\<close>

definition MC_MR_from_MR_STAR ::
  "('a DistMatrix \<Rightarrow> 'a gmat) \<Rightarrow> 'a DistMatrix \<Rightarrow> 'a DistMatrix \<Rightarrow> 'a DistMatrix exn" where
  "MC_MR_from_MR_STAR gather M A =
     (let g = dgrid A;
          A_VR_STAR = convert gather (new_dm VR STAR g) A;
          A_VC_STAR = convert gather (new_dm_col VC STAR (colAlign M) g) A_VR_STAR
      in MC_MR_from_VC_STAR M A_VC_STAR)"

section \<open>Routes into \<open>[MR,*]\<close>\<close>

text \<open>The overloads of \<open>mr_star.cpp\<close> that call a gather or the filter directly:
  \<open>[VR,*]\<close> (\<open>PartialColAllGather\<close>, lines 369--376), \<open>[MR,MC]\<close>
  (\<open>RowAllGather\<close>, lines 253--258), \<open>[*,*]\<close> (\<open>ColFilterFrom\<close>, lines
  396--402).\<close>

definition MR_STAR_from_VR_STAR ::
  "('a DistMatrix \<Rightarrow> 'a gmat) \<Rightarrow> 'a DistMatrix \<Rightarrow> 'a DistMatrix \<Rightarrow> 'a DistMatrix" where
  "MR_STAR_from_VR_STAR gather M A = convert gather M A"

definition MR_STAR_from_MR_MC ::
  "('a DistMatrix \<Rightarrow> 'a gmat) \<Rightarrow> 'a DistMatrix \<Rightarrow> 'a DistMatrix \<Rightarrow> 'a DistMatrix" where
  "MR_STAR_from_MR_MC gather M A = convert gather M A"

definition MR_STAR_from_STAR_STAR :: "'a DistMatrix \<Rightarrow> 'a DistMatrix \<Rightarrow> 'a DistMatrix" where
  "MR_STAR_from_STAR_STAR M A = FilterFrom A M"

text \<open>\<open>[MR,*] = [MC,MR]\<close> (lines 92--109): \<open>[VC,*]\<close>, then \<open>[VR,*]\<close> constrained to
  \<open>this->ColAlign()\<close>, on \<open>this->Grid()\<close>.\<close>

definition MR_STAR_from_MC_MR ::
  "('a DistMatrix \<Rightarrow> 'a gmat) \<Rightarrow> 'a DistMatrix \<Rightarrow> 'a DistMatrix \<Rightarrow> 'a DistMatrix" where
  "MR_STAR_from_MC_MR gather M A =
     (let g = dgrid M;
          A_VC_STAR = convert gather (new_dm VC STAR g) A;
          A_VR_STAR = convert gather (new_dm_col VR STAR (colAlign M) g) A_VC_STAR
      in MR_STAR_from_VR_STAR gather M A_VR_STAR)"

text \<open>\<open>[MR,*] = [*,MR]\<close> (lines 207--227): \<open>[MC,MR]\<close> on \<open>A.Grid()\<close>, \<open>[VC,*]\<close>,
  \<open>[VR,*]\<close> constrained to \<open>this->ColAlign()\<close>.\<close>

definition MR_STAR_from_STAR_MR ::
  "('a DistMatrix \<Rightarrow> 'a gmat) \<Rightarrow> 'a DistMatrix \<Rightarrow> 'a DistMatrix \<Rightarrow> 'a DistMatrix" where
  "MR_STAR_from_STAR_MR gather M A =
     (let g = dgrid M;
          A_MC_MR = convert gather (new_dm MC MR (dgrid A)) A;
          A_VC_STAR = convert gather (new_dm VC STAR g) A_MC_MR;
          A_VR_STAR = convert gather (new_dm_col VR STAR (colAlign M) g) A_VC_STAR
      in MR_STAR_from_VR_STAR gather M A_VR_STAR)"

text \<open>\<open>[MR,*] = [MD,*]\<close> and \<open>[MR,*] = [*,MD]\<close> (lines 229--249), through \<open>[*,*]\<close>.\<close>

definition MR_STAR_via_STAR_STAR ::
  "('a DistMatrix \<Rightarrow> 'a gmat) \<Rightarrow> 'a DistMatrix \<Rightarrow> 'a DistMatrix \<Rightarrow> 'a DistMatrix" where
  "MR_STAR_via_STAR_STAR gather M A = MR_STAR_from_STAR_STAR M (STAR_STAR_of gather A)"

text \<open>\<open>[MR,*] = [*,MC]\<close> and \<open>[MR,*] = [*,VC]\<close> (lines 336--344, 359--367): an
  \<open>[MR,MC]\<close> temporary, then \<open>[MR,*] = [MR,MC]\<close>.\<close>

definition MR_STAR_via_MR_MC ::
  "('a DistMatrix \<Rightarrow> 'a gmat) \<Rightarrow> 'a DistMatrix \<Rightarrow> 'a DistMatrix \<Rightarrow> 'a DistMatrix" where
  "MR_STAR_via_MR_MC gather M A =
     (let A_MR_MC = convert gather (new_dm MR MC (dgrid A)) A in MR_STAR_from_MR_MC gather M A_MR_MC)"

text \<open>\<open>[MR,*] = [VC,*]\<close> (lines 346--357): a \<open>[VR,*]\<close> temporary constrained to
  \<open>this->ColAlign()\<close>.\<close>

definition MR_STAR_from_VC_STAR ::
  "('a DistMatrix \<Rightarrow> 'a gmat) \<Rightarrow> 'a DistMatrix \<Rightarrow> 'a DistMatrix \<Rightarrow> 'a DistMatrix" where
  "MR_STAR_from_VC_STAR gather M A =
     (let A_VR_STAR = convert gather (new_dm_col VR STAR (colAlign M) (dgrid M)) A
      in MR_STAR_from_VR_STAR gather M A_VR_STAR)"

text \<open>\<open>[MR,*] = [*,VR]\<close> (lines 378--394): \<open>[*,VC]\<close>, then an \<open>[MR,MC]\<close>
  temporary built with \<open>(true, false, this->ColAlign(), 0, g)\<close>: column alignment
  constrained to the destination's, row alignment \<open>0\<close> unconstrained.\<close>

definition MR_STAR_from_STAR_VR ::
  "('a DistMatrix \<Rightarrow> 'a gmat) \<Rightarrow> 'a DistMatrix \<Rightarrow> 'a DistMatrix \<Rightarrow> 'a DistMatrix" where
  "MR_STAR_from_STAR_VR gather M A =
     (let g = dgrid M;
          A_STAR_VC = convert gather (new_dm STAR VC (dgrid A)) A;
          A_MR_MC = convert gather (new_dm_col MR MC (colAlign M) g) A_STAR_VC
      in MR_STAR_from_MR_MC gather M A_MR_MC)"

text \<open>What a conversion into \<open>M\<close> from \<open>A\<close> must deliver: \<open>A\<close>'s global matrix,
  at \<open>A\<close>'s size, in \<open>M\<close>'s distribution on \<open>M\<close>'s grid.\<close>

definition delivers :: "'a DistMatrix \<Rightarrow> 'a DistMatrix \<Rightarrow> 'a gmat \<Rightarrow> 'a DistMatrix \<Rightarrow> bool" where
  "delivers M A G M' \<longleftrightarrow> holds M' G \<and> colDist M' = colDist M \<and> rowDist M' = rowDist M
     \<and> dgrid M' = dgrid M \<and> mheight M' = mheight A \<and> mwidth M' = mwidth A"

section \<open>Lemmas\<close>

lemma new_dm_fields [simp]:
  "colDist (new_dm cd rd g) = cd" "rowDist (new_dm cd rd g) = rd" "dgrid (new_dm cd rd g) = g"
  "colAlign (new_dm cd rd g) = 0" "rowAlign (new_dm cd rd g) = 0"
  "colDist (new_dm_col cd rd ca g) = cd" "rowDist (new_dm_col cd rd ca g) = rd"
  "dgrid (new_dm_col cd rd ca g) = g" "colAlign (new_dm_col cd rd ca g) = ca"
  "rowAlign (new_dm_col cd rd ca g) = 0" "colConstrained (new_dm_col cd rd ca g)"
  by (simp_all add: new_dm_def new_dm_col_def)

lemma new_dm_wf: "grid_ok g \<Longrightarrow> dm_wf (new_dm cd rd g)"
  by (simp add: dm_wf_def new_dm_def ColStride_def RowStride_def dist_stride_pos)

lemma new_dm_col_wf:
  "grid_ok g \<Longrightarrow> 0 \<le> ca \<Longrightarrow> ca < dist_stride g cd \<Longrightarrow> dm_wf (new_dm_col cd rd ca g)"
  by (simp add: dm_wf_def new_dm_def new_dm_col_def ColStride_def RowStride_def dist_stride_pos)

lemma convert_fields [simp]:
  "colDist (convert gather M A) = colDist M" "rowDist (convert gather M A) = rowDist M"
  "dgrid (convert gather M A) = dgrid M" "mheight (convert gather M A) = mheight A"
  "mwidth (convert gather M A) = mwidth A" "colAlign (convert gather M A) = colAlign M"
  "rowAlign (convert gather M A) = rowAlign M" "root (convert gather M A) = root M"
  "viewing (convert gather M A) = viewing M"
  "colConstrained (convert gather M A) = colConstrained M"
  by (simp_all add: convert_def Resize_def distribute_def)

lemma convert_wf: "dm_wf M \<Longrightarrow> dm_wf A \<Longrightarrow> dm_wf (convert gather M A)"
  by (simp add: convert_def distribute_def Resize_def dm_wf_def ColStride_def RowStride_def)

text \<open>A distributed matrix built from a global one that agrees with \<open>G\<close> on the
  matrix's extent holds \<open>G\<close>.\<close>

lemma holds_distribute_agree:
  assumes wf: "dm_wf M"
    and agree: "\<And>i j. 0 \<le> i \<Longrightarrow> i < mheight M \<Longrightarrow> 0 \<le> j \<Longrightarrow> j < mwidth M \<Longrightarrow> H (i, j) = G (i, j)"
  shows "holds (distribute H M) G"
  unfolding distribute_def
proof (rule holds_locals_intro)
  fix q i j
  assume q: "q \<in> procs (dgrid M)" and p: "Participating M q" and i: "0 \<le> i" "i < LocalHeight M q"
    and j: "0 \<le> j" "j < LocalWidth M q"
  note o = owned_in_range [OF wf q p i j]
  show "(\<lambda>(iLoc, jLoc). H (ColShift M q + iLoc * ColStride M, RowShift M q + jLoc * RowStride M)) (i, j)
      = G (ColShift M q + i * ColStride M, RowShift M q + j * RowStride M)"
    using agree [OF o] by simp
qed

lemma convert_holds:
  assumes "gather_ok gather G" "dm_wf A" "holds A G" "dm_wf M"
  shows "holds (convert gather M A) G"
proof -
  have ga: "gathers gather A G" using assms(1-3) by (simp add: gather_ok_def)
  have "0 \<le> mheight A" "0 \<le> mwidth A" using assms(2) by (simp_all add: dm_wf_def)
  then have "dm_wf (Resize (mheight A) (mwidth A) M)" using assms(4) dm_wf_Resize by blast
  then show ?thesis
    unfolding convert_def
    by (rule holds_distribute_agree) (use ga in \<open>simp add: gathers_def Resize_def\<close>)
qed

lemma grid_ok_wf: "dm_wf M \<Longrightarrow> grid_ok (dgrid M)"
  by (simp add: dm_wf_def)

lemma stride_le_gsize: "grid_ok g \<Longrightarrow> gheight g \<le> gsize g \<and> gwidth g \<le> gsize g"
  by (simp add: grid_ok_def gsize_def)

lemmas route_simps = convert_holds convert_wf new_dm_wf new_dm_col_wf grid_ok_wf STAR_STAR_of_wf
  STAR_STAR_of_holds

text \<open>The \<open>[VR,*]\<close> route into \<open>[MC,MR]\<close> reaches \<open>[MC,MR] = [VC,*]\<close> with a
  source whose alignment already matches the destination's.\<close>

lemma MC_MR_from_VR_STAR_eq:
  assumes M: "is_MC_MR M" and wf: "dm_wf M"
  shows "MC_MR_from_VR_STAR gather M A
     = MC_MR_VC_aligned (AlignColsAndResize (colAlign M) (mheight A) (mwidth A) M)
         (convert gather (new_dm_col VC STAR (colAlign M) (dgrid M)) A)"
proof -
  have "0 \<le> colAlign M" "colAlign M < gheight (dgrid M)"
    using M wf by (simp_all add: dm_wf_def)
  then have "colAlign M smod gheight (dgrid M) = colAlign M" by simp
  then show ?thesis
    by (simp add: MC_MR_from_VR_STAR_def MC_MR_from_VC_STAR_def Let_def AlignColsAndResize_def Resize_def)
qed

lemma gather_ok_gathers: "gather_ok gather G \<Longrightarrow> dm_wf A \<Longrightarrow> holds A G \<Longrightarrow> gathers gather A G"
  by (simp add: gather_ok_def)

text \<open>C20. \<open>[MC,MR] = [VR,*]\<close> always takes the aligned branch of
  \<open>[MC,MR] = [VC,*]\<close> (its \<open>[VC,*]\<close> temporary is constrained to the destination's
  column alignment, so no point-to-point trade is needed), and delivers the source's
  global matrix at the source's size in \<open>[MC,MR]\<close> on the destination's grid.\<close>

theorem MC_MR_from_VR_STAR_holds:
  assumes ga: "gather_ok gather G" and M: "is_MC_MR M" and wfM: "dm_wf M"
    and wfA: "dm_wf A" and hA: "holds A G"
  shows "MC_MR_from_VR_STAR gather M A
           = MC_MR_VC_aligned (AlignColsAndResize (colAlign M) (mheight A) (mwidth A) M)
               (convert gather (new_dm_col VC STAR (colAlign M) (dgrid M)) A)
       \<and> (\<exists>M'. MC_MR_from_VR_STAR gather M A = Inr M' \<and> delivers M A G M')"
proof -
  define T where "T = convert gather (new_dm_col VC STAR (colAlign M) (dgrid M)) A"
  have g: "grid_ok (dgrid M)" using wfM by (rule grid_ok_wf)
  have a: "0 \<le> colAlign M" "colAlign M < gsize (dgrid M)"
    using M wfM stride_le_gsize [OF g] by (auto simp: dm_wf_def)
  have T: "is_VC_STAR T" "dgrid T = dgrid M" "mheight T = mheight A" "mwidth T = mwidth A"
    by (simp_all add: T_def is_VC_STAR_def)
  have wfT: "dm_wf T" unfolding T_def using g a wfA by (simp add: route_simps)
  have hT: "holds T G" unfolding T_def using ga g a wfA hA by (simp add: route_simps)
  obtain M' where "MC_MR_from_VC_STAR M T = Inr M'" "holds M' G" "is_MC_MR M'" "dgrid M' = dgrid T"
    "mheight M' = mheight T" "mwidth M' = mwidth T"
    using MC_MR_from_VC_STAR_correct [OF M T(1) T(2) wfM wfT hT] by blast
  then show ?thesis
    using MC_MR_from_VR_STAR_eq [OF M wfM, of gather A] M T
    by (simp add: MC_MR_from_VR_STAR_def T_def [symmetric] delivers_def is_MC_MR_def)
       (rule exI [of _ M'], simp)
qed

end
