(* ===== verification/MR_STAR_Vec.thy ===== *)
theory MR_STAR_Vec
  imports Routes
begin

text \<open>
  \<open>[MR,*] = [MC,*]\<close> (\<open>src/src/core/dist_matrix/mr_star.cpp\<close>, lines 111--205). A
  column vector (width \<open>1\<close>) takes the vector fast path (spec 4.3, protocol 7): each
  process keeps the entries of its \<open>[MC,*]\<close> rows that \<open>[VC,*]\<close> would give it
  (a filter, no communication), trades them point to point over \<open>VRComm\<close> so that
  each process holds its \<open>[VR,*]\<close> rows under the destination's alignment, and the
  grid column all-gathers those: the \<open>r\<close> processes of a grid column together own, in
  \<open>[VR,*]\<close>, exactly the rows \<open>[MR,*]\<close> gives that column. A wider matrix goes
  through \<open>[VC,*]\<close> and an aligned \<open>[VR,*]\<close>, as \<open>[MR,*] = [MC,MR]\<close> does. Every
  process takes part in an \<open>[MR,*]\<close> matrix, so the early return of lines 121--125 is
  never taken.
\<close>

section \<open>Definitions\<close>

definition is_MC_STAR :: "'a DistMatrix \<Rightarrow> bool" where
  "is_MC_STAR M \<longleftrightarrow> colDist M = MC \<and> rowDist M = STAR"

text \<open>The partners of the \<open>SendRecv\<close> over \<open>VRComm\<close> (lines 129--150); ranks of
  \<open>VRComm\<close> are row-major ranks. \<open>thisColAlign\<close> is \<open>this->ColAlign()\<close>.\<close>

definition MR_STAR_MC_vec_xfer :: "'a DistMatrix \<Rightarrow> 'a DistMatrix \<Rightarrow> int \<Rightarrow> xfer" where
  "MR_STAR_MC_vec_xfer M A q =
     (let g = dgrid M; r = gheight g; c = gwidth g; p = gsize g;
          rankCM = q; rankRM = vr_rank g q;
          thisColAlign = colAlign M; colAlignOfA = colAlign A;
          height = mheight M;
          maxLocalVectorHeight = MaxLength height p;
          portionSize = Pad maxLocalVectorHeight;
          colShiftVR = Shift rankRM thisColAlign p;
          colShiftVCOfA = Shift rankCM colAlignOfA p;
          sendRankRM = (rankRM + (p + colShiftVCOfA - colShiftVR)) smod p;
          recvRankCM = (rankCM + (p + colShiftVR - colShiftVCOfA)) smod p;
          recvRankRM = (recvRankCM sdiv r) + c * (recvRankCM smod r)
      in \<lparr>sendOff = 0, sendCount = portionSize, sendTo = sendRankRM,
          recvOff = r * portionSize, recvCount = portionSize, recvFrom = recvRankRM\<rparr>)"

text \<open>The \<open>[VC,*] <- [MC,*]\<close> filter (lines 156--165): the rows of the \<open>[VC,*]\<close>
  process \<open>rankCM\<close>, read from the local column of \<open>A\<close> with stride \<open>c\<close>.\<close>

definition pack_MC_STAR_vec :: "int \<Rightarrow> int \<Rightarrow> int \<Rightarrow> int \<Rightarrow> int \<Rightarrow> int \<Rightarrow> 'a lmat \<Rightarrow> 'a buf \<Rightarrow> 'a buf" where
  "pack_MC_STAR_vec r c rankCM colAlignOfA colShiftOfA height ABuf sendBuf =
     (let p = r * c;
          shift = Shift rankCM colAlignOfA p;
          offset = (shift - colShiftOfA) sdiv r;
          thisLocalHeight = Length height shift p
      in for_loop thisLocalHeight (\<lambda>iLoc b. b(iLoc := ABuf (offset + iLoc * c, 0))) sendBuf)"

text \<open>The unpack (lines 176--187): block \<open>k\<close> holds the \<open>[VR,*]\<close> rows of the process
  in grid row \<open>k\<close> of this column, row-major rank \<open>myCol + c k\<close>.\<close>

definition unpack_MR_STAR_vec :: "int \<Rightarrow> int \<Rightarrow> int \<Rightarrow> int \<Rightarrow> int \<Rightarrow> int \<Rightarrow> int \<Rightarrow> 'a buf \<Rightarrow> 'a lmat \<Rightarrow> 'a lmat" where
  "unpack_MR_STAR_vec r c myCol thisColAlign colShift height portionSize buf thisBuffer =
     for_loop r (\<lambda>k. let p = r * c;
                         shift = Shift (myCol + c * k) thisColAlign p;
                         offset = (shift - colShift) sdiv c;
                         thisLocalHeight = Length height shift p in
       for_loop thisLocalHeight (\<lambda>iLoc m. m((offset + iLoc * r, 0) := buf (k * portionSize + iLoc))))
       thisBuffer"

text \<open>The operator (lines 111--205).\<close>

definition MR_STAR_from_MC_STAR ::
  "('a DistMatrix \<Rightarrow> 'a gmat) \<Rightarrow> 'a DistMatrix \<Rightarrow> 'a DistMatrix \<Rightarrow> 'a DistMatrix exn" where
  "MR_STAR_from_MC_STAR gather M0 A =
     (if mwidth A = 1 then
        (let M = Resize (mheight A) 1 M0;
             g = dgrid M; r = gheight g; c = gwidth g; p = gsize g;
             portionSize = Pad (MaxLength (mheight M) p);
             M1 = RequireAll ((r + 1) * portionSize) M;
             X = MR_STAR_MC_vec_xfer M A;
             sent = (\<lambda>q. pack_MC_STAR_vec r c q (colAlign A) (ColShift A q) (mheight M)
                          (locals A q) (auxMem M1 q))
         in case SendRecv g VRComm X sent of
              None \<Rightarrow> Inl (CommError, M1\<lparr>auxMem := sent\<rparr>)
            | Some mem1 \<Rightarrow>
                (let mem2 = AllGather g MCComm portionSize (r * portionSize) 0 mem1
                 in Inr (M1\<lparr>auxMem := mem2,
                      locals := \<lambda>q. unpack_MR_STAR_vec r c (gcol g q) (colAlign M) (ColShift M q)
                                      (mheight M) portionSize (mem2 q) (locals M q)\<rparr>)))
      else Inr (MR_STAR_from_MC_MR gather M0 A))"

section \<open>The partners\<close>

lemma mod_sub_mod:
  fixes x b p :: int
  shows "(x - (x - b) mod p + y) mod p = (b + y) mod p"
proof -
  have "x - (x - b) mod p + y = (b + y) + ((x - b) div p) * p"
    using div_mult_mod_eq [of "x - b" p] by (simp add: algebra_simps)
  then show ?thesis by (simp only: mod_mult_self1)
qed

text \<open>A point-to-point exchange between two numberings of the same \<open>p\<close> processes
  (\<open>f\<close>, with inverse \<open>f'\<close>): the process of rank \<open>q\<close> in the first holds the shift
  \<open>Shift q b p\<close>, and must hand its data to the process whose rank \<open>v\<close> in the second
  has \<open>Shift v a p\<close> equal to it. The send partner (a rank of the second numbering) and
  the receive partner (a rank of the first) the code computes are in range, inverse to
  each other, and the partner received from holds the shift the receiver needs.\<close>

lemma shift_exchange:
  fixes p a b q :: int and f f' :: "int \<Rightarrow> int"
  assumes p: "0 < p" and a: "0 \<le> a" "a < p" and b: "0 \<le> b" "b < p"
    and fi: "\<forall>x. 0 \<le> x \<and> x < p \<longrightarrow> 0 \<le> f x \<and> f x < p \<and> 0 \<le> f' x \<and> f' x < p \<and> f (f' x) = x \<and> f' (f x) = x"
    and q: "0 \<le> q" "q < p"
  defines "snd' \<equiv> \<lambda>q. (f q + (p + Shift q b p - Shift (f q) a p)) smod p"
    and "rcv \<equiv> \<lambda>q. (q + (p + Shift (f q) a p - Shift q b p)) smod p"
  shows "0 \<le> snd' q" "snd' q < p" "0 \<le> rcv q" "rcv q < p"
    and "rcv (f' (snd' q)) = q" "snd' (rcv q) = f q" "Shift (rcv q) b p = Shift (f q) a p"
proof -
  have f: "0 \<le> f x \<and> f x < p \<and> 0 \<le> f' x \<and> f' x < p \<and> f (f' x) = x \<and> f' (f x) = x"
    if "0 \<le> x" "x < p" for x
    using fi that by blast
  have sh: "Shift x c p = (x - c) mod p" if "0 \<le> x" "0 \<le> c" "c < p" for x c
    using that by (simp add: Shift_eq)
  have shr: "0 \<le> Shift x c p" "Shift x c p < p" if "0 \<le> x" "0 \<le> c" "c < p" for x c
    using that by (simp_all add: Shift_range)
  have sm: "(x + (p + y - z)) smod p = (x + y - z) mod p"
    if "0 \<le> x" "0 \<le> y" "z < p" for x y z
  proof -
    have "0 \<le> x + (p + y - z)" using that by linarith
    then have "(x + (p + y - z)) smod p = (x + (p + y - z)) mod p" using p by simp
    moreover have "x + (p + y - z) = (x + y - z) + 1 * p" by simp
    then have "(x + (p + y - z)) mod p = (x + y - z) mod p" by (simp only: mod_mult_self1)
    ultimately show ?thesis by simp
  qed
  note fq = f [OF q]
  have snd_eq: "snd' x = (f x + Shift x b p - Shift (f x) a p) mod p" if "0 \<le> x" "x < p" for x
    using sm [of "f x" "Shift x b p" "Shift (f x) a p"] f [OF that] shr that a b
    by (simp add: snd'_def)
  have rcv_eq: "rcv x = (x + Shift (f x) a p - Shift x b p) mod p" if "0 \<le> x" "x < p" for x
    using sm [of x "Shift (f x) a p" "Shift x b p"] f [OF that] shr that a b
    by (simp add: rcv_def)
  show s: "0 \<le> snd' q" "snd' q < p" using snd_eq [OF q] p by simp_all
  show r: "0 \<le> rcv q" "rcv q < p" using rcv_eq [OF q] p by simp_all
  show shift_rcv: "Shift (rcv q) b p = Shift (f q) a p"
  proof -
    have "Shift (rcv q) b p = (rcv q - b) mod p" using sh r b by simp
    also have "\<dots> = (q + Shift (f q) a p - Shift q b p - b) mod p"
      by (simp add: rcv_eq [OF q] mod_diff_left_eq)
    also have "\<dots> = (q - (q - b) mod p + (Shift (f q) a p - b)) mod p"
      using sh [OF q(1) b] by (simp add: algebra_simps)
    also have "\<dots> = (b + (Shift (f q) a p - b)) mod p" by (rule mod_sub_mod)
    also have "\<dots> = Shift (f q) a p" using shr fq a by simp
    finally show ?thesis .
  qed
  show "rcv (f' (snd' q)) = q"
  proof -
    let ?v = "snd' q" let ?w = "f' ?v"
    have fv: "0 \<le> ?w" "?w < p" "f ?w = ?v" using f [OF s] by auto
    have "Shift (f ?w) a p = (?v - a) mod p" using fv sh s a by simp
    also have "\<dots> = (f q + Shift q b p - Shift (f q) a p - a) mod p"
      by (simp add: snd_eq [OF q] mod_diff_left_eq)
    also have "\<dots> = ((f q - a) - (f q - a) mod p + Shift q b p) mod p"
      using sh [of "f q" a] fq a by (simp add: algebra_simps)
    also have "\<dots> = Shift q b p"
      using mod_sub_mod [of "f q - a" 0 p "Shift q b p"] shr q b by simp
    finally have t: "Shift (f ?w) a p = Shift q b p" .
    have "rcv ?w = (?w + Shift q b p - Shift ?w b p) mod p" using rcv_eq [OF fv(1,2)] t by simp
    also have "\<dots> = (?w - (?w - b) mod p + Shift q b p) mod p"
      using sh [OF fv(1) b] by (simp add: algebra_simps)
    also have "\<dots> = (b + Shift q b p) mod p" by (rule mod_sub_mod)
    also have "\<dots> = (b + (q - b) mod p) mod p" using sh [OF q(1) b] by simp
    also have "\<dots> = q" using q by (simp add: mod_add_right_eq)
    finally show ?thesis .
  qed
  show "snd' (rcv q) = f q"
  proof -
    let ?w = "rcv q"
    have fw: "0 \<le> f ?w" "f ?w < p" using f [OF r] by auto
    have "snd' ?w = (f ?w + Shift (f q) a p - Shift (f ?w) a p) mod p"
      using snd_eq [OF r] shift_rcv by simp
    also have "\<dots> = (f ?w - (f ?w - a) mod p + Shift (f q) a p) mod p"
      using sh [OF fw(1) a] by (simp add: algebra_simps)
    also have "\<dots> = (a + Shift (f q) a p) mod p" by (rule mod_sub_mod)
    also have "\<dots> = (a + (f q - a) mod p) mod p" using sh fq a by simp
    also have "\<dots> = f q" using fq by (simp add: mod_add_right_eq)
    finally show ?thesis .
  qed
qed

lemma vr_rank_sdiv: "grid_ok g \<Longrightarrow> 0 \<le> x \<Longrightarrow> x sdiv gheight g + gwidth g * (x smod gheight g) = vr_rank g x"
  by (simp add: vr_rank_def grow_def gcol_def grid_ok_def mult.commute)

text \<open>The exchange over \<open>VRComm\<close> matches, and the process a process receives from
  holds, in \<open>[VC,*]\<close> under \<open>A\<close>'s alignment, the rows the receiver owns in
  \<open>[VR,*]\<close> under the destination's.\<close>

lemma MR_STAR_vec_exchange:
  assumes g: "grid_ok (dgrid M)" and a: "0 \<le> colAlign M" "colAlign M < gsize (dgrid M)"
    and aA: "0 \<le> colAlign A" "colAlign A < gsize (dgrid M)"
  defines "X \<equiv> MR_STAR_MC_vec_xfer M A"
  shows "SendRecv_ok (dgrid M) VRComm X"
    and "\<And>q. q \<in> procs (dgrid M) \<Longrightarrow> comm_member (dgrid M) VRComm q (recvFrom (X q)) \<in> procs (dgrid M)"
    and "\<And>q. q \<in> procs (dgrid M) \<Longrightarrow>
           Shift (comm_member (dgrid M) VRComm q (recvFrom (X q))) (colAlign A) (gsize (dgrid M))
           = Shift (vr_rank (dgrid M) q) (colAlign M) (gsize (dgrid M))"
    and "\<And>q. sendOff (X q) = 0" "\<And>q. recvOff (X q) = gheight (dgrid M) * Pad (MaxLength (mheight M) (gsize (dgrid M)))"
    and "\<And>q. sendCount (X q) = Pad (MaxLength (mheight M) (gsize (dgrid M)))"
proof -
  let ?g = "dgrid M" let ?p = "gsize ?g"
  have p: "0 < ?p" using g by (simp add: grid_ok_def gsize_def)
  have f: "0 \<le> vr_rank ?g x \<and> vr_rank ?g x < ?p \<and> 0 \<le> vc_of_vr ?g x \<and> vc_of_vr ?g x < ?p
      \<and> vr_rank ?g (vc_of_vr ?g x) = x \<and> vc_of_vr ?g (vr_rank ?g x) = x" if "0 \<le> x" "x < ?p" for x
  proof -
    have x: "x \<in> procs ?g" using that by (simp add: procs_def)
    show ?thesis using vr_rank_range [OF g x] vc_of_vr_range [OF g that] vr_rank_vc_of_vr [OF g that]
        vc_of_vr_rank [OF g x] by simp
  qed
  have fi: "\<forall>x. 0 \<le> x \<and> x < ?p \<longrightarrow> 0 \<le> vr_rank ?g x \<and> vr_rank ?g x < ?p \<and> 0 \<le> vc_of_vr ?g x
      \<and> vc_of_vr ?g x < ?p \<and> vr_rank ?g (vc_of_vr ?g x) = x \<and> vc_of_vr ?g (vr_rank ?g x) = x"
    using f by blast
  note E = shift_exchange [OF p a aA fi]
  let ?snd = "\<lambda>q. (vr_rank ?g q + (?p + Shift q (colAlign A) ?p - Shift (vr_rank ?g q) (colAlign M) ?p)) smod ?p"
  let ?rcv = "\<lambda>q. (q + (?p + Shift (vr_rank ?g q) (colAlign M) ?p - Shift q (colAlign A) ?p)) smod ?p"
  have Xq: "X q = \<lparr>sendOff = 0, sendCount = Pad (MaxLength (mheight M) ?p), sendTo = ?snd q,
      recvOff = gheight ?g * Pad (MaxLength (mheight M) ?p), recvCount = Pad (MaxLength (mheight M) ?p),
      recvFrom = vr_rank ?g (?rcv q)\<rparr>" if q: "q \<in> procs ?g" for q
  proof -
    have "0 \<le> ?rcv q" using E(3) q by (simp add: procs_def)
    then show ?thesis by (simp add: X_def MR_STAR_MC_vec_xfer_def Let_def vr_rank_sdiv [OF g])
  qed
  show "\<And>q. sendOff (X q) = 0" "\<And>q. recvOff (X q) = gheight ?g * Pad (MaxLength (mheight M) ?p)"
    "\<And>q. sendCount (X q) = Pad (MaxLength (mheight M) ?p)"
    by (simp_all add: X_def MR_STAR_MC_vec_xfer_def Let_def)
  have mem: "comm_member ?g VRComm q (recvFrom (X q)) = ?rcv q" if q: "q \<in> procs ?g" for q
    using Xq [OF q] E(3,4) [of q] f [of "?rcv q"] q by (simp add: procs_def)
  show "comm_member ?g VRComm q (recvFrom (X q)) \<in> procs ?g" if q: "q \<in> procs ?g" for q
    using mem [OF q] E(3,4) [of q] q by (simp add: procs_def)
  show "Shift (comm_member ?g VRComm q (recvFrom (X q))) (colAlign A) ?p
      = Shift (vr_rank ?g q) (colAlign M) ?p" if q: "q \<in> procs ?g" for q
    using mem [OF q] E(7) [of q] q by (simp add: procs_def)
  show "SendRecv_ok ?g VRComm X"
    unfolding SendRecv_ok_def
  proof
    fix q assume q: "q \<in> procs ?g"
    then have q': "0 \<le> q" "q < ?p" by (simp_all add: procs_def)
    have s: "0 \<le> ?snd q" "?snd q < ?p" using E(1,2) [OF q'] .
    have r: "0 \<le> ?rcv q" "?rcv q < ?p" using E(3,4) [OF q'] .
    have w: "vc_of_vr ?g (?snd q) \<in> procs ?g" using f [OF s] by (simp add: procs_def)
    have rr: "?rcv q \<in> procs ?g" using r by (simp add: procs_def)
    show "0 \<le> sendTo (X q) \<and> sendTo (X q) < comm_size ?g VRComm
      \<and> 0 \<le> recvFrom (X q) \<and> recvFrom (X q) < comm_size ?g VRComm
      \<and> recvFrom (X (comm_member ?g VRComm q (sendTo (X q)))) = comm_rank ?g VRComm q
      \<and> sendTo (X (comm_member ?g VRComm q (recvFrom (X q)))) = comm_rank ?g VRComm q
      \<and> sendCount (X (comm_member ?g VRComm q (recvFrom (X q)))) \<le> recvCount (X q)"
      using Xq [OF q] Xq [OF w] Xq [OF rr] s f [OF r] E(5,6) [OF q'] vr_rank_range [OF g rr]
      by simp
  qed
qed

section \<open>Reading the loops back\<close>

lemma for_loop2_one: "for_loop2 1 m body s = for_loop m (\<lambda>i. body i 0) s"
  by (simp add: for_loop2_def for_loop_def)

text \<open>The unpack of the vector path is the unpack of \<open>[MC,MR] = [VC,*]\<close> with the
  grid's two sides exchanged, for one column.\<close>

lemma unpack_MR_STAR_vec_eq:
  "unpack_MR_STAR_vec r c myCol a colShift height P buf loc
   = unpack_VC_STAR c r myCol colShift a height 1 P 0 buf loc"
  unfolding unpack_MR_STAR_vec_def unpack_VC_STAR_def for_loop2_one Let_def
  by (simp only: add_0_left mult_zero_left add_0_right mult.commute)

lemma pack_MC_STAR_vec_at:
  assumes "0 \<le> iLoc" "iLoc < Length height (Shift q aA (r * c)) (r * c)"
  shows "pack_MC_STAR_vec r c q aA csA height ABuf buf iLoc
         = ABuf ((Shift q aA (r * c) - csA) sdiv r + iLoc * c, 0)"
  using assms unfolding pack_MC_STAR_vec_def Let_def
  by (intro for_loop_upd_at [where pos = "\<lambda>i. i", simplified]) simp_all

lemma MC_STAR_dm:
  assumes "is_MC_STAR A" "dm_wf A"
  shows "ColStride A = gheight (dgrid A)" "RowStride A = 1" "Participating A q" "RowShift A q = 0"
    "ColShift A q = Shift (grow (dgrid A) q) (colAlign A) (gheight (dgrid A))"
    "LocalWidth A q = max 0 (mwidth A)"
    "LocalHeight A q = Length (mheight A) (Shift (grow (dgrid A) q) (colAlign A) (gheight (dgrid A))) (gheight (dgrid A))"
proof -
  have "rowAlign A = 0" using assms by (simp add: dm_wf_def is_MC_STAR_def RowStride_def)
  then show "ColStride A = gheight (dgrid A)" "RowStride A = 1" "Participating A q" "RowShift A q = 0"
    "ColShift A q = Shift (grow (dgrid A) q) (colAlign A) (gheight (dgrid A))"
    "LocalWidth A q = max 0 (mwidth A)"
    "LocalHeight A q = Length (mheight A) (Shift (grow (dgrid A) q) (colAlign A) (gheight (dgrid A))) (gheight (dgrid A))"
    using assms by (simp_all add: is_MC_STAR_def dm_defs Shift_def Length_def)
qed

text \<open>What the filter of process \<open>q\<close> packs: its \<open>[VC,*]\<close> rows of the global
  column vector.\<close>

lemma MC_STAR_vec_source:
  assumes A: "is_MC_STAR A" and wfA: "dm_wf A" and hA: "holds A G" and w: "mwidth A = 1"
    and q: "q \<in> procs (dgrid A)"
    and i: "0 \<le> iLoc" "iLoc < Length (mheight A) (Shift q (colAlign A) (gsize (dgrid A))) (gsize (dgrid A))"
  shows "pack_MC_STAR_vec (gheight (dgrid A)) (gwidth (dgrid A)) q (colAlign A) (ColShift A q) (mheight A)
           (locals A q) buf iLoc
         = G (Shift q (colAlign A) (gsize (dgrid A)) + iLoc * gsize (dgrid A), 0)"
proof -
  let ?g = "dgrid A" let ?r = "gheight ?g" let ?c = "gwidth ?g" let ?p = "gsize ?g"
  note dmA = MC_STAR_dm [OF A wfA]
  have ok: "grid_ok ?g" using wfA by (simp add: dm_wf_def)
  then have r: "0 < ?r" and c: "0 < ?c" by (simp_all add: grid_ok_def)
  have ps: "?p = ?r * ?c" by (simp add: gsize_def)
  have p0: "0 < ?p" using r c ps by simp
  have aA: "0 \<le> colAlign A" "colAlign A < ?r" using wfA dmA(1) by (simp_all add: dm_wf_def)
  have "?r \<le> ?r * ?c" using r c by simp
  then have aAp: "colAlign A < ?r * ?c" using aA(2) by linarith
  define sh where "sh = Shift q (colAlign A) ?p"
  define cs where "cs = ColShift A q"
  have gr: "0 \<le> grow ?g q" "grow ?g q < ?r" using grow_range [OF ok] by auto
  have gc: "0 \<le> gcol ?g q" using gcol_range [OF ok q] by simp
  have qe: "q = grow ?g q + gcol ?g q * ?r" using vc_rowcol [OF ok, of q] by simp
  have cs_eq: "cs = (grow ?g q - colAlign A) mod ?r"
    using dmA(5) aA gr by (simp add: cs_def Shift_eq)
  have sh_mod: "sh mod ?r = cs"
    using VC_shift_mod [OF r c gr(1) aA(1) aAp gc] qe cs_eq ps by (simp add: sh_def)
  have sh0: "0 \<le> sh" using q aA aAp ps by (simp add: sh_def Shift_range procs_def)
  note so = shift_offset [OF r sh0 sh_mod]
  define x where "x = (sh - cs) sdiv ?r + iLoc * ?c"
  have "0 \<le> sh div ?r" using sh0 r by (simp add: pos_imp_zdiv_nonneg_iff)
  moreover have "0 \<le> iLoc * ?c" using i(1) c by simp
  ultimately have x0: "0 \<le> x" using so(2) by (simp add: x_def)
  have gx: "cs + x * ?r = sh + iLoc * ?p"
    using so(3) by (simp add: x_def ps algebra_simps)
  have "sh + iLoc * ?p < mheight A" using i Length_iff [OF p0 i(1)] by (simp add: sh_def)
  then have "cs + x * ?r < mheight A" using gx by simp
  then have xl: "x < LocalHeight A q" using Length_iff [OF r x0] dmA(7) dmA(5) by (simp add: cs_def)
  have wl: "0 < LocalWidth A q" using dmA(6) w by simp
  have "\<forall>iLoc\<in>{0..<LocalHeight A q}. \<forall>jLoc\<in>{0..<LocalWidth A q}.
      locals A q (iLoc, jLoc) = G (ColShift A q + iLoc * ColStride A, RowShift A q + jLoc * RowStride A)"
    using hA q dmA(3) unfolding holds_def by blast
  moreover have "x \<in> {0..<LocalHeight A q}" "0 \<in> {0..<LocalWidth A q}" using x0 xl wl by simp_all
  ultimately have "locals A q (x, 0) = G (ColShift A q + x * ColStride A, RowShift A q + 0 * RowStride A)"
    by blast
  then have loc: "locals A q (x, 0) = G (sh + iLoc * ?p, 0)" using gx dmA(1) dmA(4) by (simp add: cs_def)
  have "pack_MC_STAR_vec ?r ?c q (colAlign A) (ColShift A q) (mheight A) (locals A q) buf iLoc
        = locals A q (x, 0)"
    using pack_MC_STAR_vec_at [of iLoc "mheight A" q "colAlign A" ?r ?c "ColShift A q" "locals A q" buf] i ps
    by (simp add: x_def sh_def cs_def)
  then show ?thesis using loc by (simp add: sh_def)
qed


lemma dm_wf_height: "dm_wf M \<Longrightarrow> 0 \<le> mheight M"
  unfolding dm_wf_def by blast

lemma dm_wf_same_layout: "same_layout M N \<Longrightarrow> dm_wf N \<Longrightarrow> dm_wf M"
  unfolding dm_wf_def same_layout_def ColStride_def RowStride_def by simp

text \<open>The \<open>k\<close>-th member of a process's grid column sits in grid row \<open>k\<close>; its
  row-major rank is \<open>myCol + c k\<close>.\<close>

lemma MC_member_vr:
  assumes g: "grid_ok g" and q: "q \<in> procs g" and k: "0 \<le> k" "k < gheight g"
  shows "comm_member g MCComm q k \<in> procs g"
    and "vr_rank g (comm_member g MCComm q k) = gcol g q + k * gwidth g"
proof -
  have r: "0 < gheight g" using g by (simp add: grid_ok_def)
  have c: "0 \<le> gcol g q" "gcol g q < gwidth g" using gcol_range [OF g q] by auto
  have "(k + gcol g q * gheight g) div gheight g = gcol g q" "(k + gcol g q * gheight g) mod gheight g = k"
    using k r by simp_all
  then show "vr_rank g (comm_member g MCComm q k) = gcol g q + k * gwidth g"
    by (simp add: vr_rank_def grow_def gcol_def)
  have "gcol g q * gheight g \<le> (gwidth g - 1) * gheight g" using c r by (intro mult_right_mono) auto
  then show "comm_member g MCComm q k \<in> procs g"
    using k c r by (simp add: procs_def gsize_def algebra_simps)
qed

text \<open>After the exchange and the all-gather, block \<open>k\<close> of a process's buffer holds
  the \<open>[VR,*]\<close> rows of row-major rank \<open>myCol + c k\<close> under the destination's
  alignment.\<close>

lemma MR_STAR_vec_block:
  assumes M: "is_MR_STAR M" and A: "is_MC_STAR A" and g: "dgrid A = dgrid M"
    and wfM: "dm_wf M" and wfA: "dm_wf A" and hA: "holds A G" and w: "mwidth A = 1"
    and h: "mheight M = mheight A"
    and SR: "SendRecv (dgrid M) VRComm (MR_STAR_MC_vec_xfer M A)
      (\<lambda>q. pack_MC_STAR_vec (gheight (dgrid M)) (gwidth (dgrid M)) q (colAlign A) (ColShift A q)
             (mheight M) (locals A q) (B q)) = Some mem1"
    and q: "q \<in> procs (dgrid M)" and k: "0 \<le> k" "k < gheight (dgrid M)"
    and i: "0 \<le> iLoc" "iLoc < Length (mheight M)
      (Shift (gcol (dgrid M) q + k * gwidth (dgrid M)) (colAlign M) (gsize (dgrid M))) (gsize (dgrid M))"
  shows "AllGather (dgrid M) MCComm (Pad (MaxLength (mheight M) (gsize (dgrid M))))
           (gheight (dgrid M) * Pad (MaxLength (mheight M) (gsize (dgrid M)))) 0 mem1 q
           (k * Pad (MaxLength (mheight M) (gsize (dgrid M))) + iLoc)
         = G (Shift (gcol (dgrid M) q + k * gwidth (dgrid M)) (colAlign M) (gsize (dgrid M))
              + iLoc * gsize (dgrid M), 0)"
proof -
  let ?g = "dgrid M" let ?r = "gheight ?g" let ?c = "gwidth ?g" let ?p = "gsize ?g"
  let ?P = "Pad (MaxLength (mheight M) ?p)"
  let ?sh = "Shift (gcol ?g q + k * ?c) (colAlign M) ?p"
  define X where "X = MR_STAR_MC_vec_xfer M A"
  have ok: "grid_ok ?g" using wfM by (simp add: dm_wf_def)
  then have r: "0 < ?r" and c: "0 < ?c" by (simp_all add: grid_ok_def)
  have ps: "?p = ?r * ?c" by (simp add: gsize_def)
  have rp: "?r \<le> ?p" "?c \<le> ?p" using r c ps by simp_all
  have aM: "0 \<le> colAlign M" "colAlign M < ?c"
    using wfM MR_STAR_dm(1) [OF M wfM] by (simp_all add: dm_wf_def del: MR_STAR_dm)
  have aA: "0 \<le> colAlign A" "colAlign A < ?r"
    using wfA MC_STAR_dm(1) [OF A wfA] g by (simp_all add: dm_wf_def)
  have aMp: "colAlign M < ?p" and aAp: "colAlign A < ?p" using aM aA rp by linarith+
  note E = MR_STAR_vec_exchange [OF ok aM(1) aMp aA(1) aAp, folded X_def]
  define q' where "q' = comm_member ?g MCComm q k"
  have q': "q' \<in> procs ?g" "vr_rank ?g q' = gcol ?g q + k * ?c"
    using MC_member_vr [OF ok q k] by (simp_all add: q'_def)
  define src where "src = comm_member ?g VRComm q' (recvFrom (X q'))"
  have src: "src \<in> procs (dgrid A)" using E(2) [OF q'(1)] g by (simp add: src_def)
  have shs: "Shift src (colAlign A) ?p = ?sh" using E(3) [OF q'(1)] q'(2) by (simp add: src_def)
  have sh0: "0 \<le> ?sh" using gcol_range [OF ok q] k c aM aMp by (intro Shift_range) auto
  have iP: "iLoc < ?P"
    using i(2) Length_le_MaxLength [OF _ sh0, of ?p "mheight M"] Pad_ge(1) [of "MaxLength (mheight M) ?p"] r c ps
    by (simp add: order_less_le_trans)
  have "AllGather ?g MCComm ?P (?r * ?P) 0 mem1 q (k * ?P + iLoc) = mem1 q' (?r * ?P + iLoc)"
    using AllGather_at [of k ?g MCComm iLoc ?P "?r * ?P" 0 mem1 q] k i(1) iP by (simp add: q'_def)
  also have "\<dots> = pack_MC_STAR_vec ?r ?c src (colAlign A) (ColShift A src) (mheight M) (locals A src) (B src) iLoc"
    using SendRecv_at [OF SR [folded X_def], of iLoc q'] E(4,5,6) i(1) iP by (simp add: src_def)
  also have "\<dots> = G (?sh + iLoc * ?p, 0)"
  proof -
    have "iLoc < Length (mheight A) (Shift src (colAlign A) (gsize (dgrid A))) (gsize (dgrid A))"
      using i(2) shs g h by simp
    from MC_STAR_vec_source [OF A wfA hA w src i(1) this, of "B src"] show ?thesis
      using shs g h by simp
  qed
  finally show ?thesis .
qed


text \<open>The vector path delivers the global column vector in \<open>[MR,*]\<close>.\<close>

lemma MR_STAR_from_MC_STAR_vec_correct:
  assumes M0: "is_MR_STAR M0" and A: "is_MC_STAR A" and g: "dgrid A = dgrid M0"
    and wf0: "dm_wf M0" and wfA: "dm_wf A" and hA: "holds A G" and w: "mwidth A = 1"
  shows "\<exists>M'. MR_STAR_from_MC_STAR gather M0 A = Inr M' \<and> holds M' G
           \<and> same_layout M' (Resize (mheight A) 1 M0)"
proof -
  define M where "M = Resize (mheight A) 1 M0"
  let ?g = "dgrid M" let ?r = "gheight ?g" let ?c = "gwidth ?g" let ?p = "gsize ?g"
  define P where "P = Pad (MaxLength (mheight M) ?p)"
  define M1 where "M1 = RequireAll ((?r + 1) * P) M"
  define sent where "sent = (\<lambda>q. pack_MC_STAR_vec ?r ?c q (colAlign A) (ColShift A q) (mheight M)
                                  (locals A q) (auxMem M1 q))"
  have Mf: "is_MR_STAR M" "dgrid A = ?g" "mheight M = mheight A" "mwidth M = 1"
    using M0 g by (simp_all add: M_def Resize_def is_MR_STAR_def)
  have wfM: "dm_wf M" unfolding M_def by (rule dm_wf_Resize [OF wf0 dm_wf_height [OF wfA]]) simp
  have ok: "grid_ok ?g" using wfM by (simp add: dm_wf_def)
  then have r: "0 < ?r" and c: "0 < ?c" by (simp_all add: grid_ok_def)
  have aM: "0 \<le> colAlign M" "colAlign M < ?c"
    using wfM MR_STAR_dm(1) [OF Mf(1) wfM] by (simp_all add: dm_wf_def del: MR_STAR_dm)
  have aA: "0 \<le> colAlign A" "colAlign A < ?r"
    using wfA MC_STAR_dm(1) [OF A wfA] Mf(2) by (simp_all add: dm_wf_def)
  have "?r \<le> ?p" "?c \<le> ?p" using r c by (simp_all add: gsize_def)
  then have aMp: "colAlign M < ?p" and aAp: "colAlign A < ?p" using aM aA by linarith+
  obtain mem1 where SR: "SendRecv ?g VRComm (MR_STAR_MC_vec_xfer M A) sent = Some mem1"
    using SendRecv_Some [OF MR_STAR_vec_exchange(1) [OF ok aM(1) aMp aA(1) aAp]] by blast
  define mem2 where "mem2 = AllGather ?g MCComm P (?r * P) 0 mem1"
  define L where "L = (\<lambda>q. unpack_MR_STAR_vec ?r ?c (gcol ?g q) (colAlign M) (ColShift M q)
                              (mheight M) P (mem2 q) (locals M q))"
  have run: "MR_STAR_from_MC_STAR gather M0 A = Inr (M1\<lparr>auxMem := mem2, locals := L\<rparr>)"
    using w SR unfolding MR_STAR_from_MC_STAR_def Let_def
    by (simp flip: M_def P_def M1_def sent_def mem2_def L_def)
  have hM: "holds (M\<lparr>locals := L\<rparr>) G"
  proof (rule holds_locals_intro)
    fix q i j assume q: "q \<in> procs ?g" and "Participating M q" and i: "0 \<le> i" "i < LocalHeight M q"
      and j: "0 \<le> j" "j < LocalWidth M q"
    note dmM = MR_STAR_dm [OF Mf(1) wfM]
    have cs: "ColShift M q = (gcol ?g q - colAlign M) mod ?c"
      using dmM(5) aM gcol_range [OF ok q] by (simp add: Shift_eq)
    have i': "i < Length (mheight M) (ColShift M q) ?c" using i(2) dmM(5,7) by simp
    have j': "j < 1" using j(2) dmM(6) Mf(4) by simp
    have blk: "mem2 q (0 + k * P + jLoc * Length (mheight M) (Shift (gcol ?g q + k * ?c) (colAlign M) (?c * ?r)) (?c * ?r) + iLoc)
        = G (Shift (gcol ?g q + k * ?c) (colAlign M) (?c * ?r) + iLoc * (?c * ?r), jLoc)"
      if "0 \<le> k" "k < ?r" "0 \<le> jLoc" "jLoc < 1" "0 \<le> iLoc"
         "iLoc < Length (mheight M) (Shift (gcol ?g q + k * ?c) (colAlign M) (?c * ?r)) (?c * ?r)" for k jLoc iLoc
    proof -
      have "jLoc = 0" using that(3,4) by simp
      then show ?thesis
        using MR_STAR_vec_block [OF Mf(1) A Mf(2) wfM wfA hA w Mf(3) SR [unfolded sent_def] q that(1,2) that(5)] that(6)
        by (simp add: mem2_def P_def gsize_def mult.commute)
    qed
    have "unpack_VC_STAR ?c ?r (gcol ?g q) (ColShift M q) (colAlign M) (mheight M) 1 P 0 (mem2 q) (locals M q) (i, j)
        = G (ColShift M q + i * ?c, j)"
      using unpack_VC_STAR_at [where V = G and buf = "mem2 q" and base = 0 and portion = P and lw = 1,
        OF c r _ _ _ _ cs blk i(1) i' j(1) j'] gcol_range [OF ok q] aM aMp
      by (simp add: gsize_def mult.commute)
    then show "L q (i, j) = G (ColShift M q + i * ColStride M, RowShift M q + j * RowStride M)"
      using dmM(1,2,4) j j' by (simp add: L_def unpack_MR_STAR_vec_eq)
  qed
  have "same_layout (M1\<lparr>auxMem := mem2, locals := L\<rparr>) (M\<lparr>locals := L\<rparr>)"
    by (simp add: same_layout_def M1_def RequireAll_def)
  then have "holds (M1\<lparr>auxMem := mem2, locals := L\<rparr>) G" using hM holds_same_layout by fastforce
  moreover have "same_layout (M1\<lparr>auxMem := mem2, locals := L\<rparr>) (Resize (mheight A) 1 M0)"
    by (simp add: same_layout_def M1_def RequireAll_def M_def)
  ultimately show ?thesis using run by blast
qed

text \<open>Two matrices of the same layout that hold the same global matrix store the
  same entries.\<close>

lemma holds_at:
  assumes "holds M G" "q \<in> procs (dgrid M)" "Participating M q"
    "0 \<le> i" "i < LocalHeight M q" "0 \<le> j" "j < LocalWidth M q"
  shows "locals M q (i, j) = G (ColShift M q + i * ColStride M, RowShift M q + j * RowStride M)"
proof -
  have "i \<in> {0..<LocalHeight M q}" "j \<in> {0..<LocalWidth M q}" using assms(4-7) by simp_all
  then show ?thesis using assms(1-3) unfolding holds_def by blast
qed

lemma holds_agree:
  assumes l: "same_layout M N" and hM: "holds M G" and hN: "holds N G"
    and q: "q \<in> procs (dgrid M)" "Participating M q"
    and i: "0 \<le> i" "i < LocalHeight M q" and j: "0 \<le> j" "j < LocalWidth M q"
  shows "locals M q (i, j) = locals N q (i, j)"
proof -
  note s = same_layout_dm [OF l]
  have g: "dgrid M = dgrid N" using l by (simp add: same_layout_def)
  have "locals N q (i, j) = G (ColShift N q + i * ColStride N, RowShift N q + j * RowStride N)"
    using q i j g s by (intro holds_at [OF hN]) simp_all
  then show ?thesis using holds_at [OF hM q i j] s by simp
qed

lemma MR_STAR_from_MC_MR_delivers:
  assumes ga: "gather_ok gather G" and M: "is_MR_STAR M" and wfM: "dm_wf M"
    and wfA: "dm_wf A" and hA: "holds A G"
  shows "delivers M A G (MR_STAR_from_MC_MR gather M A)"
proof -
  have gr: "grid_ok (dgrid M)" using wfM by (rule grid_ok_wf)
  have a: "0 \<le> colAlign M" "colAlign M < gsize (dgrid M)"
    using M wfM stride_le_gsize [OF gr] by (auto simp: dm_wf_def is_MR_STAR_def ColStride_def)
  show ?thesis
    using ga gr a wfA hA wfM
    by (simp add: delivers_def MR_STAR_from_MC_MR_def MR_STAR_from_VR_STAR_def Let_def route_simps)
qed

section \<open>Properties\<close>

text \<open>C21. \<open>[MR,*] = [MC,*]\<close> delivers the source's global matrix in \<open>[MR,*]\<close> on
  the shared grid, at the source's size: a column vector through the filter, the
  point-to-point exchange over \<open>VRComm\<close> and the all-gather over the grid column,
  which cannot fail; a wider matrix through \<open>[VC,*]\<close> and \<open>[VR,*]\<close>.\<close>

theorem MR_STAR_from_MC_STAR_delivers:
  assumes ga: "gather_ok gather G" and M0: "is_MR_STAR M0" and wf0: "dm_wf M0"
    and A: "is_MC_STAR A" and wfA: "dm_wf A" and hA: "holds A G" and g: "dgrid A = dgrid M0"
  shows "\<exists>M'. MR_STAR_from_MC_STAR gather M0 A = Inr M' \<and> delivers M0 A G M'"
proof (cases "mwidth A = 1")
  case True
  obtain M' where "MR_STAR_from_MC_STAR gather M0 A = Inr M'" "holds M' G"
      "same_layout M' (Resize (mheight A) 1 M0)"
    using MR_STAR_from_MC_STAR_vec_correct [OF M0 A g wf0 wfA hA True] by blast
  then show ?thesis using True by (auto simp: delivers_def same_layout_def Resize_def)
next
  case False
  then show ?thesis
    using MR_STAR_from_MC_MR_delivers [OF ga M0 wf0 wfA hA] by (simp add: MR_STAR_from_MC_STAR_def)
qed

end
