(* ===== verification/RQ.thy ===== *)
theory RQ
  imports Prelude
begin

text \<open>
  The blocked RQ factorisation \<open>rq::Householder\<close>
  (\<open>src/include/elemental/lapack-like/RQ/Householder.hpp\<close>), a numerical client of
  the engine. Its own logic is the panel schedule: starting at
  \<open>kLast = LastOffset(minDim, bsize)\<close> and stepping down by \<open>bsize\<close>, each step takes
  the \<open>nb \<times> (kj + nb)\<close> panel at row \<open>ki\<close> of \<open>A\<close>, the rows above it, and the
  \<open>nb\<close> entries of \<open>t\<close> at \<open>k\<close>, factors the panel (\<open>PanelHouseholder\<close>) and applies
  its reflectors to the rows above (\<open>ApplyQ\<close>). The kernels, \<open>LastOffset\<close>, the
  resize of \<open>t\<close> and the \<open>[MD,*]\<close> diagonal-alignment queries are not under
  \<open>src/\<close>; they are the fields of an environment \<open>rq_env\<close>, acting on an abstract
  state \<open>'s\<close> that holds \<open>A\<close> and \<open>t\<close>. A view is \<open>View(A, i, j, height, width)\<close>.
  The loop \<open>for (k = kLast; k >= 0; k -= bsize)\<close> does not end when \<open>bsize \<le> 0\<close>,
  so it is a \<open>partial_function (option)\<close>: \<open>None\<close> is a loop that never returns.
\<close>

section \<open>Definitions\<close>

record view =
  vRow :: int
  vCol :: int
  vHeight :: int
  vWidth :: int

definition View :: "int \<Rightarrow> int \<Rightarrow> int \<Rightarrow> int \<Rightarrow> view" where
  "View i j h w = \<lparr>vRow = i, vCol = j, vHeight = h, vWidth = w\<rparr>"

text \<open>\<open>View\<close>'s range check: the window lies inside an \<open>h \<times> w\<close> matrix.\<close>

definition view_in :: "int \<Rightarrow> int \<Rightarrow> view \<Rightarrow> bool" where
  "view_in h w v \<longleftrightarrow> 0 \<le> vRow v \<and> 0 \<le> vCol v \<and> 0 \<le> vHeight v \<and> 0 \<le> vWidth v
     \<and> vRow v + vHeight v \<le> h \<and> vCol v + vWidth v \<le> w"

record 's rq_env =
  rq_last_offset :: "int \<Rightarrow> int \<Rightarrow> int"
  rq_panel :: "view \<Rightarrow> view \<Rightarrow> 's \<Rightarrow> 's"
  rq_applyq :: "view \<Rightarrow> view \<Rightarrow> view \<Rightarrow> 's \<Rightarrow> 's"
  rq_resize_t :: "int \<Rightarrow> int \<Rightarrow> 's \<Rightarrow> 's"
  rq_same_grid :: "'s \<Rightarrow> bool"
  rq_t_viewing :: "'s \<Rightarrow> bool"
  rq_aligned_diag :: "int \<Rightarrow> 's \<Rightarrow> bool"
  rq_align_diag :: "int \<Rightarrow> 's \<Rightarrow> 's"

text \<open>What \<open>LastOffset(n, bsize)\<close> must return: the start of the last block of
  \<open>bsize\<close> in \<open>[0, n)\<close>, a multiple of \<open>bsize\<close> (\<open>-bsize\<close> when \<open>n = 0\<close>).\<close>

definition last_offset_ok :: "(int \<Rightarrow> int \<Rightarrow> int) \<Rightarrow> bool" where
  "last_offset_ok lo \<longleftrightarrow> (\<forall>n b. 0 \<le> n \<longrightarrow> 0 < b \<longrightarrow>
     lo n b < n \<and> n - b \<le> lo n b \<and> lo n b mod b = 0)"

text \<open>The offsets of lines 31--32 (and 85--86).\<close>

definition rq_offsets :: "int \<Rightarrow> int \<Rightarrow> int \<times> int" where
  "rq_offsets m n = (if n \<ge> m then (0, n - m) else (m - n, 0))"

text \<open>The views of one step (lines 38--43): \<open>ATopPan\<close>, \<open>ABottomPan\<close>, \<open>t1\<close>.\<close>

definition rq_views :: "int \<Rightarrow> int \<Rightarrow> int \<Rightarrow> int \<Rightarrow> int \<Rightarrow> view \<times> view \<times> view" where
  "rq_views bsize minDim iOff jOff k =
     (let nb = min bsize (minDim - k); ki = k + iOff; kj = k + jOff
      in (View 0 0 ki (kj + nb), View ki 0 nb (kj + nb), View k 0 nb 1))"

text \<open>The loop body (lines 38--46).\<close>

definition rq_step :: "'s rq_env \<Rightarrow> int \<Rightarrow> int \<Rightarrow> int \<Rightarrow> int \<Rightarrow> int \<Rightarrow> 's \<Rightarrow> 's" where
  "rq_step env bsize minDim iOff jOff k s =
     (case rq_views bsize minDim iOff jOff k of (ATopPan, ABottomPan, t1) \<Rightarrow>
        rq_applyq env ABottomPan t1 ATopPan (rq_panel env ABottomPan t1 s))"

text \<open>The loop (line 36).\<close>

partial_function (option) rq_loop ::
  "'s rq_env \<Rightarrow> int \<Rightarrow> int \<Rightarrow> int \<Rightarrow> int \<Rightarrow> int \<Rightarrow> 's \<Rightarrow> 's option" where
  "rq_loop env bsize minDim iOff jOff k s =
     (if 0 \<le> k then rq_loop env bsize minDim iOff jOff (k - bsize) (rq_step env bsize minDim iOff jOff k s)
      else Some s)"

text \<open>\<open>rq::Householder(A, t)\<close> on a local matrix of size \<open>m \<times> n\<close> (lines 19--48).\<close>

definition rq_Householder :: "'s rq_env \<Rightarrow> int \<Rightarrow> int \<Rightarrow> int \<Rightarrow> 's \<Rightarrow> 's option" where
  "rq_Householder env bsize m n s =
     (let minDim = min m n;
          s1 = rq_resize_t env minDim 1 s;
          (iOff, jOff) = rq_offsets m n;
          kLast = rq_last_offset env minDim bsize
      in rq_loop env bsize minDim iOff jOff kLast s1)"

text \<open>\<open>rq::Householder(A, t)\<close> on an \<open>[MC,MR]\<close> matrix with \<open>t\<close> in \<open>[MD,*]\<close>
  (lines 61--102): the grid check is debug-only; a viewing \<open>t\<close> must already be
  aligned with the diagonal of offset \<open>n - m\<close>, any other \<open>t\<close> is aligned with it.\<close>

definition rq_Householder_dist :: "'s rq_env \<Rightarrow> build \<Rightarrow> int \<Rightarrow> int \<Rightarrow> int \<Rightarrow> 's \<Rightarrow> 's exn option" where
  "rq_Householder_dist env bld bsize m n s =
     (if bld = Debug \<and> \<not> rq_same_grid env s
      then Some (Inl (LogicError ''{A,s} must be distributed over the same grid'', s))
      else
        (let minDim = min m n; offset = n - m
         in if rq_t_viewing env s \<and> \<not> rq_aligned_diag env offset s
            then Some (Inl (LogicError ''t was not aligned with A'', s))
            else
              (let s1 = (if rq_t_viewing env s then s else rq_align_diag env offset s);
                   s2 = rq_resize_t env minDim 1 s1;
                   (iOff, jOff) = rq_offsets m n;
                   kLast = rq_last_offset env minDim bsize
               in map_option Inr (rq_loop env bsize minDim iOff jOff kLast s2))))"

text \<open>The offsets the loop visits, as a list: \<open>k, k - bsize, \<dots>\<close> while non-negative.\<close>

fun rq_offs :: "int \<Rightarrow> int \<Rightarrow> nat \<Rightarrow> int list" where
  "rq_offs b k 0 = []"
| "rq_offs b k (Suc n) = k # rq_offs b (k - b) n"

definition rq_schedule :: "int \<Rightarrow> int \<Rightarrow> int list" where
  "rq_schedule b k = rq_offs b k (nat (k div b + 1))"

section \<open>The schedule\<close>

lemma down_induct:
  assumes b: "0 < (b::int)" and step: "\<And>k. (0 \<le> k \<Longrightarrow> P (k - b)) \<Longrightarrow> P k"
  shows "P k"
proof (induction "nat (k + 1)" arbitrary: k rule: less_induct)
  case less
  show ?case
  proof (rule step)
    assume "0 \<le> k"
    then have "nat (k - b + 1) < nat (k + 1)" using b by simp
    then show "P (k - b)" by (rule less)
  qed
qed

lemma rq_schedule_simps:
  assumes b: "0 < b"
  shows "rq_schedule b k = (if 0 \<le> k then k # rq_schedule b (k - b) else [])"
proof (cases "0 \<le> k")
  case True
  have "(k - b + b) div b = (k - b) div b + 1" using b by (simp only: div_add_self2)
  then have d: "(k - b) div b = k div b - 1" by simp
  have "0 \<le> k div b" using True b by (simp add: pos_imp_zdiv_nonneg_iff)
  then have "nat (k div b + 1) = Suc (nat ((k - b) div b + 1))" using d by simp
  then show ?thesis using True by (simp add: rq_schedule_def)
next
  case False
  then have "k div b < 0" using b by (simp add: pos_imp_zdiv_neg_iff)
  then show ?thesis using False by (simp add: rq_schedule_def)
qed

lemma rq_loop_fold:
  assumes b: "0 < bsize"
  shows "rq_loop env bsize minDim iOff jOff k s
         = Some (fold (rq_step env bsize minDim iOff jOff) (rq_schedule bsize k) s)"
proof (induction k arbitrary: s rule: down_induct [OF b])
  case (1 k)
  then show ?case
    by (cases "0 \<le> k") (simp_all add: rq_loop.simps [of env bsize minDim iOff jOff k] rq_schedule_simps [OF b])
qed

lemma rq_schedule_mem:
  assumes b: "0 < b"
  shows "x \<in> set (rq_schedule b k) \<longleftrightarrow> 0 \<le> x \<and> x \<le> k \<and> b dvd (k - x)"
proof (induction k rule: down_induct [OF b])
  case (1 k)
  show ?case
  proof (cases "0 \<le> k")
    case True
    have "x \<le> k - b \<and> b dvd (k - b - x) \<longleftrightarrow> x < k \<and> b dvd (k - x)"
    proof
      assume "x < k \<and> b dvd (k - x)"
      then obtain d where d: "k - x = b * d" "0 < k - x" by (auto elim: dvdE)
      then have "0 < d" using b by (simp add: zero_less_mult_iff)
      then have "b \<le> k - x" using d b by (simp add: mult_le_cancel_left1)
      moreover have "b dvd (k - b - x)" using d by (simp add: algebra_simps)
      ultimately show "x \<le> k - b \<and> b dvd (k - b - x)" by simp
    next
      assume h: "x \<le> k - b \<and> b dvd (k - b - x)"
      then have "b dvd (k - b - x) + b" by (intro dvd_add) simp_all
      then have "b dvd (k - x)" by simp
      moreover have "x < k" using h b by simp
      ultimately show "x < k \<and> b dvd (k - x)" by simp
    qed
    then show ?thesis using True "1" by (auto simp: rq_schedule_simps [OF b, of k])
  next
    case False
    then show ?thesis by (simp add: rq_schedule_simps [OF b, of k])
  qed
qed

lemma div_between:
  fixes x b d :: int
  assumes "0 < b" "d * b \<le> x" "x < (d + 1) * b"
  shows "x div b = d"
proof -
  have r: "0 \<le> x - d * b" "x - d * b < b" using assms by (simp_all add: algebra_simps)
  have "x div b = (x - d * b + d * b) div b" by simp
  also have "\<dots> = d + (x - d * b) div b" using assms(1) by (simp only: div_mult_self1)
  also have "(x - d * b) div b = 0" using r by (rule div_pos_pos_trivial)
  finally show ?thesis by simp
qed

lemma last_offset_okE:
  assumes "last_offset_ok lo" "0 \<le> n" "0 < b"
  shows "lo n b < n" "n - b \<le> lo n b" "b dvd lo n b"
  using assms unfolding last_offset_ok_def by (auto simp: dvd_eq_mod_eq_0)

lemma rq_offsets_cases:
  "rq_offsets m n = (0, n - m) \<and> min m n = m \<or> rq_offsets m n = (m - n, 0) \<and> min m n = n \<and> n < m"
  by (simp add: rq_offsets_def)

section \<open>Properties\<close>

text \<open>C22. With a positive block size the panel loop of \<open>rq::Householder\<close> always
  returns, having run the loop body at \<open>kLast, kLast - bsize, \<dots>\<close> down to the last
  non-negative offset, in that order.\<close>

theorem rq_Householder_terminates:
  assumes b: "0 < bsize"
  shows "rq_Householder env bsize m n s
         = Some (fold (rq_step env bsize (min m n) (fst (rq_offsets m n)) (snd (rq_offsets m n)))
                  (rq_schedule bsize (rq_last_offset env (min m n) bsize))
                  (rq_resize_t env (min m n) 1 s))"
  by (simp add: rq_Householder_def Let_def rq_loop_fold [OF b] split: prod.split)

text \<open>C23. Every view the loop takes passes \<open>View\<close>'s range check: the top and
  bottom panels lie inside the \<open>m \<times> n\<close> matrix \<open>A\<close>, \<open>t1\<close> inside the
  \<open>minDim \<times> 1\<close> vector \<open>t\<close>, and no panel is empty, for every offset the loop
  visits.\<close>

theorem rq_panels_in_range:
  assumes lo: "last_offset_ok (rq_last_offset env)" and b: "0 < bsize" and m: "0 \<le> m" and n: "0 \<le> n"
    and k: "k \<in> set (rq_schedule bsize (rq_last_offset env (min m n) bsize))"
  shows "case rq_views bsize (min m n) (fst (rq_offsets m n)) (snd (rq_offsets m n)) k of
           (ATopPan, ABottomPan, t1) \<Rightarrow> view_in m n ATopPan \<and> view_in m n ABottomPan
             \<and> view_in (min m n) 1 t1 \<and> 0 < vHeight t1"
proof -
  let ?D = "min m n"
  have D: "0 \<le> ?D" using m n by simp
  note L = last_offset_okE [OF lo D b]
  have k: "0 \<le> k" "k < ?D" using k L(1) by (auto simp: rq_schedule_mem [OF b])
  have nb: "0 < min bsize (?D - k)" "k + min bsize (?D - k) \<le> ?D" using k b by auto
  show ?thesis
    using rq_offsets_cases [of m n] k nb m n
    by (auto simp: rq_views_def view_in_def View_def Let_def)
qed

text \<open>C24. The panels tile \<open>t\<close>: every index of \<open>[0, minDim)\<close> lies in the
  \<open>t1\<close> view of exactly one offset the loop visits, and no \<open>t1\<close> reaches outside.\<close>

theorem rq_panels_cover:
  assumes lo: "last_offset_ok (rq_last_offset env)" and b: "0 < bsize" and m: "0 \<le> m" and n: "0 \<le> n"
  shows "0 \<le> x \<and> x < min m n \<longleftrightarrow>
    (\<exists>!k. k \<in> set (rq_schedule bsize (rq_last_offset env (min m n) bsize))
       \<and> vRow (snd (snd (rq_views bsize (min m n) iOff jOff k))) \<le> x
       \<and> x < vRow (snd (snd (rq_views bsize (min m n) iOff jOff k)))
             + vHeight (snd (snd (rq_views bsize (min m n) iOff jOff k))))"
proof -
  let ?D = "min m n"
  let ?K = "rq_last_offset env ?D bsize"
  have D: "0 \<le> ?D" using m n by simp
  note L = last_offset_okE [OF lo D b]
  have t1: "vRow (snd (snd (rq_views bsize ?D iOff jOff k))) = k"
    "vHeight (snd (snd (rq_views bsize ?D iOff jOff k))) = min bsize (?D - k)" for k
    by (simp_all add: rq_views_def View_def Let_def)
  have mem: "k \<in> set (rq_schedule bsize ?K) \<longleftrightarrow> 0 \<le> k \<and> k \<le> ?K \<and> bsize dvd k" for k
  proof -
    have "bsize dvd (?K - k) \<longleftrightarrow> bsize dvd k"
    proof
      assume h: "bsize dvd (?K - k)"
      have "bsize dvd ?K - (?K - k)" by (rule dvd_diff [OF L(3) h])
      then show "bsize dvd k" by simp
    next
      assume h: "bsize dvd k"
      show "bsize dvd ?K - k" by (rule dvd_diff [OF L(3) h])
    qed
    then show ?thesis using rq_schedule_mem [OF b, of k ?K] by simp
  qed
  have blk: "k = x div bsize * bsize" if dv: "bsize dvd k" and le: "k \<le> x" and lt: "x < k + bsize" for k
  proof -
    obtain d where d: "k = bsize * d" using dv by (rule dvdE)
    have "d * bsize \<le> x" "x < (d + 1) * bsize" using le lt d by (simp_all add: algebra_simps)
    then have "x div bsize = d" using b by (intro div_between) simp_all
    then show ?thesis using d by (simp add: mult.commute)
  qed
  show ?thesis
  proof
    assume x: "0 \<le> x \<and> x < ?D"
    define k where "k = x div bsize * bsize"
    have ke: "k = x - x mod bsize" by (simp add: k_def minus_mod_eq_div_mult)
    have "0 \<le> x div bsize" using x b by (simp add: pos_imp_zdiv_nonneg_iff)
    then have k0a: "0 \<le> k" using b by (simp add: k_def)
    have "0 \<le> x mod bsize" "x mod bsize < bsize" using b by simp_all
    then have k0: "0 \<le> k" "k \<le> x" "x < k + bsize" "bsize dvd k"
      using k0a by (simp_all add: ke)
    have "k \<le> ?K"
    proof -
      obtain d where d: "?K = bsize * d" using L(3) by (rule dvdE)
      have "x < ?K + bsize" using x L(2) by linarith
      then have "x < (d + 1) * bsize" using d by (simp add: algebra_simps)
      then have "x div bsize * bsize < (d + 1) * bsize" using k0(2) by (simp add: k_def)
      then have "x div bsize \<le> d" using b by (simp add: mult_less_cancel_right)
      then show ?thesis using d b by (simp add: k_def mult.commute mult_left_mono)
    qed
    show "\<exists>!k. k \<in> set (rq_schedule bsize ?K) \<and> vRow (snd (snd (rq_views bsize ?D iOff jOff k))) \<le> x
       \<and> x < vRow (snd (snd (rq_views bsize ?D iOff jOff k))) + vHeight (snd (snd (rq_views bsize ?D iOff jOff k)))"
    proof (rule ex1I [of _ k])
      have "x < ?D" using x by simp
      then have "x < k + min bsize (?D - k)" using k0(3) by linarith
      then show "k \<in> set (rq_schedule bsize ?K) \<and> vRow (snd (snd (rq_views bsize ?D iOff jOff k))) \<le> x
         \<and> x < vRow (snd (snd (rq_views bsize ?D iOff jOff k))) + vHeight (snd (snd (rq_views bsize ?D iOff jOff k)))"
        using k0 \<open>k \<le> ?K\<close> by (simp add: t1 mem)
    next
      fix k' assume "k' \<in> set (rq_schedule bsize ?K) \<and> vRow (snd (snd (rq_views bsize ?D iOff jOff k'))) \<le> x
         \<and> x < vRow (snd (snd (rq_views bsize ?D iOff jOff k'))) + vHeight (snd (snd (rq_views bsize ?D iOff jOff k')))"
      then have "bsize dvd k'" "k' \<le> x" "x < k' + min bsize (?D - k')" by (simp_all add: t1 mem)
      then have "k' = x div bsize * bsize" by (intro blk) simp_all
      then show "k' = k" by (simp add: k_def)
    qed
  next
    assume "\<exists>!k. k \<in> set (rq_schedule bsize ?K) \<and> vRow (snd (snd (rq_views bsize ?D iOff jOff k))) \<le> x
       \<and> x < vRow (snd (snd (rq_views bsize ?D iOff jOff k))) + vHeight (snd (snd (rq_views bsize ?D iOff jOff k)))"
    then obtain k where "k \<in> set (rq_schedule bsize ?K)" "vRow (snd (snd (rq_views bsize ?D iOff jOff k))) \<le> x"
       "x < vRow (snd (snd (rq_views bsize ?D iOff jOff k))) + vHeight (snd (snd (rq_views bsize ?D iOff jOff k)))"
      by blast
    then have "0 \<le> k" "k \<le> x" "x < k + min bsize (?D - k)" by (simp_all add: t1 mem)
    then have "0 \<le> x" "x < ?D" by linarith+
    then show "0 \<le> x \<and> x < ?D" by blast
  qed
qed

text \<open>C25. The checks of the distributed \<open>rq::Householder\<close> (lines 65--83): a debug
  build rejects \<open>A\<close> and \<open>t\<close> on different grids; a viewing \<open>t\<close> not aligned with
  the diagonal of offset \<open>n - m\<close> is rejected in every build, with \<open>t\<close> unchanged; a
  release build does not compare the grids, and a \<open>t\<close> that is not a view is aligned,
  resized to \<open>minDim \<times> 1\<close> and factored.\<close>

theorem rq_Householder_dist_checks:
  "(\<not> rq_same_grid env s \<longrightarrow> rq_Householder_dist env Debug bsize m n s
      = Some (Inl (LogicError ''{A,s} must be distributed over the same grid'', s)))
   \<and> (rq_t_viewing env s \<and> \<not> rq_aligned_diag env (n - m) s \<longrightarrow> rq_same_grid env s \<or> bld = Release
      \<longrightarrow> rq_Householder_dist env bld bsize m n s = Some (Inl (LogicError ''t was not aligned with A'', s)))
   \<and> (0 < bsize \<longrightarrow> \<not> rq_t_viewing env s \<longrightarrow> rq_Householder_dist env Release bsize m n s
      = Some (Inr (fold (rq_step env bsize (min m n) (fst (rq_offsets m n)) (snd (rq_offsets m n)))
                  (rq_schedule bsize (rq_last_offset env (min m n) bsize))
                  (rq_resize_t env (min m n) 1 (rq_align_diag env (n - m) s)))))"
  by (auto simp: rq_Householder_dist_def Let_def rq_loop_fold split: prod.split)

end
