(* ===== verification/MR_STAR_Trans.thy ===== *)
theory MR_STAR_Trans
  imports MR_STAR_Vec MC_MR_Trans
begin

text \<open>
  \<open>[MR,*]::TransposeFrom( const DistMatrix<T,MC,MR>& A, bool conjugate )\<close>
  (\<open>src/src/core/dist_matrix/mr_star.cpp\<close>, lines 453--616): the destination becomes
  the transpose (or conjugate transpose) of an \<open>[MC,MR]\<close> matrix. Row \<open>i\<close> of the
  result is column \<open>i\<close> of \<open>A\<close>, which lives in the grid column owning it; each
  process packs the transpose of its local block, and the grid column all-gathers the
  packed blocks, so that every process receives the rows of \<open>A\<close> held by each grid row.
  When the destination's column alignment differs from \<open>A\<close>'s row alignment, the packed
  blocks first move within the grid row to the column holding the right rows of the
  result. \<open>Conj\<close> is the parameter \<open>cj\<close>, as in \<open>MC_MR_Trans\<close>.
\<close>

section \<open>Definitions\<close>

text \<open>The pack loops of both branches (lines 481--506 and 560--585): entry
  \<open>(jLoc, iLoc)\<close> of \<open>A\<close>'s local matrix goes to \<open>base + jLoc colLen + iLoc\<close>;
  \<open>colLen\<close> is \<open>localHeight\<close> (aligned) or \<open>localWidthOfA\<close> (unaligned).\<close>

definition pack_trans_MC_MR :: "int \<Rightarrow> int \<Rightarrow> ('a \<Rightarrow> 'a) \<Rightarrow> 'a lmat \<Rightarrow> int \<Rightarrow> 'a buf \<Rightarrow> 'a buf" where
  "pack_trans_MC_MR localHeightOfA colLen f ABuf base buf =
     for_loop2 localHeightOfA colLen
       (\<lambda>iLoc jLoc b. b(base + jLoc * colLen + iLoc := f (ABuf (jLoc, iLoc)))) buf"

text \<open>The unpack loops (lines 512--528 and 596--612): block \<open>k\<close> holds the rows of
  \<open>A\<close> of grid row \<open>k\<close>, which become the columns \<open>rowShift + jLoc r\<close>; each is one
  \<open>MemCopy\<close> of \<open>localHeight\<close> entries.\<close>

definition unpack_trans_MR_STAR :: "int \<Rightarrow> int \<Rightarrow> int \<Rightarrow> int \<Rightarrow> int \<Rightarrow> int \<Rightarrow> 'a buf \<Rightarrow> 'a lmat \<Rightarrow> 'a lmat" where
  "unpack_trans_MR_STAR r colAlignOfA width localHeight portionSize base buf loc =
     for_loop r (\<lambda>k. let rowShift = Shift k colAlignOfA r;
                         localWidth = Length width rowShift r in
       for_loop2 localWidth localHeight (\<lambda>iLoc jLoc m.
         m((iLoc, rowShift + jLoc * r) := buf (base + k * portionSize + jLoc * localHeight + iLoc)))) loc"

text \<open>The trade within the grid row of the unaligned branch (lines 544--545 and 587--589):
  from \<open>secondBuf\<close> to column \<open>sendCol\<close>, into \<open>firstBuf\<close> from \<open>recvCol\<close>.\<close>

definition MR_STAR_trans_xfer :: "'a DistMatrix \<Rightarrow> 'a DistMatrix \<Rightarrow> int \<Rightarrow> int \<Rightarrow> xfer" where
  "MR_STAR_trans_xfer M A portionSize q =
     (let c = gwidth (dgrid M); col = gcol (dgrid M) q;
          sendCol = (col + c + colAlign M - rowAlign A) smod c;
          recvCol = (col + c + rowAlign A - colAlign M) smod c
      in \<lparr>sendOff = portionSize, sendCount = portionSize, sendTo = sendCol,
          recvOff = 0, recvCount = portionSize, recvFrom = recvCol\<rparr>)"

text \<open>The operation. The aligned branch's \<open>portionSize\<close> depends on the process's
  local height, which is the same on all of a grid column, so the all-gather over the
  grid column has one count.\<close>

definition MR_STAR_TransposeFrom ::
  "bool \<Rightarrow> ('a \<Rightarrow> 'a) \<Rightarrow> 'a DistMatrix \<Rightarrow> 'a DistMatrix \<Rightarrow> 'a DistMatrix exn" where
  "MR_STAR_TransposeFrom conjugate cj M0 A =
     (let M = AlignColsAndResize (rowAlign A) (mwidth A) (mheight A) M0;
          g = dgrid M; r = gheight g; c = gwidth g;
          f = conj_if conjugate cj;
          height = mheight M; width = mwidth M
      in if colAlign M = rowAlign A then
           (let P = (\<lambda>q. Pad (LocalHeight M q * MaxLength width r));
                M1 = M\<lparr>auxSize := \<lambda>q. max (auxSize M q) ((r + 1) * P q)\<rparr>;
                sent = (\<lambda>q. pack_trans_MC_MR (LocalHeight A q) (LocalHeight M q) f (locals A q) 0
                              (auxMem M1 q));
                mem = (\<lambda>q. AllGather g MCComm (P q) 0 (P q) sent q)
            in Inr (M1\<lparr>auxMem := mem,
                 locals := \<lambda>q. unpack_trans_MR_STAR r (colAlign A) width (LocalHeight M q) (P q) (P q)
                                 (mem q) (locals M q)\<rparr>))
         else
           (let P = Pad (MaxLength height c * MaxLength width r);
                M1 = RequireAll ((r + 1) * P) M;
                X = MR_STAR_trans_xfer M A P;
                sent = (\<lambda>q. pack_trans_MC_MR (LocalHeight A q) (LocalWidth A q) f (locals A q) P
                              (auxMem M1 q))
            in case SendRecv g MRComm X sent of
                 None \<Rightarrow> Inl (CommError, M1\<lparr>auxMem := sent\<rparr>)
               | Some mem1 \<Rightarrow>
                   (let mem2 = AllGather g MCComm P 0 P mem1
                    in Inr (M1\<lparr>auxMem := mem2,
                         locals := \<lambda>q. unpack_trans_MR_STAR r (colAlign A) width (LocalHeight M q) P P
                                         (mem2 q) (locals M q)\<rparr>))))"

text \<open>\<open>AdjointFrom( const DistMatrix<T,MC,MR>& A )\<close> (lines 618--624).\<close>

definition MR_STAR_AdjointFrom :: "('a \<Rightarrow> 'a) \<Rightarrow> 'a DistMatrix \<Rightarrow> 'a DistMatrix \<Rightarrow> 'a DistMatrix exn" where
  "MR_STAR_AdjointFrom cj M A = MR_STAR_TransposeFrom True cj M A"

section \<open>Reading the loops back\<close>

lemma pack_trans_MC_MR_at:
  assumes "0 \<le> i" "i < cl" "0 \<le> j" "j < lhA"
  shows "pack_trans_MC_MR lhA cl f A base buf (base + j * cl + i) = f (A (j, i))"
  unfolding pack_trans_MC_MR_def
proof (rule for_loop2_upd_at [where pos = "\<lambda>i j. base + j * cl + i"])
  show "inj_on (\<lambda>(i, j). base + j * cl + i) ({0..<cl} \<times> {0..<lhA})"
    using assms by (auto simp: inj_on_def colmajor_inj)
qed (use assms in simp_all)

lemma unpack_trans_MR_STAR_at:
  assumes r: "0 < r" and a: "0 \<le> a" "a < r"
    and buf: "\<And>k jLoc iLoc. 0 \<le> k \<Longrightarrow> k < r \<Longrightarrow> 0 \<le> jLoc \<Longrightarrow> jLoc < Length width (Shift k a r) r
       \<Longrightarrow> 0 \<le> iLoc \<Longrightarrow> iLoc < lh
       \<Longrightarrow> buf (base + k * portion + jLoc * lh + iLoc) = V (iLoc, Shift k a r + jLoc * r)"
    and i: "0 \<le> i" "i < lh" and j: "0 \<le> j" "j < width"
  shows "unpack_trans_MR_STAR r a width lh portion base buf loc (i, j) = V (i, j)"
proof -
  have w: "writes (unpack_trans_MR_STAR r a width lh portion base buf)
     (\<Union>k\<in>{0..<r}. \<Union>jLoc\<in>{0..<Length width (Shift k a r) r}. \<Union>iLoc\<in>{0..<lh}.
        {(iLoc, Shift k a r + jLoc * r)}) V"
    unfolding unpack_trans_MR_STAR_def Let_def
    using buf by (intro writes_for_loop writes_for_loop2 writes_upd) simp
  define k where "k = (j + a) mod r"
  have k: "0 \<le> k" "k < r" using r by (simp_all add: k_def)
  have sk: "Shift k a r = j mod r"
  proof -
    have "Shift k a r = (k - a) mod r" using k a by (simp add: Shift_eq)
    also have "\<dots> = (j + a - a) mod r" by (simp add: k_def mod_diff_left_eq)
    finally show ?thesis by simp
  qed
  have je: "j = j mod r + j div r * r" by simp
  have jl: "0 \<le> j div r" using j r by (simp add: pos_imp_zdiv_nonneg_iff)
  have "j div r < Length width (Shift k a r) r" using Length_iff [OF r jl] je j sk by simp
  then have "(i, j) \<in> (\<Union>k\<in>{0..<r}. \<Union>jLoc\<in>{0..<Length width (Shift k a r) r}. \<Union>iLoc\<in>{0..<lh}.
        {(iLoc, Shift k a r + jLoc * r)})"
    using k i jl je sk by (intro UN_I [of k] UN_I [of "j div r"] UN_I [of i]) auto
  from writes_at [OF w this] show ?thesis .
qed

section \<open>The trade within the grid row\<close>

text \<open>Partners \<open>(col + c + a - b) % c\<close> and \<open>(col + c + b - a) % c\<close> within a grid
  row: they are inverse to each other, and the process received from holds under
  alignment \<open>b\<close> the shift the receiver has under \<open>a\<close>.\<close>

lemma row_exchange:
  assumes ok: "grid_ok g" and q: "q \<in> procs g"
    and a: "0 \<le> a" "a < gwidth g" and b: "0 \<le> b" "b < gwidth g"
  defines "sr \<equiv> \<lambda>p. (gcol g p + gwidth g + (a - b)) smod gwidth g"
    and "rr \<equiv> \<lambda>p. (gcol g p + gwidth g - (a - b)) smod gwidth g"
  shows "0 \<le> sr q" "sr q < gwidth g" "0 \<le> rr q" "rr q < gwidth g"
    "rr (grow g q + sr q * gheight g) = gcol g q" "sr (grow g q + rr q * gheight g) = gcol g q"
    "grow g q + rr q * gheight g \<in> procs g" "grow g (grow g q + rr q * gheight g) = grow g q"
    "gcol g (grow g q + rr q * gheight g) = rr q"
    "Shift (rr q) b (gwidth g) = Shift (gcol g q) a (gwidth g)"
proof -
  let ?r = "gheight g" let ?c = "gwidth g"
  have row: "0 \<le> grow g q" "grow g q < ?r" using grow_range [OF ok] by auto
  have col: "0 \<le> gcol g q" "gcol g q < ?c" using gcol_range [OF ok q] by auto
  show srr: "0 \<le> sr q" "sr q < ?c" "0 \<le> rr q" "rr q < ?c"
    unfolding sr_def rr_def using col a b by (simp_all add: partner_range)
  have gc: "gcol g (grow g q + sr q * ?r) = sr q" "gcol g (grow g q + rr q * ?r) = rr q"
    "grow g (grow g q + rr q * ?r) = grow g q"
    using ok row by (simp_all add: rowcol_vc)
  then show "grow g (grow g q + rr q * ?r) = grow g q" "gcol g (grow g q + rr q * ?r) = rr q" by simp_all
  have pi: "((gcol g q + ?c + (a - b)) smod ?c + ?c - (a - b)) smod ?c = gcol g q"
    "((gcol g q + ?c - (a - b)) smod ?c + ?c + (a - b)) smod ?c = gcol g q"
    using partner_inverse [OF col a b] by simp_all
  show "rr (grow g q + sr q * ?r) = gcol g q" using gc(1) pi(1) by (simp add: rr_def sr_def)
  show "sr (grow g q + rr q * ?r) = gcol g q" using gc(2) pi(2) by (simp add: rr_def sr_def)
  show "grow g q + rr q * ?r \<in> procs g" using srr row ok by (simp add: rowcol_in_procs)
  show "Shift (rr q) b ?c = Shift (gcol g q) a ?c"
    unfolding rr_def using partner_Shift [OF col a b] by simp
qed

section \<open>Correctness\<close>

text \<open>What the unpack of either branch produces: if block \<open>k\<close> of a process's buffer
  holds the entries of rows \<open>Shift k colAlign(A) r + jLoc r\<close> of \<open>A\<close> in the columns
  the process owns in \<open>[MR,*]\<close>, the result holds the transpose.\<close>

lemma MR_STAR_trans_unpack_holds:
  assumes M: "is_MR_STAR M" and wfM: "dm_wf M" and aA: "0 \<le> colAlign A" "colAlign A < gheight (dgrid M)"
    and buf: "\<And>q k jLoc iLoc. q \<in> procs (dgrid M) \<Longrightarrow> 0 \<le> k \<Longrightarrow> k < gheight (dgrid M)
       \<Longrightarrow> 0 \<le> jLoc \<Longrightarrow> jLoc < Length (mwidth M) (Shift k (colAlign A) (gheight (dgrid M))) (gheight (dgrid M))
       \<Longrightarrow> 0 \<le> iLoc \<Longrightarrow> iLoc < LocalHeight M q
       \<Longrightarrow> mem q (base q + k * P q + jLoc * LocalHeight M q + iLoc)
           = f (G (Shift k (colAlign A) (gheight (dgrid M)) + jLoc * gheight (dgrid M),
                   ColShift M q + iLoc * gwidth (dgrid M)))"
  shows "holds (M\<lparr>locals := \<lambda>q. unpack_trans_MR_STAR (gheight (dgrid M)) (colAlign A) (mwidth M)
             (LocalHeight M q) (P q) (base q) (mem q) (locals M q)\<rparr>) (\<lambda>(i, j). f (G (j, i)))"
proof (rule holds_locals_intro)
  fix q i j assume q: "q \<in> procs (dgrid M)" and "Participating M q" and i: "0 \<le> i" "i < LocalHeight M q"
    and j: "0 \<le> j" "j < LocalWidth M q"
  let ?r = "gheight (dgrid M)" let ?c = "gwidth (dgrid M)"
  note dm = MR_STAR_dm [OF M wfM]
  have r: "0 < ?r" using wfM by (simp add: dm_wf_def grid_ok_def del: MR_STAR_dm)
  have j': "j < mwidth M" using j dm(6) by simp
  have "unpack_trans_MR_STAR ?r (colAlign A) (mwidth M) (LocalHeight M q) (P q) (base q) (mem q) (locals M q) (i, j)
      = (\<lambda>(i', j'). f (G (j', ColShift M q + i' * ?c))) (i, j)"
    by (rule unpack_trans_MR_STAR_at [OF r aA _ i j(1) j']) (use buf [OF q] in simp)
  then show "unpack_trans_MR_STAR ?r (colAlign A) (mwidth M) (LocalHeight M q) (P q) (base q) (mem q) (locals M q) (i, j)
      = (\<lambda>(i, j). f (G (j, i))) (ColShift M q + i * ColStride M, RowShift M q + j * RowStride M)"
    using dm(1,2,4) by simp
qed

lemma block_bound:
  fixes jLoc J mx iLoc lh :: int
  assumes "0 \<le> jLoc" "jLoc < J" "J \<le> mx" "0 \<le> iLoc" "iLoc < lh"
  shows "0 \<le> jLoc * lh + iLoc" "jLoc * lh + iLoc < mx * lh"
proof -
  have "jLoc * lh + iLoc < (jLoc + 1) * lh" using assms by (simp add: algebra_simps)
  also have "\<dots> \<le> mx * lh" using assms by (intro mult_right_mono) auto
  finally show "jLoc * lh + iLoc < mx * lh" .
  show "0 \<le> jLoc * lh + iLoc" using assms by simp
qed

text \<open>The aligned branch: block \<open>k\<close> of the all-gathered buffer is what the process
  of grid row \<open>k\<close> in the same grid column packed, the transpose of its local block.\<close>

lemma MR_STAR_trans_aligned_buf:
  assumes M: "is_MR_STAR M" and wfM: "dm_wf M" and A: "is_MC_MR A" and g: "dgrid A = dgrid M"
    and wfA: "dm_wf A" and hA: "holds A G" and sz: "mwidth M = mheight A" "mheight M = mwidth A"
    and al: "colAlign M = rowAlign A" and q: "q \<in> procs (dgrid M)"
    and k: "0 \<le> k" "k < gheight (dgrid M)"
    and jl: "0 \<le> jLoc" "jLoc < Length (mwidth M) (Shift k (colAlign A) (gheight (dgrid M))) (gheight (dgrid M))"
    and il: "0 \<le> iLoc" "iLoc < LocalHeight M q"
  defines "P \<equiv> \<lambda>q. Pad (LocalHeight M q * MaxLength (mwidth M) (gheight (dgrid M)))"
  shows "AllGather (dgrid M) MCComm (P q) 0 (P q)
           (\<lambda>q. pack_trans_MC_MR (LocalHeight A q) (LocalHeight M q) f (locals A q) 0 (B q)) q
           (P q + k * P q + jLoc * LocalHeight M q + iLoc)
         = f (G (Shift k (colAlign A) (gheight (dgrid M)) + jLoc * gheight (dgrid M),
                 ColShift M q + iLoc * gwidth (dgrid M)))"
proof -
  let ?g = "dgrid M" let ?r = "gheight ?g" let ?c = "gwidth ?g" let ?lh = "LocalHeight M q"
  have ok: "grid_ok ?g" using wfM by (simp add: dm_wf_def del: MR_STAR_dm)
  then have r: "0 < ?r" by (simp add: grid_ok_def)
  note dmM = MR_STAR_dm [OF M wfM]
  define q' where "q' = comm_member ?g MCComm q k"
  have q'e: "q' = k + gcol ?g q * ?r" by (simp add: q'_def)
  have q': "q' \<in> procs (dgrid A)" using MC_member_vr [OF ok q k] g by (simp add: q'_def)
  have rc: "grow ?g q' = k" "gcol ?g q' = gcol ?g q" using rowcol_vc [OF ok k] q'e by simp_all
  have lh': "LocalHeight M q' = ?lh" using dmM(7) [of q'] dmM(7) [of q] rc by simp
  have jA: "jLoc < LocalHeight A q'" using jl sz rc g A by (simp add: MC_MR_shifts)
  have iA: "iLoc < LocalWidth A q'" using il dmM(5,7) rc g A al sz by (simp add: MC_MR_shifts)
  have sh: "ColShift A q' = Shift k (colAlign A) ?r" "RowShift A q' = ColShift M q"
    using rc g A al dmM(5) by (simp_all add: MC_MR_shifts)
  have ml: "Length (mwidth M) (Shift k (colAlign A) ?r) ?r \<le> MaxLength (mwidth M) ?r"
  proof (rule Length_le_MaxLength [OF r])
    have "0 \<le> colAlign A" "colAlign A < ?r" using wfA A g by (simp_all add: dm_wf_def)
    then show "0 \<le> Shift k (colAlign A) ?r" using k by (intro Shift_range) simp_all
  qed
  note bb = block_bound [OF jl ml il]
  have tP: "jLoc * ?lh + iLoc < P q"
    using bb(2) Pad_ge(1) [of "?lh * MaxLength (mwidth M) ?r"] by (simp add: P_def mult.commute)
  have "AllGather ?g MCComm (P q) 0 (P q)
          (\<lambda>q. pack_trans_MC_MR (LocalHeight A q) (LocalHeight M q) f (locals A q) 0 (B q)) q
          (P q + k * P q + (jLoc * ?lh + iLoc))
        = pack_trans_MC_MR (LocalHeight A q') ?lh f (locals A q') 0 (B q') (0 + jLoc * ?lh + iLoc)"
    using AllGather_at [OF k(1) _ bb(1) tP, where g = ?g and cm = MCComm and sOff = 0 and rOff = "P q" and q = q
        and mem = "\<lambda>q. pack_trans_MC_MR (LocalHeight A q) (LocalHeight M q) f (locals A q) 0 (B q)"] k lh' by (simp add: q'_def add.assoc)
  also have "\<dots> = f (locals A q' (jLoc, iLoc))" using jl(1) jA il by (intro pack_trans_MC_MR_at) simp_all
  also have "\<dots> = f (G (Shift k (colAlign A) ?r + jLoc * ?r, ColShift M q + iLoc * ?c))"
    using holds_at [OF hA q' _ jl(1) jA il(1) iA] A g sh by simp
  finally show ?thesis by (simp add: add.assoc)
qed

text \<open>The trade of the unaligned branch matches, and the process a process receives
  from is the one of its grid row whose \<open>A\<close> row shift is its \<open>[MR,*]\<close> column
  shift.\<close>

lemma MR_STAR_trans_exchange:
  fixes P :: int
  assumes ok: "grid_ok (dgrid M)" and a: "0 \<le> colAlign M" "colAlign M < gwidth (dgrid M)"
    and b: "0 \<le> rowAlign A" "rowAlign A < gwidth (dgrid M)"
  defines "X \<equiv> MR_STAR_trans_xfer M A P"
  shows "SendRecv_ok (dgrid M) MRComm X"
    and "\<And>q. q \<in> procs (dgrid M) \<Longrightarrow> comm_member (dgrid M) MRComm q (recvFrom (X q)) \<in> procs (dgrid M)
           \<and> grow (dgrid M) (comm_member (dgrid M) MRComm q (recvFrom (X q))) = grow (dgrid M) q
           \<and> Shift (gcol (dgrid M) (comm_member (dgrid M) MRComm q (recvFrom (X q)))) (rowAlign A) (gwidth (dgrid M))
             = Shift (gcol (dgrid M) q) (colAlign M) (gwidth (dgrid M))"
    and "\<And>q. sendOff (X q) = P" "\<And>q. recvOff (X q) = 0" "\<And>q. sendCount (X q) = P"
proof -
  let ?g = "dgrid M" let ?c = "gwidth ?g" let ?r = "gheight ?g"
  note E = row_exchange [OF ok _ a b]
  have Xp: "sendTo (X p) = (gcol ?g p + ?c + (colAlign M - rowAlign A)) smod ?c"
    "recvFrom (X p) = (gcol ?g p + ?c - (colAlign M - rowAlign A)) smod ?c" for p
    by (simp_all add: X_def MR_STAR_trans_xfer_def Let_def algebra_simps)
  show "sendOff (X q) = P" "recvOff (X q) = 0" "sendCount (X q) = P" for q
    by (simp_all add: X_def MR_STAR_trans_xfer_def Let_def)
  have cnt: "sendCount (X p) = P" "recvCount (X p) = P" for p
    by (simp_all add: X_def MR_STAR_trans_xfer_def Let_def)
  show "comm_member ?g MRComm q (recvFrom (X q)) \<in> procs ?g
      \<and> grow ?g (comm_member ?g MRComm q (recvFrom (X q))) = grow ?g q
      \<and> Shift (gcol ?g (comm_member ?g MRComm q (recvFrom (X q)))) (rowAlign A) ?c
        = Shift (gcol ?g q) (colAlign M) ?c" if q: "q \<in> procs ?g" for q
    using E(7,8,9,10) [OF q] by (simp add: Xp)
  show "SendRecv_ok ?g MRComm X"
    unfolding SendRecv_ok_def
  proof
    fix q assume q: "q \<in> procs ?g"
    show "0 \<le> sendTo (X q) \<and> sendTo (X q) < comm_size ?g MRComm
      \<and> 0 \<le> recvFrom (X q) \<and> recvFrom (X q) < comm_size ?g MRComm
      \<and> recvFrom (X (comm_member ?g MRComm q (sendTo (X q)))) = comm_rank ?g MRComm q
      \<and> sendTo (X (comm_member ?g MRComm q (recvFrom (X q)))) = comm_rank ?g MRComm q
      \<and> sendCount (X (comm_member ?g MRComm q (recvFrom (X q)))) \<le> recvCount (X q)"
      using E(1-6) [OF q] cnt by (simp add: Xp)
  qed
qed

text \<open>The unaligned branch: block \<open>k\<close> of the all-gathered buffer is what the
  process of grid row \<open>k\<close> received in the trade, the packed transpose of the block of
  the process in that row whose \<open>A\<close> columns are the receiver's \<open>[MR,*]\<close> rows.\<close>

lemma MR_STAR_trans_unaligned_buf:
  fixes M :: "'a DistMatrix"
  defines "P \<equiv> Pad (MaxLength (mheight M) (gwidth (dgrid M)) * MaxLength (mwidth M) (gheight (dgrid M)))"
  assumes M: "is_MR_STAR M" and wfM: "dm_wf M" and A: "is_MC_MR A" and g: "dgrid A = dgrid M"
    and wfA: "dm_wf A" and hA: "holds A G" and sz: "mwidth M = mheight A" "mheight M = mwidth A"
    and SR: "SendRecv (dgrid M) MRComm (MR_STAR_trans_xfer M A P)
      (\<lambda>q. pack_trans_MC_MR (LocalHeight A q) (LocalWidth A q) f (locals A q) P (B q)) = Some mem1"
    and q: "q \<in> procs (dgrid M)" and k: "0 \<le> k" "k < gheight (dgrid M)"
    and jl: "0 \<le> jLoc" "jLoc < Length (mwidth M) (Shift k (colAlign A) (gheight (dgrid M))) (gheight (dgrid M))"
    and il: "0 \<le> iLoc" "iLoc < LocalHeight M q"
  shows "AllGather (dgrid M) MCComm P 0 P mem1 q (P + k * P + jLoc * LocalHeight M q + iLoc)
         = f (G (Shift k (colAlign A) (gheight (dgrid M)) + jLoc * gheight (dgrid M),
                 ColShift M q + iLoc * gwidth (dgrid M)))"
proof -
  let ?g = "dgrid M" let ?r = "gheight ?g" let ?c = "gwidth ?g" let ?lh = "LocalHeight M q"
  define X where "X = MR_STAR_trans_xfer M A P"
  have ok: "grid_ok ?g" using wfM by (simp add: dm_wf_def del: MR_STAR_dm)
  then have r: "0 < ?r" and c: "0 < ?c" by (simp_all add: grid_ok_def)
  note dmM = MR_STAR_dm [OF M wfM]
  have aM: "0 \<le> colAlign M" "colAlign M < ?c" using wfM dmM(1) by (simp_all add: dm_wf_def del: MR_STAR_dm)
  have bA: "0 \<le> rowAlign A" "rowAlign A < ?c" "0 \<le> colAlign A" "colAlign A < ?r"
    using wfA A g by (simp_all add: dm_wf_def)
  note E = MR_STAR_trans_exchange [OF ok aM bA(1,2), where P = P, folded X_def]
  define q' where "q' = comm_member ?g MCComm q k"
  have q'e: "q' = k + gcol ?g q * ?r" by (simp add: q'_def)
  have q': "q' \<in> procs ?g" using MC_member_vr [OF ok q k] by (simp add: q'_def)
  have rc: "grow ?g q' = k" "gcol ?g q' = gcol ?g q" using rowcol_vc [OF ok k] q'e by simp_all
  define src where "src = comm_member ?g MRComm q' (recvFrom (X q'))"
  have src: "src \<in> procs (dgrid A)" "grow ?g src = k"
    "Shift (gcol ?g src) (rowAlign A) ?c = ColShift M q"
    using E(2) [OF q'] rc g dmM(5) by (simp_all add: src_def)
  have lwA: "LocalWidth A src = ?lh" using src(3) A g sz dmM(7) dmM(5) by (simp add: MC_MR_shifts)
  have jA: "jLoc < LocalHeight A src" using jl sz src(2) g A by (simp add: MC_MR_shifts)
  have sh: "ColShift A src = Shift k (colAlign A) ?r" "RowShift A src = ColShift M q"
    using src g A by (simp_all add: MC_MR_shifts)
  have ml: "Length (mwidth M) (Shift k (colAlign A) ?r) ?r \<le> MaxLength (mwidth M) ?r"
    by (rule Length_le_MaxLength [OF r]) (use k bA(3,4) in \<open>simp add: Shift_range\<close>)
  note bb = block_bound [OF jl ml il]
  have "?lh \<le> MaxLength (mheight M) ?c"
    using dmM(7) [of q] dmM(5) [of q] Length_le_MaxLength [OF c] gcol_range [OF ok q] aM
    by (simp add: Shift_range)
  then have "MaxLength (mwidth M) ?r * ?lh \<le> MaxLength (mwidth M) ?r * MaxLength (mheight M) ?c"
    using bb by (intro mult_left_mono) (auto simp: MaxLength_Length Length_nonneg r)
  then have tP: "jLoc * ?lh + iLoc < P"
    using bb(2) Pad_ge(1) [of "MaxLength (mheight M) ?c * MaxLength (mwidth M) ?r"]
    by (simp add: P_def mult.commute)
  have "AllGather ?g MCComm P 0 P mem1 q (P + k * P + (jLoc * ?lh + iLoc)) = mem1 q' (0 + (jLoc * ?lh + iLoc))"
    using AllGather_at [OF k(1) _ bb(1) tP, where g = ?g and cm = MCComm and sOff = 0 and rOff = P
        and q = q and mem = mem1] k by (simp add: q'_def add.assoc)
  also have "\<dots> = pack_trans_MC_MR (LocalHeight A src) (LocalWidth A src) f (locals A src) P (B src)
                    (P + (jLoc * ?lh + iLoc))"
    using SendRecv_at [OF SR [folded X_def], of "jLoc * ?lh + iLoc" q'] E(3,4,5) bb(1) tP
    by (simp add: src_def)
  also have "\<dots> = f (locals A src (jLoc, iLoc))"
    using jl(1) jA il lwA by (simp add: pack_trans_MC_MR_at add.assoc [symmetric])
  also have "\<dots> = f (G (Shift k (colAlign A) ?r + jLoc * ?r, ColShift M q + iLoc * ?c))"
    using holds_at [OF hA src(1) _ jl(1) jA il(1)] il(2) lwA A g sh by simp
  finally show ?thesis by (simp add: add.assoc)
qed

text \<open>Both branches deliver the (conjugate) transpose.\<close>

lemma MR_STAR_TransposeFrom_correct:
  assumes M0: "is_MR_STAR M0" and A: "is_MC_MR A" and g: "dgrid A = dgrid M0"
    and wf0: "dm_wf M0" and wfA: "dm_wf A" and hA: "holds A G"
  shows "\<exists>M'. MR_STAR_TransposeFrom conjugate cj M0 A = Inr M'
           \<and> holds M' (\<lambda>(i, j). conj_if conjugate cj (G (j, i)))
           \<and> same_layout M' (AlignColsAndResize (rowAlign A) (mwidth A) (mheight A) M0)"
proof -
  define M where "M = AlignColsAndResize (rowAlign A) (mwidth A) (mheight A) M0"
  let ?g = "dgrid M" let ?r = "gheight ?g" let ?c = "gwidth ?g"
  define f where "f = conj_if conjugate cj"
  have Mf: "is_MR_STAR M" "dgrid A = ?g" "mheight M = mwidth A" "mwidth M = mheight A"
    using M0 g by (simp_all add: M_def AlignColsAndResize_def Resize_def is_MR_STAR_def)
  have wfM: "dm_wf M"
  proof -
    have "colAlign M \<in> {rowAlign A, colAlign M0}" unfolding M_def by (rule AlignColsAndResize_align)
    then show ?thesis
      using wf0 wfA M0 A g by (auto simp: dm_wf_def M_def AlignColsAndResize_def Resize_def ColStride_def
          RowStride_def is_MR_STAR_def is_MC_MR_def)
  qed
  have aA: "0 \<le> colAlign A" "colAlign A < ?r" using wfA A Mf(2) by (simp_all add: dm_wf_def)
  have lay: "same_layout (M1\<lparr>auxMem := m, locals := L\<rparr>) M" if "M1 = M\<lparr>auxSize := s\<rparr>"
    for M1 :: "'a DistMatrix" and m L s using that by (simp add: same_layout_def)
  have fin: "holds (M1\<lparr>auxMem := m, locals := L\<rparr>) G'" if "M1 = M\<lparr>auxSize := s\<rparr>" "holds (M\<lparr>locals := L\<rparr>) G'"
    for M1 :: "'a DistMatrix" and m L s G'
    using that holds_same_layout [of "M1\<lparr>auxMem := m, locals := L\<rparr>" "M\<lparr>locals := L\<rparr>" G']
    by (simp add: same_layout_def)
  show ?thesis
  proof (cases "colAlign M = rowAlign A")
    case True
    define P where "P = (\<lambda>q. Pad (LocalHeight M q * MaxLength (mwidth M) ?r))"
    define M1 where "M1 = M\<lparr>auxSize := \<lambda>q. max (auxSize M q) ((?r + 1) * P q)\<rparr>"
    define sent where "sent = (\<lambda>q. pack_trans_MC_MR (LocalHeight A q) (LocalHeight M q) f (locals A q) 0
                                   (auxMem M1 q))"
    define mem where "mem = (\<lambda>q. AllGather ?g MCComm (P q) 0 (P q) sent q)"
    define L where "L = (\<lambda>q. unpack_trans_MR_STAR ?r (colAlign A) (mwidth M) (LocalHeight M q) (P q) (P q)
                              (mem q) (locals M q))"
    have run: "MR_STAR_TransposeFrom conjugate cj M0 A = Inr (M1\<lparr>auxMem := mem, locals := L\<rparr>)"
      using True unfolding MR_STAR_TransposeFrom_def Let_def M_def [symmetric] f_def [symmetric]
      by (simp add: P_def M1_def sent_def mem_def L_def)
    have "holds (M\<lparr>locals := L\<rparr>) (\<lambda>(i, j). f (G (j, i)))"
      unfolding L_def
    proof (rule MR_STAR_trans_unpack_holds [OF Mf(1) wfM aA])
      fix q k jLoc iLoc assume "q \<in> procs ?g" "0 \<le> k" "k < ?r"
        "0 \<le> jLoc" "jLoc < Length (mwidth M) (Shift k (colAlign A) ?r) ?r" "0 \<le> iLoc" "iLoc < LocalHeight M q"
      from MR_STAR_trans_aligned_buf [OF Mf(1) wfM A Mf(2) wfA hA Mf(4) Mf(3) True this, of f "auxMem M1"]
      show "mem q (P q + k * P q + jLoc * LocalHeight M q + iLoc)
          = f (G (Shift k (colAlign A) ?r + jLoc * ?r, ColShift M q + iLoc * ?c))"
        by (simp add: mem_def sent_def P_def)
    qed
    then show ?thesis using run fin [OF M1_def] lay [OF M1_def] by (auto simp: f_def M_def [symmetric])
  next
    case False
    define P where "P = Pad (MaxLength (mheight M) ?c * MaxLength (mwidth M) ?r)"
    define M1 where "M1 = RequireAll ((?r + 1) * P) M"
    define sent where "sent = (\<lambda>q. pack_trans_MC_MR (LocalHeight A q) (LocalWidth A q) f (locals A q) P
                                   (auxMem M1 q))"
    have ok: "grid_ok ?g" using wfM by (simp add: dm_wf_def del: MR_STAR_dm)
    have aM: "0 \<le> colAlign M" "colAlign M < ?c"
      using wfM MR_STAR_dm(1) [OF Mf(1) wfM] by (simp_all add: dm_wf_def del: MR_STAR_dm)
    have bA: "0 \<le> rowAlign A" "rowAlign A < ?c" using wfA A Mf(2) by (simp_all add: dm_wf_def)
    obtain mem1 where SR: "SendRecv ?g MRComm (MR_STAR_trans_xfer M A P) sent = Some mem1"
      using SendRecv_Some [OF MR_STAR_trans_exchange(1) [OF ok aM bA, where P = P]] by blast
    define mem2 where "mem2 = AllGather ?g MCComm P 0 P mem1"
    define L where "L = (\<lambda>q. unpack_trans_MR_STAR ?r (colAlign A) (mwidth M) (LocalHeight M q) P P
                              (mem2 q) (locals M q))"
    have run: "MR_STAR_TransposeFrom conjugate cj M0 A = Inr (M1\<lparr>auxMem := mem2, locals := L\<rparr>)"
      using False SR unfolding MR_STAR_TransposeFrom_def Let_def
      by (simp flip: M_def f_def P_def M1_def sent_def mem2_def L_def)
    have "holds (M\<lparr>locals := L\<rparr>) (\<lambda>(i, j). f (G (j, i)))"
      unfolding L_def
    proof (rule MR_STAR_trans_unpack_holds [OF Mf(1) wfM aA, where base = "\<lambda>_. P" and P = "\<lambda>_. P"])
      fix q k jLoc iLoc assume "q \<in> procs ?g" "0 \<le> k" "k < ?r"
        "0 \<le> jLoc" "jLoc < Length (mwidth M) (Shift k (colAlign A) ?r) ?r" "0 \<le> iLoc" "iLoc < LocalHeight M q"
      from MR_STAR_trans_unaligned_buf [OF Mf(1) wfM A Mf(2) wfA hA Mf(4) Mf(3) SR [unfolded sent_def P_def] this]
      show "mem2 q (P + k * P + jLoc * LocalHeight M q + iLoc)
          = f (G (Shift k (colAlign A) ?r + jLoc * ?r, ColShift M q + iLoc * ?c))"
        by (simp add: mem2_def P_def)
    qed
    moreover have "M1 = M\<lparr>auxSize := \<lambda>q. max (auxSize M q) ((?r + 1) * P)\<rparr>" by (simp add: M1_def RequireAll_def)
    ultimately show ?thesis using run fin lay by (auto simp: f_def M_def [symmetric])
  qed
qed

section \<open>Properties\<close>

text \<open>C26. \<open>[MR,*]::TransposeFrom\<close> of an \<open>[MC,MR]\<close> matrix on the same grid
  delivers its transpose (with \<open>conjugate\<close>, its conjugate transpose) in \<open>[MR,*]\<close>,
  on both branches: the all-gather over the grid column when the destination's column
  alignment is \<open>A\<close>'s row alignment, and the trade within the grid row followed by
  the all-gather otherwise; neither can fail.\<close>

theorem MR_STAR_TransposeFrom_holds:
  assumes M0: "is_MR_STAR M0" and A: "is_MC_MR A" and g: "dgrid A = dgrid M0"
    and wf0: "dm_wf M0" and wfA: "dm_wf A" and hA: "holds A G"
  shows "\<exists>M'. MR_STAR_TransposeFrom conjugate cj M0 A = Inr M'
           \<and> holds M' (\<lambda>(i, j). conj_if conjugate cj (G (j, i)))
           \<and> is_MR_STAR M' \<and> dgrid M' = dgrid A \<and> mheight M' = mwidth A \<and> mwidth M' = mheight A"
proof -
  obtain M' where "MR_STAR_TransposeFrom conjugate cj M0 A = Inr M'"
      "holds M' (\<lambda>(i, j). conj_if conjugate cj (G (j, i)))"
      "same_layout M' (AlignColsAndResize (rowAlign A) (mwidth A) (mheight A) M0)"
    using MR_STAR_TransposeFrom_correct [OF M0 A g wf0 wfA hA] by blast
  then show ?thesis using M0 g
    by (auto simp: same_layout_def AlignColsAndResize_def Resize_def is_MR_STAR_def)
qed

end
