(* ===== verification/MC_MR_STAR_VR.thy ===== *)
theory MC_MR_STAR_VR
  imports MR_STAR_Trans
begin

text \<open>
  \<open>[MC,MR] = [*,VR]\<close> (\<open>src/src/core/dist_matrix/mc_mr.cpp\<close>, lines 660--820): a
  matrix whose columns are dealt round-robin over all \<open>p = r c\<close> processes in
  row-major order becomes one whose rows are dealt over the grid's rows and columns over
  its columns. It is \<open>[MC,MR] = [VC,*]\<close> with the roles of rows and columns, and of
  the grid's rows and columns, exchanged: each process splits its columns' entries by
  destination grid row, exchanges the pieces with its grid column in one all-to-all, and
  interleaves what it receives (the columns of the \<open>r\<close> processes \<open>col + k c\<close> in
  row-major order) into its local columns with stride \<open>r\<close>. When the destination's row
  alignment is not the source's modulo \<open>c\<close>, the packed data first moves within the
  grid row to the process holding the right columns.
\<close>

section \<open>Definitions\<close>

definition is_STAR_VR :: "'a DistMatrix \<Rightarrow> bool" where
  "is_STAR_VR M \<longleftrightarrow> colDist M = STAR \<and> rowDist M = VR"

text \<open>The pack loop of both branches (lines 698--715 and 771--788): for each row \<open>k\<close>
  of the grid, the rows of \<open>A\<close>'s local matrix that \<open>[MC,MR]\<close> gives to grid row
  \<open>k\<close> (under column alignment \<open>colAlign\<close>, the destination's), column by column,
  into block \<open>k\<close> of \<open>portionSize\<close> entries from \<open>base\<close>.\<close>

definition pack_STAR_VR :: "int \<Rightarrow> int \<Rightarrow> int \<Rightarrow> int \<Rightarrow> int \<Rightarrow> 'a lmat \<Rightarrow> int \<Rightarrow> 'a buf \<Rightarrow> 'a buf" where
  "pack_STAR_VR r ca height portionSize localWidthA ABuf base buf =
     for_loop r (\<lambda>k. let thisColShift = Shift k ca r;
                         thisLocalHeight = Length height thisColShift r in
       for_loop2 localWidthA thisLocalHeight (\<lambda>iLoc jLoc b.
         b(base + k * portionSize + jLoc * thisLocalHeight + iLoc := ABuf (thisColShift + iLoc * r, jLoc)))) buf"

text \<open>The unpack loop (lines 721--737 and 800--816): block \<open>k\<close> came from (the data
  of) the \<open>[*,VR]\<close> process of row-major rank \<open>firstCol + k c\<close>, whose columns are
  the global columns \<open>thisRowShift + jLoc p\<close>; its column \<open>jLoc\<close> becomes local column
  \<open>thisRowOffset + jLoc r\<close>, one \<open>MemCopy\<close> of \<open>localHeight\<close> entries.\<close>

definition unpack_STAR_VR :: "int \<Rightarrow> int \<Rightarrow> int \<Rightarrow> int \<Rightarrow> int \<Rightarrow> int \<Rightarrow> int \<Rightarrow> int \<Rightarrow> int
     \<Rightarrow> 'a buf \<Rightarrow> 'a lmat \<Rightarrow> 'a lmat" where
  "unpack_STAR_VR r c firstCol rowShift rowAlignA width localHeight portionSize base buf loc =
     for_loop r (\<lambda>k. let p = r * c;
                         thisRank = firstCol + k * c;
                         thisRowShift = Shift thisRank rowAlignA p;
                         thisRowOffset = (thisRowShift - rowShift) sdiv c;
                         thisLocalWidth = Length width thisRowShift p in
       for_loop2 thisLocalWidth localHeight (\<lambda>iLoc jLoc m.
         m((iLoc, thisRowOffset + jLoc * r) :=
             buf (base + k * portionSize + jLoc * localHeight + iLoc)))) loc"

text \<open>Aligned branch (lines 675--739): pack at the front of the arena, all-to-all over
  the grid column into the second half, unpack.\<close>

definition MC_MR_SVR_aligned :: "'a DistMatrix \<Rightarrow> 'a DistMatrix \<Rightarrow> 'a DistMatrix exn" where
  "MC_MR_SVR_aligned M A =
     (let g = dgrid M; r = gheight g; c = gwidth g; p = r * c;
          portionSize = Pad (MaxLength (mheight M) r * MaxLength (mwidth M) p);
          M1 = RequireAll (2 * r * portionSize) M;
          sent = (\<lambda>q. pack_STAR_VR r (colAlign M) (mheight M) portionSize (LocalWidth A q)
                        (locals A q) 0 (auxMem M1 q));
          X = (\<lambda>q. \<lparr>a2aSendOff = 0, a2aSendCount = portionSize,
                     a2aRecvOff = r * portionSize, a2aRecvCount = portionSize\<rparr>)
      in case AllToAll g MCComm X sent of
           None \<Rightarrow> Inl (CommError, M1\<lparr>auxMem := sent\<rparr>)
         | Some mem \<Rightarrow> Inr (M1\<lparr>auxMem := mem,
             locals := \<lambda>q. unpack_STAR_VR r c (gcol g q) (RowShift M q) (rowAlign A) (mwidth M)
                             (LocalHeight M q) portionSize (r * portionSize) (mem q) (locals M q)\<rparr>))"

text \<open>Unaligned branch (lines 740--818): pack into the second half, trade the packed
  data within the grid row (\<open>sendCol\<close>, \<open>recvCol\<close>), all-to-all over the grid column
  back into the second half, unpack as if the process were in column \<open>recvCol\<close>.\<close>

definition MC_MR_SVR_cols :: "'a DistMatrix \<Rightarrow> 'a DistMatrix \<Rightarrow> int \<Rightarrow> int \<times> int" where
  "MC_MR_SVR_cols M A q =
     (let c = gwidth (dgrid M); col = gcol (dgrid M) q in
      ((col + c + rowAlign M - (rowAlign A smod c)) smod c,
       (col + c + (rowAlign A smod c) - rowAlign M) smod c))"

definition MC_MR_SVR_unaligned :: "'a DistMatrix \<Rightarrow> 'a DistMatrix \<Rightarrow> 'a DistMatrix exn" where
  "MC_MR_SVR_unaligned M A =
     (let g = dgrid M; r = gheight g; c = gwidth g; p = r * c;
          portionSize = Pad (MaxLength (mheight M) r * MaxLength (mwidth M) p);
          M1 = RequireAll (2 * r * portionSize) M;
          sent = (\<lambda>q. pack_STAR_VR r (colAlign M) (mheight M) portionSize (LocalWidth A q)
                        (locals A q) (r * portionSize) (auxMem M1 q));
          X1 = (\<lambda>q. \<lparr>sendOff = r * portionSize, sendCount = r * portionSize,
                      sendTo = fst (MC_MR_SVR_cols M A q), recvOff = 0,
                      recvCount = r * portionSize, recvFrom = snd (MC_MR_SVR_cols M A q)\<rparr>);
          X2 = (\<lambda>q. \<lparr>a2aSendOff = 0, a2aSendCount = portionSize,
                      a2aRecvOff = r * portionSize, a2aRecvCount = portionSize\<rparr>)
      in case SendRecv g MRComm X1 sent of
           None \<Rightarrow> Inl (CommError, M1\<lparr>auxMem := sent\<rparr>)
         | Some mem1 \<Rightarrow>
             (case AllToAll g MCComm X2 mem1 of
                None \<Rightarrow> Inl (CommError, M1\<lparr>auxMem := mem1\<rparr>)
              | Some mem2 \<Rightarrow> Inr (M1\<lparr>auxMem := mem2,
                  locals := \<lambda>q. unpack_STAR_VR r c (snd (MC_MR_SVR_cols M A q)) (RowShift M q)
                                  (rowAlign A) (mwidth M) (LocalHeight M q) portionSize
                                  (r * portionSize) (mem2 q) (locals M q)\<rparr>)))"

text \<open>The operator (lines 660--674 and 819--820): adopt \<open>A\<close>'s row alignment modulo
  \<open>c\<close> and its size unless constrained, then take the branch. Every process takes part
  in a \<open>[MC,MR]\<close> matrix, so the early return is never taken.\<close>

definition MC_MR_from_STAR_VR :: "'a DistMatrix \<Rightarrow> 'a DistMatrix \<Rightarrow> 'a DistMatrix exn" where
  "MC_MR_from_STAR_VR M0 A =
     (let c = gwidth (dgrid M0);
          M = AlignRowsAndResize (rowAlign A smod c) (mheight A) (mwidth A) M0
      in if rowAlign M = rowAlign A smod c then MC_MR_SVR_aligned M A
         else MC_MR_SVR_unaligned M A)"

section \<open>Reading the loops back\<close>

lemma pack_STAR_VR_at:
  assumes r: "0 < r" and ca: "0 \<le> ca" "ca < r"
    and k: "0 \<le> k" "k < r" and j: "0 \<le> jLoc" "jLoc < lwA"
    and i: "0 \<le> i" "i < Length height (Shift k ca r) r"
    and fit: "\<And>k. 0 \<le> k \<Longrightarrow> k < r \<Longrightarrow> lwA * Length height (Shift k ca r) r \<le> portion"
  shows "pack_STAR_VR r ca height portion lwA ABuf base buf
           (base + k * portion + jLoc * Length height (Shift k ca r) r + i)
         = ABuf (Shift k ca r + i * r, jLoc)"
proof -
  define v where "v x = (let d = x - base; k' = d div portion; t = d mod portion;
      lh = Length height (Shift k' ca r) r in ABuf (Shift k' ca r + (t mod lh) * r, t div lh))" for x
  have v: "v (base + k' * portion + j' * Length height (Shift k' ca r) r + i') = ABuf (Shift k' ca r + i' * r, j')"
    if "0 \<le> k'" "k' < r" "0 \<le> j'" "j' < lwA" "0 \<le> i'" "i' < Length height (Shift k' ca r) r" for k' j' i'
  proof -
    let ?lh = "Length height (Shift k' ca r) r"
    have "j' * ?lh + i' < (j' + 1) * ?lh" using that by (simp add: algebra_simps)
    also have "\<dots> \<le> lwA * ?lh" using that by (intro mult_right_mono) auto
    also have "\<dots> \<le> portion" using fit that by simp
    finally have lt: "j' * ?lh + i' < portion" .
    have "0 \<le> j' * ?lh + i'" using that by simp
    then have "(k' * portion + (j' * ?lh + i')) div portion = k'"
      "(k' * portion + (j' * ?lh + i')) mod portion = j' * ?lh + i'"
      using lt by (simp_all only: block_div_mod)
    moreover have "(j' * ?lh + i') mod ?lh = i'" "(j' * ?lh + i') div ?lh = j'"
      using that by simp_all
    ultimately show ?thesis by (simp add: v_def Let_def add.assoc)
  qed
  have w: "writes (pack_STAR_VR r ca height portion lwA ABuf base)
     (\<Union>k\<in>{0..<r}. \<Union>jLoc\<in>{0..<lwA}. \<Union>iLoc\<in>{0..<Length height (Shift k ca r) r}.
        {base + k * portion + jLoc * Length height (Shift k ca r) r + iLoc}) v"
    unfolding pack_STAR_VR_def Let_def
    using v by (intro writes_for_loop writes_for_loop2 writes_upd) simp
  have "base + k * portion + jLoc * Length height (Shift k ca r) r + i \<in>
     (\<Union>k\<in>{0..<r}. \<Union>jLoc\<in>{0..<lwA}. \<Union>iLoc\<in>{0..<Length height (Shift k ca r) r}.
        {base + k * portion + jLoc * Length height (Shift k ca r) r + iLoc})"
    using k j i by (intro UN_I [of k] UN_I [of jLoc] UN_I [of i]) auto
  from writes_at [OF w this] show ?thesis using v k j i by simp
qed

lemma unpack_STAR_VR_at:
  fixes r c :: int
  assumes r: "0 < r" and c: "0 < c" and fc: "0 \<le> fc" "fc < c" and aA: "0 \<le> aA" "aA < r * c"
    and rs: "rowShift = (fc - aA) mod c"
    and buf: "\<And>k jLoc iLoc. 0 \<le> k \<Longrightarrow> k < r \<Longrightarrow> 0 \<le> jLoc
       \<Longrightarrow> jLoc < Length width (Shift (fc + k * c) aA (r * c)) (r * c) \<Longrightarrow> 0 \<le> iLoc \<Longrightarrow> iLoc < lh
       \<Longrightarrow> buf (base + k * portion + jLoc * lh + iLoc)
           = V (iLoc, Shift (fc + k * c) aA (r * c) + jLoc * (r * c))"
    and i: "0 \<le> i" "i < lh" and j: "0 \<le> j" "j < Length width rowShift c"
  shows "unpack_STAR_VR r c fc rowShift aA width lh portion base buf loc (i, j)
         = V (i, rowShift + j * c)"
proof -
  let ?p = "r * c"
  have pc: "c * r = ?p" by (rule mult.commute)
  let ?ts = "\<lambda>k. Shift (fc + k * c) aA ?p"
  let ?to = "\<lambda>k. (?ts k - rowShift) sdiv c"
  define v where "v = (\<lambda>(i', j'). V (i', rowShift + j' * c))"
  have aA': "aA < c * r" using aA(2) by (simp only: mult.commute)
  have ts: "0 \<le> ?ts k" "?ts k = rowShift + ?to k * c" if "0 \<le> k" for k
  proof -
    have "?ts k mod c = rowShift" using VC_shift_mod [OF c r fc(1) aA(1) aA' that] rs pc by simp
    moreover have "0 \<le> ?ts k" using that fc aA r c by (intro Shift_range) auto
    ultimately show "0 \<le> ?ts k" "?ts k = rowShift + ?to k * c"
      using shift_offset [OF c] by auto
  qed
  have w: "writes (unpack_STAR_VR r c fc rowShift aA width lh portion base buf)
     (\<Union>k\<in>{0..<r}. \<Union>jLoc\<in>{0..<Length width (?ts k) ?p}. \<Union>iLoc\<in>{0..<lh}. {(iLoc, ?to k + jLoc * r)}) v"
    unfolding unpack_STAR_VR_def Let_def
  proof (intro writes_for_loop writes_for_loop2 writes_upd)
    fix k iLoc jLoc assume k: "0 \<le> k" "k < r" and il: "0 \<le> iLoc" "iLoc < lh"
      and jl: "0 \<le> jLoc" "jLoc < Length width (?ts k) ?p"
    have "?ts k + jLoc * ?p = rowShift + (?to k + jLoc * r) * c"
      using ts(2) [OF k(1)] by (simp add: algebra_simps)
    then show "buf (base + k * portion + jLoc * lh + iLoc) = v (iLoc, ?to k + jLoc * r)"
      using buf [OF k jl il] by (simp add: v_def)
  qed
  have rs0: "0 \<le> rowShift" "rowShift < c" using rs c by simp_all
  have gj: "0 \<le> rowShift + j * c" "(rowShift + j * c) mod c = (fc - aA) mod c"
    using rs0 j c rs by simp_all
  obtain k jLoc where k: "0 \<le> k" "k < r" and jl: "0 \<le> jLoc"
      and e: "rowShift + j * c = Shift (fc + k * c) aA (c * r) + jLoc * (c * r)"
    using VC_owner [OF c r fc aA(1) aA' gj] by blast
  have e': "rowShift + j * c = ?ts k + jLoc * ?p" using e pc by simp
  have lt: "rowShift + j * c < width" using j c rs0 by (simp add: Length_iff)
  have "jLoc < Length width (?ts k) ?p"
    using e' lt jl r c by (simp add: Length_iff)
  moreover have "j = ?to k + jLoc * r"
  proof -
    have "rowShift + j * c = rowShift + (?to k + jLoc * r) * c"
      using e' ts(2) [OF k(1)] by (simp add: algebra_simps)
    then show ?thesis using c by simp
  qed
  ultimately have "(i, j) \<in> (\<Union>k\<in>{0..<r}. \<Union>jLoc\<in>{0..<Length width (?ts k) ?p}. \<Union>iLoc\<in>{0..<lh}.
      {(iLoc, ?to k + jLoc * r)})"
    using k i jl by (intro UN_I [of k] UN_I [of jLoc] UN_I [of i]) auto
  from writes_at [OF w this] show ?thesis by (simp add: v_def)
qed

lemma STAR_VR_dm:
  assumes "is_STAR_VR A" "dm_wf A"
  shows "ColStride A = 1" "RowStride A = gsize (dgrid A)" "Participating A q" "ColShift A q = 0"
    "RowShift A q = Shift (vr_rank (dgrid A) q) (rowAlign A) (gsize (dgrid A))"
    "LocalHeight A q = max 0 (mheight A)"
    "LocalWidth A q = Length (mwidth A) (Shift (vr_rank (dgrid A) q) (rowAlign A) (gsize (dgrid A))) (gsize (dgrid A))"
proof -
  have "colAlign A = 0" using assms by (simp add: dm_wf_def is_STAR_VR_def ColStride_def)
  then show "ColStride A = 1" "RowStride A = gsize (dgrid A)" "Participating A q" "ColShift A q = 0"
    "RowShift A q = Shift (vr_rank (dgrid A) q) (rowAlign A) (gsize (dgrid A))"
    "LocalHeight A q = max 0 (mheight A)"
    "LocalWidth A q = Length (mwidth A) (Shift (vr_rank (dgrid A) q) (rowAlign A) (gsize (dgrid A))) (gsize (dgrid A))"
    using assms by (simp_all add: is_STAR_VR_def dm_defs Shift_def Length_def)
qed

lemma vr_rank_rowcol:
  assumes "grid_ok g" "0 \<le> i" "i < gheight g"
  shows "vr_rank g (i + j * gheight g) = j + i * gwidth g"
  using rowcol_vc [OF assms] by (simp add: vr_rank_def)

section \<open>Correctness\<close>

text \<open>What the unpack of either branch produces: if block \<open>k\<close> of a process's buffer
  holds what the \<open>[*,VR]\<close> process in grid row \<open>k\<close>, column \<open>fc\<close>, packed for the
  process's grid row, the result holds the process's \<open>[MC,MR]\<close> entries.\<close>

lemma MC_MR_SVR_unpack_holds:
  assumes M: "is_MC_MR M" and A: "is_STAR_VR A" and g: "dgrid A = dgrid M"
    and wfM: "dm_wf M" and wfA: "dm_wf A" and hA: "holds A G"
    and sz: "mheight M = mheight A" "mwidth M = mwidth A"
    and q: "q \<in> procs (dgrid M)" and fc: "0 \<le> fc" "fc < gwidth (dgrid M)"
    and rs: "RowShift M q = (fc - rowAlign A) mod gwidth (dgrid M)"
    and P: "P = Pad (MaxLength (mheight M) (gheight (dgrid M)) * MaxLength (mwidth M) (gsize (dgrid M)))"
    and buf: "\<And>k t. 0 \<le> k \<Longrightarrow> k < gheight (dgrid M) \<Longrightarrow> 0 \<le> t \<Longrightarrow> t < P \<Longrightarrow>
       buf (gheight (dgrid M) * P + k * P + t)
       = pack_STAR_VR (gheight (dgrid M)) (colAlign M) (mheight M) P
           (LocalWidth A (k + fc * gheight (dgrid M))) (locals A (k + fc * gheight (dgrid M)))
           base (B (k + fc * gheight (dgrid M))) (base + grow (dgrid M) q * P + t)"
    and i: "0 \<le> i" "i < LocalHeight M q" and j: "0 \<le> j" "j < LocalWidth M q"
  shows "unpack_STAR_VR (gheight (dgrid M)) (gwidth (dgrid M)) fc (RowShift M q) (rowAlign A)
           (mwidth M) (LocalHeight M q) P (gheight (dgrid M) * P) buf loc (i, j)
         = G (ColShift M q + i * ColStride M, RowShift M q + j * RowStride M)"
proof -
  let ?g = "dgrid M" let ?r = "gheight ?g" let ?c = "gwidth ?g" let ?p = "?r * ?c"
  have ok: "grid_ok ?g" using wfM by (simp add: dm_wf_def)
  then have r: "0 < ?r" and c: "0 < ?c" by (simp_all add: grid_ok_def)
  have gs: "gsize ?g = ?p" by (simp add: gsize_def)
  note dmA = STAR_VR_dm [OF A wfA]
  have aA: "0 \<le> rowAlign A" "rowAlign A < ?p" using wfA dmA(2) g by (simp_all add: dm_wf_def gs)
  have ca: "0 \<le> colAlign M" "colAlign M < ?r" using wfM M by (simp_all add: dm_wf_def is_MC_MR_def ColStride_def)
  have row: "0 \<le> grow ?g q" "grow ?g q < ?r" using grow_range [OF ok] by auto
  have cs: "ColShift M q = Shift (grow ?g q) (colAlign M) ?r" using M by (simp add: MC_MR_shifts)
  have lh: "LocalHeight M q = Length (mheight M) (Shift (grow ?g q) (colAlign M) ?r) ?r"
    using M cs by (simp add: MC_MR_shifts)
  have hnn: "0 \<le> mheight M" "0 \<le> mwidth M" using wfM by (simp_all add: dm_wf_def)
  have bufP: "buf (?r * P + k * P + jLoc * LocalHeight M q + iLoc)
      = (\<lambda>(il, gj). G (ColShift M q + il * ?r, gj)) (iLoc, Shift (fc + k * ?c) (rowAlign A) ?p + jLoc * ?p)"
    if k: "0 \<le> k" "k < ?r" and jl: "0 \<le> jLoc" "jLoc < Length (mwidth M) (Shift (fc + k * ?c) (rowAlign A) ?p) ?p"
      and il: "0 \<le> iLoc" "iLoc < LocalHeight M q"
    for k jLoc iLoc
  proof -
    let ?s = "k + fc * ?r"
    have s: "?s \<in> procs ?g" using fc k ok by (simp add: rowcol_in_procs)
    have vs: "vr_rank ?g ?s = fc + k * ?c" using vr_rank_rowcol [OF ok k] by simp
    have lwA: "LocalWidth A ?s = Length (mwidth M) (Shift (fc + k * ?c) (rowAlign A) ?p) ?p"
      using dmA(7) [of ?s] g sz vs by (simp add: gs)
    have sh0: "0 \<le> Shift (fc + k * ?c) (rowAlign A) ?p" using fc k c aA by (intro Shift_range) auto
    have fit: "LocalWidth A ?s * Length (mheight M) (Shift k' (colAlign M) ?r) ?r \<le> P"
      if "0 \<le> k'" "k' < ?r" for k'
    proof -
      have "0 \<le> Shift k' (colAlign M) ?r" using ca that by (intro Shift_range) auto
      then have "Length (mheight M) (Shift k' (colAlign M) ?r) ?r * Length (mwidth M) (Shift (fc + k * ?c) (rowAlign A) ?p) ?p \<le> P"
        using P r c sh0 by (simp add: gs Pad_fit)
      then show ?thesis by (simp add: lwA mult.commute)
    qed
    have "0 \<le> LocalHeight M q" using lh r by (simp add: Length_nonneg)
    then have t0: "0 \<le> jLoc * LocalHeight M q + iLoc" using jl il by simp
    have "jLoc * LocalHeight M q + iLoc < (jLoc + 1) * LocalHeight M q"
      using il by (simp add: algebra_simps)
    also have "\<dots> \<le> LocalWidth A ?s * LocalHeight M q"
      using jl il lwA by (intro mult_right_mono) auto
    also have "\<dots> \<le> P" using fit [OF row] lh by simp
    finally have t1: "jLoc * LocalHeight M q + iLoc < P" .
    have iA: "0 \<le> ColShift M q + iLoc * ?r" "ColShift M q + iLoc * ?r < mheight A"
    proof -
      have "0 \<le> ColShift M q" using cs ca row by (simp add: Shift_range)
      then show "0 \<le> ColShift M q + iLoc * ?r" using il r by simp
      show "ColShift M q + iLoc * ?r < mheight A"
        using il lh cs r sz by (simp add: Length_iff)
    qed
    have "buf (?r * P + k * P + (jLoc * LocalHeight M q + iLoc))
        = pack_STAR_VR ?r (colAlign M) (mheight M) P (LocalWidth A ?s) (locals A ?s) base (B ?s)
            (base + grow ?g q * P + (jLoc * LocalHeight M q + iLoc))"
      using buf [OF k t0 t1] .
    also have "\<dots> = locals A ?s (Shift (grow ?g q) (colAlign M) ?r + iLoc * ?r, jLoc)"
    proof -
      have "pack_STAR_VR ?r (colAlign M) (mheight M) P (LocalWidth A ?s) (locals A ?s) base (B ?s)
              (base + grow ?g q * P + jLoc * Length (mheight M) (Shift (grow ?g q) (colAlign M) ?r) ?r + iLoc)
            = locals A ?s (Shift (grow ?g q) (colAlign M) ?r + iLoc * ?r, jLoc)"
        by (rule pack_STAR_VR_at [OF r ca row]) (use jl il lh lwA fit in simp_all)
      then show ?thesis by (simp add: add.assoc lh)
    qed
    also have "\<dots> = G (ColShift M q + iLoc * ?r, Shift (fc + k * ?c) (rowAlign A) ?p + jLoc * ?p)"
      using hA s iA jl lwA cs g dmA vs by (auto simp: holds_def gs)
    finally show ?thesis by (simp add: add.assoc)
  qed
  have "unpack_STAR_VR ?r ?c fc (RowShift M q) (rowAlign A) (mwidth M) (LocalHeight M q) P (?r * P) buf loc (i, j)
        = (\<lambda>(il, gj). G (ColShift M q + il * ?r, gj)) (i, RowShift M q + j * ?c)"
    using i j M by (intro unpack_STAR_VR_at [OF r c fc aA rs] bufP) (simp_all add: MC_MR_shifts)
  then show ?thesis using M by (simp add: ColStride_def RowStride_def is_MC_MR_def)
qed

lemma MC_MR_SVR_finish:
  assumes M: "is_MC_MR M" and A: "is_STAR_VR A" and g: "dgrid A = dgrid M"
    and wfM: "dm_wf M" and wfA: "dm_wf A" and hA: "holds A G"
    and sz: "mheight M = mheight A" "mwidth M = mwidth A"
    and P: "P = Pad (MaxLength (mheight M) (gheight (dgrid M)) * MaxLength (mwidth M) (gsize (dgrid M)))"
    and fc: "\<And>q. q \<in> procs (dgrid M) \<Longrightarrow> 0 \<le> fc q \<and> fc q < gwidth (dgrid M)
               \<and> RowShift M q = (fc q - rowAlign A) mod gwidth (dgrid M)"
    and buf: "\<And>q k t. q \<in> procs (dgrid M) \<Longrightarrow> 0 \<le> k \<Longrightarrow> k < gheight (dgrid M) \<Longrightarrow> 0 \<le> t \<Longrightarrow> t < P \<Longrightarrow>
       mem q (gheight (dgrid M) * P + k * P + t)
       = pack_STAR_VR (gheight (dgrid M)) (colAlign M) (mheight M) P
           (LocalWidth A (k + fc q * gheight (dgrid M))) (locals A (k + fc q * gheight (dgrid M)))
           base (B (k + fc q * gheight (dgrid M))) (base + grow (dgrid M) q * P + t)"
    and lay: "same_layout N M"
  shows "holds (N\<lparr>locals := \<lambda>q. unpack_STAR_VR (gheight (dgrid M)) (gwidth (dgrid M)) (fc q)
            (RowShift M q) (rowAlign A) (mwidth M) (LocalHeight M q) P (gheight (dgrid M) * P)
            (mem q) (locals M q)\<rparr>) G"
  unfolding holds_locals_update [OF lay]
proof (rule holds_locals_intro)
  fix q i j assume q: "q \<in> procs (dgrid M)" and i: "0 \<le> i" "i < LocalHeight M q"
    and j: "0 \<le> j" "j < LocalWidth M q"
  have f: "0 \<le> fc q" "fc q < gwidth (dgrid M)" "RowShift M q = (fc q - rowAlign A) mod gwidth (dgrid M)"
    using fc [OF q] by auto
  show "unpack_STAR_VR (gheight (dgrid M)) (gwidth (dgrid M)) (fc q) (RowShift M q) (rowAlign A)
          (mwidth M) (LocalHeight M q) P (gheight (dgrid M) * P) (mem q) (locals M q) (i, j)
        = G (ColShift M q + i * ColStride M, RowShift M q + j * RowStride M)"
    by (rule MC_MR_SVR_unpack_holds [OF M A g wfM wfA hA sz q f P _ i j]) (rule buf [OF q])
qed

lemma MC_MR_SVR_aligned_holds:
  assumes M: "is_MC_MR M" and A: "is_STAR_VR A" and g: "dgrid A = dgrid M"
    and wfM: "dm_wf M" and wfA: "dm_wf A" and hA: "holds A G"
    and sz: "mheight M = mheight A" "mwidth M = mwidth A"
    and al: "rowAlign M = rowAlign A smod gwidth (dgrid M)"
  shows "\<exists>M'. MC_MR_SVR_aligned M A = Inr M' \<and> holds M' G \<and> same_layout M' M"
proof -
  let ?g = "dgrid M" let ?r = "gheight ?g" let ?c = "gwidth ?g" let ?p = "?r * ?c"
  define P where "P = Pad (MaxLength (mheight M) ?r * MaxLength (mwidth M) ?p)"
  define M1 where "M1 = RequireAll (2 * ?r * P) M"
  define sent where "sent = (\<lambda>q. pack_STAR_VR ?r (colAlign M) (mheight M) P (LocalWidth A q)
                        (locals A q) 0 (auxMem M1 q))"
  define X where "X = (\<lambda>q::int. \<lparr>a2aSendOff = 0, a2aSendCount = P,
                     a2aRecvOff = ?r * P, a2aRecvCount = P\<rparr>)"
  have ok: "grid_ok ?g" using wfM by (simp add: dm_wf_def)
  then have c: "0 < ?c" by (simp add: grid_ok_def)
  have aA: "0 \<le> rowAlign A" using wfA by (simp add: dm_wf_def)
  have "0 < P" by (simp add: P_def Pad_ge)
  then have "AllToAll_ok ?g MCComm X"
    by (simp add: AllToAll_ok_def X_def)
  then obtain mem where mem: "AllToAll ?g MCComm X sent = Some mem"
    using AllToAll_Some by blast
  have res: "MC_MR_SVR_aligned M A = Inr (M1\<lparr>auxMem := mem,
             locals := \<lambda>q. unpack_STAR_VR ?r ?c (gcol ?g q) (RowShift M q) (rowAlign A) (mwidth M)
                             (LocalHeight M q) P (?r * P) (mem q) (locals M q)\<rparr>)"
    using mem unfolding MC_MR_SVR_aligned_def Let_def P_def [symmetric] M1_def [symmetric]
      sent_def [symmetric] X_def [symmetric] by simp
  have lay: "same_layout (M1\<lparr>auxMem := mem\<rparr>) M"
    by (simp add: same_layout_def M1_def RequireAll_def)
  have "holds (M1\<lparr>auxMem := mem, locals := \<lambda>q. unpack_STAR_VR ?r ?c (gcol ?g q) (RowShift M q)
                 (rowAlign A) (mwidth M) (LocalHeight M q) P (?r * P) (mem q) (locals M q)\<rparr>) G"
  proof (rule MC_MR_SVR_finish [OF M A g wfM wfA hA sz _ _ _ lay])
    show "P = Pad (MaxLength (mheight M) ?r * MaxLength (mwidth M) (gsize ?g))"
      by (simp add: P_def gsize_def)
    fix q assume q: "q \<in> procs ?g"
    have fc: "0 \<le> gcol ?g q" "gcol ?g q < ?c" using gcol_range [OF ok q] by auto
    have "RowShift M q = (gcol ?g q - rowAlign M) mod ?c"
      using M wfM fc by (simp add: MC_MR_shifts Shift_eq dm_wf_def)
    also have "\<dots> = (gcol ?g q - rowAlign A) mod ?c"
      using al aA c by (simp add: mod_diff_right_eq)
    finally show "0 \<le> gcol ?g q \<and> gcol ?g q < ?c \<and> RowShift M q = (gcol ?g q - rowAlign A) mod ?c"
      using fc by simp
    fix k t assume k: "0 \<le> k" "k < ?r" and t: "0 \<le> t" "t < P"
    have "mem q (a2aRecvOff (X q) + k * a2aRecvCount (X q) + t)
        = sent (comm_member ?g MCComm q k)
            (a2aSendOff (X (comm_member ?g MCComm q k))
             + comm_rank ?g MCComm q * a2aSendCount (X (comm_member ?g MCComm q k)) + t)"
      by (rule AllToAll_at [OF mem]) (use k t in \<open>simp_all add: X_def\<close>)
    then show "mem q (?r * P + k * P + t)
        = pack_STAR_VR ?r (colAlign M) (mheight M) P (LocalWidth A (k + gcol ?g q * ?r))
            (locals A (k + gcol ?g q * ?r)) 0 (auxMem M1 (k + gcol ?g q * ?r))
            (0 + grow ?g q * P + t)"
      by (simp add: X_def sent_def)
  qed
  moreover have "same_layout (M1\<lparr>auxMem := mem, locals := \<lambda>q. unpack_STAR_VR ?r ?c (gcol ?g q) (RowShift M q)
                 (rowAlign A) (mwidth M) (LocalHeight M q) P (?r * P) (mem q) (locals M q)\<rparr>) M"
    using lay by (simp only: same_layout_locals)
  ultimately show ?thesis using res by blast
qed

lemma MC_MR_SVR_unaligned_holds:
  assumes M: "is_MC_MR M" and A: "is_STAR_VR A" and g: "dgrid A = dgrid M"
    and wfM: "dm_wf M" and wfA: "dm_wf A" and hA: "holds A G"
    and sz: "mheight M = mheight A" "mwidth M = mwidth A"
  shows "\<exists>M'. MC_MR_SVR_unaligned M A = Inr M' \<and> holds M' G \<and> same_layout M' M"
proof -
  let ?g = "dgrid M" let ?r = "gheight ?g" let ?c = "gwidth ?g" let ?p = "?r * ?c"
  define b where "b = rowAlign A mod ?c"
  define P where "P = Pad (MaxLength (mheight M) ?r * MaxLength (mwidth M) ?p)"
  define M1 where "M1 = RequireAll (2 * ?r * P) M"
  define sent where "sent = (\<lambda>q. pack_STAR_VR ?r (colAlign M) (mheight M) P (LocalWidth A q)
                        (locals A q) (?r * P) (auxMem M1 q))"
  define X1 where "X1 = (\<lambda>q. \<lparr>sendOff = ?r * P, sendCount = ?r * P,
                      sendTo = fst (MC_MR_SVR_cols M A q), recvOff = 0,
                      recvCount = ?r * P, recvFrom = snd (MC_MR_SVR_cols M A q)\<rparr>)"
  define X2 where "X2 = (\<lambda>q::int. \<lparr>a2aSendOff = 0, a2aSendCount = P,
                      a2aRecvOff = ?r * P, a2aRecvCount = P\<rparr>)"
  have ok: "grid_ok ?g" using wfM by (simp add: dm_wf_def)
  then have c: "0 < ?c" by (simp add: grid_ok_def)
  have aM: "0 \<le> rowAlign M" "rowAlign M < ?c" using wfM M by (simp_all add: dm_wf_def is_MC_MR_def RowStride_def)
  have aA: "0 \<le> rowAlign A" using wfA by (simp add: dm_wf_def)
  have bb: "0 \<le> b" "b < ?c" using c by (simp_all add: b_def)
  note E = row_exchange [OF ok _ aM bb]
  have cols: "MC_MR_SVR_cols M A p = ((gcol ?g p + ?c + (rowAlign M - b)) smod ?c,
                                      (gcol ?g p + ?c - (rowAlign M - b)) smod ?c)" for p
    using aA c by (simp add: MC_MR_SVR_cols_def Let_def b_def algebra_simps)
  have "0 < P" by (simp add: P_def Pad_ge)
  have ok1: "SendRecv_ok ?g MRComm X1"
    unfolding SendRecv_ok_def
  proof
    fix q assume q: "q \<in> procs ?g"
    show "0 \<le> sendTo (X1 q) \<and> sendTo (X1 q) < comm_size ?g MRComm
        \<and> 0 \<le> recvFrom (X1 q) \<and> recvFrom (X1 q) < comm_size ?g MRComm
        \<and> recvFrom (X1 (comm_member ?g MRComm q (sendTo (X1 q)))) = comm_rank ?g MRComm q
        \<and> sendTo (X1 (comm_member ?g MRComm q (recvFrom (X1 q)))) = comm_rank ?g MRComm q
        \<and> sendCount (X1 (comm_member ?g MRComm q (recvFrom (X1 q)))) \<le> recvCount (X1 q)"
      using E(1-6) [OF q] by (simp add: X1_def cols)
  qed
  then obtain mem1 where mem1: "SendRecv ?g MRComm X1 sent = Some mem1"
    by (simp add: SendRecv_def)
  have "AllToAll_ok ?g MCComm X2"
    using \<open>0 < P\<close> by (simp add: AllToAll_ok_def X2_def)
  then obtain mem2 where mem2: "AllToAll ?g MCComm X2 mem1 = Some mem2"
    using AllToAll_Some by blast
  have res: "MC_MR_SVR_unaligned M A = Inr (M1\<lparr>auxMem := mem2,
                  locals := \<lambda>q. unpack_STAR_VR ?r ?c (snd (MC_MR_SVR_cols M A q)) (RowShift M q)
                                  (rowAlign A) (mwidth M) (LocalHeight M q) P
                                  (?r * P) (mem2 q) (locals M q)\<rparr>)"
    using mem1 mem2 unfolding MC_MR_SVR_unaligned_def Let_def P_def [symmetric] M1_def [symmetric]
      sent_def [symmetric] X1_def [symmetric] X2_def [symmetric] by simp
  have lay: "same_layout (M1\<lparr>auxMem := mem2\<rparr>) M"
    by (simp add: same_layout_def M1_def RequireAll_def)
  have "holds (M1\<lparr>auxMem := mem2, locals := \<lambda>q. unpack_STAR_VR ?r ?c (snd (MC_MR_SVR_cols M A q))
                 (RowShift M q) (rowAlign A) (mwidth M) (LocalHeight M q) P
                 (?r * P) (mem2 q) (locals M q)\<rparr>) G"
  proof (rule MC_MR_SVR_finish [OF M A g wfM wfA hA sz _ _ _ lay])
    show "P = Pad (MaxLength (mheight M) ?r * MaxLength (mwidth M) (gsize ?g))"
      by (simp add: P_def gsize_def)
    fix q assume q: "q \<in> procs ?g"
    have "RowShift M q = Shift (gcol ?g q) (rowAlign M) ?c"
      using M by (simp add: MC_MR_shifts)
    also have "\<dots> = Shift (snd (MC_MR_SVR_cols M A q)) b ?c"
      using E(10) [OF q] by (simp add: cols)
    also have "\<dots> = (snd (MC_MR_SVR_cols M A q) - rowAlign A) mod ?c"
      using E(3,4) [OF q] bb by (simp add: Shift_eq b_def mod_diff_right_eq cols)
    finally show "0 \<le> snd (MC_MR_SVR_cols M A q) \<and> snd (MC_MR_SVR_cols M A q) < ?c
        \<and> RowShift M q = (snd (MC_MR_SVR_cols M A q) - rowAlign A) mod ?c"
      using E(3,4) [OF q] by (simp add: cols)
    fix k t assume k: "0 \<le> k" "k < ?r" and t: "0 \<le> t" "t < P"
    let ?s = "comm_member ?g MCComm q k"
    have s: "?s = k + gcol ?g q * ?r" "grow ?g ?s = k" "gcol ?g ?s = gcol ?g q" "?s \<in> procs ?g"
      using k ok MC_member_vr [OF ok q k] by (simp_all add: rowcol_vc)
    have "mem2 q (a2aRecvOff (X2 q) + k * a2aRecvCount (X2 q) + t)
        = mem1 ?s (a2aSendOff (X2 ?s) + comm_rank ?g MCComm q * a2aSendCount (X2 ?s) + t)"
      by (rule AllToAll_at [OF mem2]) (use k t in \<open>simp_all add: X2_def\<close>)
    also have "\<dots> = mem1 ?s (recvOff (X1 ?s) + (grow ?g q * P + t))"
      by (simp add: X2_def X1_def)
    also have "\<dots> = sent (comm_member ?g MRComm ?s (recvFrom (X1 ?s)))
                      (sendOff (X1 (comm_member ?g MRComm ?s (recvFrom (X1 ?s)))) + (grow ?g q * P + t))"
    proof (rule SendRecv_at [OF mem1])
      show "0 \<le> grow ?g q * P + t" using grow_range [OF ok, of q] t by simp
      have "grow ?g q * P + t < (grow ?g q + 1) * P" using t by (simp add: algebra_simps)
      also have "\<dots> \<le> ?r * P" using grow_range [OF ok, of q] \<open>0 < P\<close> by (intro mult_right_mono) auto
      finally show "grow ?g q * P + t < sendCount (X1 (comm_member ?g MRComm ?s (recvFrom (X1 ?s))))"
        by (simp add: X1_def)
    qed
    also have "comm_member ?g MRComm ?s (recvFrom (X1 ?s)) = k + snd (MC_MR_SVR_cols M A q) * ?r"
      using s by (simp add: X1_def cols)
    finally show "mem2 q (?r * P + k * P + t)
        = pack_STAR_VR ?r (colAlign M) (mheight M) P (LocalWidth A (k + snd (MC_MR_SVR_cols M A q) * ?r))
            (locals A (k + snd (MC_MR_SVR_cols M A q) * ?r)) (?r * P)
            (auxMem M1 (k + snd (MC_MR_SVR_cols M A q) * ?r)) (?r * P + grow ?g q * P + t)"
      by (simp add: X1_def X2_def sent_def add.assoc)
  qed
  moreover have "same_layout (M1\<lparr>auxMem := mem2, locals := \<lambda>q. unpack_STAR_VR ?r ?c (snd (MC_MR_SVR_cols M A q))
                 (RowShift M q) (rowAlign A) (mwidth M) (LocalHeight M q) P (?r * P) (mem2 q) (locals M q)\<rparr>) M"
    using lay by (simp only: same_layout_locals)
  ultimately show ?thesis using res by blast
qed

lemma AlignRowsAndResize_align: "rowAlign (AlignRowsAndResize ra h w M) \<in> {ra, rowAlign M}"
  by (auto simp: AlignRowsAndResize_def Resize_def)

lemma MC_MR_from_STAR_VR_correct:
  assumes M0: "is_MC_MR M0" and A: "is_STAR_VR A" and g: "dgrid A = dgrid M0"
    and wf0: "dm_wf M0" and wfA: "dm_wf A" and hA: "holds A G"
  shows "\<exists>M'. MC_MR_from_STAR_VR M0 A = Inr M' \<and> holds M' G \<and> is_MC_MR M'
           \<and> dgrid M' = dgrid A \<and> mheight M' = mheight A \<and> mwidth M' = mwidth A"
proof -
  let ?c = "gwidth (dgrid M0)"
  define M where "M = AlignRowsAndResize (rowAlign A smod ?c) (mheight A) (mwidth A) M0"
  have c: "0 < ?c" using wf0 by (simp add: dm_wf_def grid_ok_def)
  have aA: "0 \<le> rowAlign A" using wfA by (simp add: dm_wf_def)
  have M: "is_MC_MR M" "dgrid A = dgrid M" "mheight M = mheight A" "mwidth M = mwidth A"
    using M0 g by (simp_all add: M_def AlignRowsAndResize_def Resize_def is_MC_MR_def)
  have wfM: "dm_wf M"
  proof -
    have "rowAlign M \<in> {rowAlign A smod ?c, rowAlign M0}" unfolding M_def by (rule AlignRowsAndResize_align)
    moreover have "0 \<le> rowAlign A smod ?c" "rowAlign A smod ?c < ?c" using c aA by simp_all
    moreover have "colAlign M = colAlign M0" "dgrid M = dgrid M0"
      by (simp_all add: M_def AlignRowsAndResize_def Resize_def)
    ultimately show ?thesis
      using wf0 wfA M0 g M unfolding dm_wf_def ColStride_def RowStride_def is_MC_MR_def by auto
  qed
  have res: "MC_MR_from_STAR_VR M0 A
      = (if rowAlign M = rowAlign A smod gwidth (dgrid M) then MC_MR_SVR_aligned M A else MC_MR_SVR_unaligned M A)"
    using g M by (simp add: MC_MR_from_STAR_VR_def M_def Let_def)
  have "\<exists>M'. MC_MR_from_STAR_VR M0 A = Inr M' \<and> holds M' G \<and> same_layout M' M"
  proof (cases "rowAlign M = rowAlign A smod gwidth (dgrid M)")
    case True
    then show ?thesis
      using res MC_MR_SVR_aligned_holds [OF M(1) A M(2) wfM wfA hA M(3,4) True] by simp
  next
    case False
    then show ?thesis
      using res MC_MR_SVR_unaligned_holds [OF M(1) A M(2) wfM wfA hA M(3,4)] by simp
  qed
  then show ?thesis
    using M by (auto simp: same_layout_def is_MC_MR_def)
qed

text \<open>C27. Assigning a \<open>[*,VR]\<close> matrix to an \<open>[MC,MR]\<close> matrix on the same grid returns
  normally, whatever the destination's alignment constraint, and the destination then
  holds the source's global matrix with the source's size: the aligned branch by one
  all-to-all over the grid column, the unaligned one by a trade within the grid row
  followed by the all-to-all.\<close>

theorem MC_MR_from_STAR_VR_holds:
  assumes M0: "is_MC_MR M0" and A: "is_STAR_VR A" and g: "dgrid A = dgrid M0"
    and wf0: "dm_wf M0" and wfA: "dm_wf A" and hA: "holds A G"
  shows "\<exists>M'. MC_MR_from_STAR_VR M0 A = Inr M' \<and> holds M' G \<and> is_MC_MR M'
           \<and> dgrid M' = dgrid A \<and> mheight M' = mheight A \<and> mwidth M' = mwidth A"
  using assms by (rule MC_MR_from_STAR_VR_correct)

end
