(* ===== verification/Routes_STAR_VR.thy ===== *)
theory Routes_STAR_VR
  imports MC_MR_STAR_VR
begin

text \<open>
  The overloads of \<open>[MC,MR]\<close> that reach \<open>[MC,MR] = [*,VR]\<close> through temporaries
  (\<open>src/src/core/dist_matrix/mc_mr.cpp\<close>): from \<open>[*,VC]\<close> through a \<open>[*,VR]\<close>
  temporary constrained to the destination's row alignment, and from \<open>[*,MC]\<close>
  through \<open>[*,VC]\<close> and such a \<open>[*,VR]\<close> temporary. The conversions into the
  temporaries are \<open>convert\<close> of \<open>Routes\<close>.
\<close>

section \<open>Definitions\<close>

text \<open>\<open>DistMatrix<T,U,V>(true, rowAlign, g)\<close>: an empty matrix on \<open>g\<close> constrained to
  the row alignment \<open>rowAlign\<close>.\<close>

definition new_dm_row :: "Dist \<Rightarrow> Dist \<Rightarrow> int \<Rightarrow> grid \<Rightarrow> 'a DistMatrix" where
  "new_dm_row cd rd ra g = (new_dm cd rd g)\<lparr>rowAlign := ra, rowConstrained := True\<rparr>"

text \<open>\<open>[MC,MR] = [*,VC]\<close> (lines 636--646): a \<open>[*,VR]\<close> temporary constrained to
  \<open>this->RowAlign()\<close> on \<open>this->Grid()\<close>, then \<open>[MC,MR] = [*,VR]\<close>.\<close>

definition MC_MR_from_STAR_VC ::
  "('a DistMatrix \<Rightarrow> 'a gmat) \<Rightarrow> 'a DistMatrix \<Rightarrow> 'a DistMatrix \<Rightarrow> 'a DistMatrix exn" where
  "MC_MR_from_STAR_VC gather M A =
     (let A_STAR_VR = convert gather (new_dm_row STAR VR (rowAlign M) (dgrid M)) A
      in MC_MR_from_STAR_VR M A_STAR_VR)"

text \<open>\<open>[MC,MR] = [*,MC]\<close> (lines 458--472): a \<open>[*,VC]\<close> copy of \<open>A\<close>, then a
  \<open>[*,VR]\<close> temporary constrained to \<open>this->RowAlign()\<close>, both on \<open>A.Grid()\<close>, then
  \<open>[MC,MR] = [*,VR]\<close>.\<close>

definition MC_MR_from_STAR_MC ::
  "('a DistMatrix \<Rightarrow> 'a gmat) \<Rightarrow> 'a DistMatrix \<Rightarrow> 'a DistMatrix \<Rightarrow> 'a DistMatrix exn" where
  "MC_MR_from_STAR_MC gather M A =
     (let g = dgrid A;
          A_STAR_VC = convert gather (new_dm STAR VC g) A;
          A_STAR_VR = convert gather (new_dm_row STAR VR (rowAlign M) g) A_STAR_VC
      in MC_MR_from_STAR_VR M A_STAR_VR)"

section \<open>Lemmas\<close>

lemma new_dm_row_wf:
  "grid_ok g \<Longrightarrow> 0 \<le> ra \<Longrightarrow> ra < dist_stride g rd \<Longrightarrow> dm_wf (new_dm_row cd rd ra g)"
  by (simp add: dm_wf_def new_dm_def new_dm_row_def ColStride_def RowStride_def dist_stride_pos)

text \<open>A \<open>[*,VR]\<close> temporary constrained to the destination's row alignment always
  takes the aligned branch of \<open>[MC,MR] = [*,VR]\<close>, and the route delivers.\<close>

lemma STAR_VR_temp_route:
  assumes ga: "gather_ok gather G" and M: "is_MC_MR M" and wfM: "dm_wf M"
    and wfB: "dm_wf B" and hB: "holds B G"
  defines "T \<equiv> convert gather (new_dm_row STAR VR (rowAlign M) (dgrid M)) B"
  shows "MC_MR_from_STAR_VR M T
           = MC_MR_SVR_aligned (AlignRowsAndResize (rowAlign M) (mheight B) (mwidth B) M) T"
    and "\<exists>M'. MC_MR_from_STAR_VR M T = Inr M' \<and> delivers M B G M'"
proof -
  have g: "grid_ok (dgrid M)" using wfM by (rule grid_ok_wf)
  have a: "0 \<le> rowAlign M" "rowAlign M < gwidth (dgrid M)"
    using M wfM by (simp_all add: dm_wf_def is_MC_MR_def RowStride_def)
  then have a': "rowAlign M < dist_stride (dgrid M) VR" using stride_le_gsize [OF g] by simp
  have T: "is_STAR_VR T" "dgrid T = dgrid M" "mheight T = mheight B" "mwidth T = mwidth B"
    "rowAlign T = rowAlign M"
    by (simp_all add: T_def is_STAR_VR_def new_dm_row_def)
  have wfT: "dm_wf T" unfolding T_def using g a(1) a' wfB by (simp add: route_simps new_dm_row_wf)
  have hT: "holds T G" unfolding T_def using ga g a(1) a' wfB hB by (simp add: route_simps new_dm_row_wf)
  have sm: "rowAlign M smod gwidth (dgrid M) = rowAlign M" using a by simp
  show eq: "MC_MR_from_STAR_VR M T
           = MC_MR_SVR_aligned (AlignRowsAndResize (rowAlign M) (mheight B) (mwidth B) M) T"
    using T(3,4,5) sm by (simp add: MC_MR_from_STAR_VR_def Let_def AlignRowsAndResize_def Resize_def)
  obtain M' where "MC_MR_from_STAR_VR M T = Inr M'" "holds M' G" "is_MC_MR M'" "dgrid M' = dgrid T"
    "mheight M' = mheight T" "mwidth M' = mwidth T"
    using MC_MR_from_STAR_VR_correct [OF M T(1) T(2) wfM wfT hT] by blast
  then show "\<exists>M'. MC_MR_from_STAR_VR M T = Inr M' \<and> delivers M B G M'"
    using M T by (auto simp: delivers_def is_MC_MR_def)
qed

text \<open>C28. \<open>[MC,MR] = [*,VC]\<close> always takes the aligned branch of
  \<open>[MC,MR] = [*,VR]\<close> (its \<open>[*,VR]\<close> temporary is constrained to the destination's
  row alignment, so no trade within the grid row is needed), and both it and
  \<open>[MC,MR] = [*,MC]\<close> deliver the source's global matrix at the source's size in
  \<open>[MC,MR]\<close> on the grid the source and destination share.\<close>

theorem MC_MR_STAR_routes_deliver:
  assumes ga: "gather_ok gather G" and M: "is_MC_MR M" and wfM: "dm_wf M"
    and wfA: "dm_wf A" and hA: "holds A G" and g: "dgrid A = dgrid M"
  shows "MC_MR_from_STAR_VC gather M A
           = MC_MR_SVR_aligned (AlignRowsAndResize (rowAlign M) (mheight A) (mwidth A) M)
               (convert gather (new_dm_row STAR VR (rowAlign M) (dgrid M)) A)
         \<and> (\<exists>M'. MC_MR_from_STAR_VC gather M A = Inr M' \<and> delivers M A G M')
         \<and> (\<exists>M'. MC_MR_from_STAR_MC gather M A = Inr M' \<and> delivers M A G M')"
proof (intro conjI)
  note R = STAR_VR_temp_route [OF ga M wfM]
  show "MC_MR_from_STAR_VC gather M A
           = MC_MR_SVR_aligned (AlignRowsAndResize (rowAlign M) (mheight A) (mwidth A) M)
               (convert gather (new_dm_row STAR VR (rowAlign M) (dgrid M)) A)"
    using R(1) [OF wfA hA] by (simp add: MC_MR_from_STAR_VC_def)
  show "\<exists>M'. MC_MR_from_STAR_VC gather M A = Inr M' \<and> delivers M A G M'"
    using R(2) [OF wfA hA] by (simp add: MC_MR_from_STAR_VC_def)
  define B where "B = convert gather (new_dm STAR VC (dgrid M)) A"
  have gr: "grid_ok (dgrid M)" using wfM by (rule grid_ok_wf)
  have wfB: "dm_wf B" and hB: "holds B G" unfolding B_def using ga gr wfA hA by (simp_all add: route_simps)
  have "mheight B = mheight A" "mwidth B = mwidth A" by (simp_all add: B_def)
  then show "\<exists>M'. MC_MR_from_STAR_MC gather M A = Inr M' \<and> delivers M A G M'"
    using R(2) [OF wfB hB] g by (simp add: MC_MR_from_STAR_MC_def B_def [symmetric] delivers_def)
qed

end
