(* ===== verification/MC_MR_MR_MC.thy ===== *)
theory MC_MR_MR_MC
  imports Routes_STAR_VR
begin

text \<open>
  \<open>[MC,MR] = [MR,MC]\<close> (\<open>src/src/core/dist_matrix/mc_mr.cpp\<close>, lines 231--440). A
  column vector (width \<open>1\<close>) lives in \<open>[MR,MC]\<close> on the one grid row \<open>A.RowAlign()\<close>:
  that row's processes split their entries by \<open>[VR,*]\<close> owner and scatter them down
  their grid columns, a point-to-point exchange over \<open>VC\<close> ranks turns the \<open>[VR,*]\<close>
  vector into a \<open>[VC,*]\<close> one aligned with the destination, and a gather along each
  grid row collects it at the destination's owning column \<open>this->RowAlign()\<close>. A row
  vector takes the transposed path. Any other matrix goes through \<open>[VR,*]\<close> and
  \<open>[VC,*]\<close> temporaries (at least as tall as wide) or \<open>[*,VC]\<close> and \<open>[*,VR]\<close> ones.
\<close>

section \<open>Definitions\<close>

definition is_MR_MC :: "'a DistMatrix \<Rightarrow> bool" where
  "is_MR_MC M \<longleftrightarrow> colDist M = MR \<and> rowDist M = MC"

subsection \<open>Column vectors\<close>

text \<open>Pack (lines 277--290), on the owning grid row: block \<open>k\<close> gets the entries the
  \<open>[VR,*]\<close> process of rank \<open>myCol + c k\<close> owns, which lie in this process's local
  column at local rows \<open>offset + iLoc r\<close>.\<close>

definition pack_MR_MC_col :: "int \<Rightarrow> int \<Rightarrow> int \<Rightarrow> int \<Rightarrow> int \<Rightarrow> int \<Rightarrow> 'a lmat \<Rightarrow> int \<Rightarrow> int
     \<Rightarrow> 'a buf \<Rightarrow> 'a buf" where
  "pack_MR_MC_col r c myCol colAlignA colShiftA height ABuf base portionSize buf =
     for_loop r (\<lambda>k. let p = r * c;
                         shift = Shift (myCol + c * k) colAlignA p;
                         offset = (shift - colShiftA) sdiv c;
                         thisLocalHeight = Length height shift p in
       for_loop thisLocalHeight (\<lambda>iLoc b.
         b(base + k * portionSize + iLoc := ABuf (offset + iLoc * r, 0)))) buf"

text \<open>Unpack (lines 306--322), on the owning grid column: block \<open>k\<close> holds the entries
  of the \<open>[VC,*]\<close> process of rank \<open>myRow + r k\<close>, which go to local rows
  \<open>offset + iLoc c\<close> of the destination's one local column.\<close>

definition unpack_MC_MR_col :: "int \<Rightarrow> int \<Rightarrow> int \<Rightarrow> int \<Rightarrow> int \<Rightarrow> int \<Rightarrow> int \<Rightarrow> int
     \<Rightarrow> 'a buf \<Rightarrow> 'a lmat \<Rightarrow> 'a lmat" where
  "unpack_MC_MR_col r c myRow ca colShift height base portionSize buf loc =
     for_loop c (\<lambda>k. let p = r * c;
                         shift = Shift (myRow + r * k) ca p;
                         offset = (shift - colShift) sdiv r;
                         thisLocalHeight = Length height shift p in
       for_loop thisLocalHeight (\<lambda>iLoc m.
         m((offset + iLoc * c, 0) := buf (base + k * portionSize + iLoc)))) loc"

text \<open>The exchange over \<open>VC\<close> ranks (lines 265--269, 298--300): \<open>[VR,*]\<close> data
  under \<open>A\<close>'s column alignment to the \<open>[VC,*]\<close> owner under the destination's; the
  partner's row-major rank is converted to a column-major one.\<close>

definition MR_MC_col_xfer :: "'a DistMatrix \<Rightarrow> 'a DistMatrix \<Rightarrow> int \<Rightarrow> int \<Rightarrow> xfer" where
  "MR_MC_col_xfer M A portionSize q =
     (let g = dgrid M; r = gheight g; c = gwidth g; p = gsize g;
          rankCM = q; rankRM = vr_rank g q;
          colShiftVC = Shift rankCM (colAlign M) p;
          colShiftVRA = Shift rankRM (colAlign A) p;
          sendRankCM = (rankCM + (p + colShiftVRA - colShiftVC)) smod p;
          recvRankRM = (rankRM + (p + colShiftVC - colShiftVRA)) smod p;
          recvRankCM = (recvRankRM sdiv c) + r * (recvRankRM smod c)
      in \<lparr>sendOff = 0, sendCount = portionSize, sendTo = sendRankCM,
          recvOff = c * portionSize, recvCount = portionSize, recvFrom = recvRankCM\<rparr>)"

text \<open>The column-vector branch (lines 245--324), after \<open>this->Resize\<close>.\<close>

definition MC_MR_from_MR_MC_col :: "'a DistMatrix \<Rightarrow> 'a DistMatrix \<Rightarrow> 'a DistMatrix exn" where
  "MC_MR_from_MR_MC_col M A =
     (let g = dgrid M; r = gheight g; c = gwidth g; p = gsize g;
          ownerCol = rowAlign M; ownerRow = rowAlign A;
          portionSize = Pad (MaxLength (mheight A) p);
          M1 = RequireAll ((r + c) * portionSize) M;
          packed = (\<lambda>q. if grow g q = ownerRow
                         then pack_MR_MC_col r c (gcol g q) (colAlign A) (ColShift A q) (mheight A)
                                (locals A q) (c * portionSize) portionSize (auxMem M1 q)
                         else auxMem M1 q);
          mem1 = Scatter g MCComm portionSize (c * portionSize) 0 ownerRow packed
      in case SendRecv g VCComm (MR_MC_col_xfer M A portionSize) mem1 of
           None \<Rightarrow> Inl (CommError, M1\<lparr>auxMem := mem1\<rparr>)
         | Some mem2 \<Rightarrow>
             (let mem3 = Gather g MRComm portionSize (c * portionSize) 0 ownerCol mem2 in
              Inr (M1\<lparr>auxMem := mem3,
                     locals := \<lambda>q. if gcol g q = ownerCol
                       then unpack_MC_MR_col r c (grow g q) (colAlign M) (ColShift M q) (mheight A)
                              0 portionSize (mem3 q) (locals M q)
                       else locals M q\<rparr>)))"

subsection \<open>Row vectors\<close>

text \<open>Pack (lines 355--372), on the owning grid column: block \<open>k\<close> gets the entries
  the \<open>[*,VC]\<close> process of rank \<open>myRow + r k\<close> owns.\<close>

definition pack_MR_MC_row :: "int \<Rightarrow> int \<Rightarrow> int \<Rightarrow> int \<Rightarrow> int \<Rightarrow> int \<Rightarrow> 'a lmat \<Rightarrow> int \<Rightarrow> int
     \<Rightarrow> 'a buf \<Rightarrow> 'a buf" where
  "pack_MR_MC_row r c myRow rowAlignA rowShiftA width ABuf base portionSize buf =
     for_loop c (\<lambda>k. let p = r * c;
                         shift = Shift (myRow + r * k) rowAlignA p;
                         offset = (shift - rowShiftA) sdiv r;
                         thisLocalWidth = Length width shift p in
       for_loop thisLocalWidth (\<lambda>jLoc b.
         b(base + k * portionSize + jLoc := ABuf (0, offset + jLoc * c)))) buf"

text \<open>Unpack (lines 387--404), on the owning grid row: block \<open>k\<close> holds the entries of
  the \<open>[*,VR]\<close> process of rank \<open>myCol + c k\<close>.\<close>

definition unpack_MC_MR_row :: "int \<Rightarrow> int \<Rightarrow> int \<Rightarrow> int \<Rightarrow> int \<Rightarrow> int \<Rightarrow> int \<Rightarrow> int
     \<Rightarrow> 'a buf \<Rightarrow> 'a lmat \<Rightarrow> 'a lmat" where
  "unpack_MC_MR_row r c myCol ra rowShift width base portionSize buf loc =
     for_loop r (\<lambda>k. let p = r * c;
                         shift = Shift (myCol + c * k) ra p;
                         offset = (shift - rowShift) sdiv c;
                         thisLocalWidth = Length width shift p in
       for_loop thisLocalWidth (\<lambda>jLoc m.
         m((0, offset + jLoc * r) := buf (base + k * portionSize + jLoc)))) loc"

text \<open>The exchange over \<open>VR\<close> ranks (lines 345--349, 379--381).\<close>

definition MR_MC_row_xfer :: "'a DistMatrix \<Rightarrow> 'a DistMatrix \<Rightarrow> int \<Rightarrow> int \<Rightarrow> xfer" where
  "MR_MC_row_xfer M A portionSize q =
     (let g = dgrid M; r = gheight g; c = gwidth g; p = gsize g;
          rankCM = q; rankRM = vr_rank g q;
          rowShiftVR = Shift rankRM (rowAlign M) p;
          rowShiftVCA = Shift rankCM (rowAlign A) p;
          sendRankRM = (rankRM + (p + rowShiftVCA - rowShiftVR)) smod p;
          recvRankCM = (rankCM + (p + rowShiftVR - rowShiftVCA)) smod p;
          recvRankRM = (recvRankCM sdiv r) + c * (recvRankCM smod r)
      in \<lparr>sendOff = 0, sendCount = portionSize, sendTo = sendRankRM,
          recvOff = r * portionSize, recvCount = portionSize, recvFrom = recvRankRM\<rparr>)"

text \<open>The row-vector branch (lines 325--407).\<close>

definition MC_MR_from_MR_MC_row :: "'a DistMatrix \<Rightarrow> 'a DistMatrix \<Rightarrow> 'a DistMatrix exn" where
  "MC_MR_from_MR_MC_row M A =
     (let g = dgrid M; r = gheight g; c = gwidth g; p = gsize g;
          ownerRow = colAlign M; ownerCol = colAlign A;
          portionSize = Pad (MaxLength (mwidth A) p);
          M1 = RequireAll ((r + c) * portionSize) M;
          packed = (\<lambda>q. if gcol g q = ownerCol
                         then pack_MR_MC_row r c (grow g q) (rowAlign A) (RowShift A q) (mwidth A)
                                (locals A q) (r * portionSize) portionSize (auxMem M1 q)
                         else auxMem M1 q);
          mem1 = Scatter g MRComm portionSize (r * portionSize) 0 ownerCol packed
      in case SendRecv g VRComm (MR_MC_row_xfer M A portionSize) mem1 of
           None \<Rightarrow> Inl (CommError, M1\<lparr>auxMem := mem1\<rparr>)
         | Some mem2 \<Rightarrow>
             (let mem3 = Gather g MCComm portionSize (r * portionSize) 0 ownerRow mem2 in
              Inr (M1\<lparr>auxMem := mem3,
                     locals := \<lambda>q. if grow g q = ownerRow
                       then unpack_MC_MR_row r c (gcol g q) (rowAlign M) (RowShift M q) (mwidth A)
                              0 portionSize (mem3 q) (locals M q)
                       else locals M q\<rparr>)))"

subsection \<open>Other shapes and the operator\<close>

text \<open>Lines 408--438: through \<open>[VR,*]\<close> and a \<open>[VC,*]\<close> temporary constrained to
  \<open>this->ColAlign()\<close> when \<open>A\<close> is at least as tall as wide, otherwise through
  \<open>[*,VC]\<close> and a \<open>[*,VR]\<close> temporary constrained to \<open>this->RowAlign()\<close>, all on
  \<open>this->Grid()\<close>.\<close>

definition MC_MR_from_MR_MC_gen ::
  "('a DistMatrix \<Rightarrow> 'a gmat) \<Rightarrow> 'a DistMatrix \<Rightarrow> 'a DistMatrix \<Rightarrow> 'a DistMatrix exn" where
  "MC_MR_from_MR_MC_gen gather M A =
     (let g = dgrid M in
      if mwidth A \<le> mheight A then
        (let A_VR_STAR = convert gather (new_dm VR STAR g) A;
             A_VC_STAR = convert gather (new_dm_col VC STAR (colAlign M) g) A_VR_STAR
         in MC_MR_from_VC_STAR M A_VC_STAR)
      else
        (let A_STAR_VC = convert gather (new_dm STAR VC g) A;
             A_STAR_VR = convert gather (new_dm_row STAR VR (rowAlign M) g) A_STAR_VC
         in case MC_MR_from_STAR_VR M A_STAR_VR of
              Inl e \<Rightarrow> Inl e
            | Inr M' \<Rightarrow> Inr (Resize (mheight A_STAR_VR) (mwidth A_STAR_VR) M')))"

text \<open>The operator (lines 231--244 and 439--440).\<close>

definition MC_MR_from_MR_MC ::
  "('a DistMatrix \<Rightarrow> 'a gmat) \<Rightarrow> 'a DistMatrix \<Rightarrow> 'a DistMatrix \<Rightarrow> 'a DistMatrix exn" where
  "MC_MR_from_MR_MC gather M0 A =
     (let M = Resize (mheight A) (mwidth A) M0 in
      if mwidth A = 1 then MC_MR_from_MR_MC_col M A
      else if mheight A = 1 then MC_MR_from_MR_MC_row M A
      else MC_MR_from_MR_MC_gen gather M A)"

section \<open>Lemmas\<close>

lemma MR_MC_dm:
  assumes "is_MR_MC A"
  shows "ColStride A = gwidth (dgrid A)" "RowStride A = gheight (dgrid A)" "Participating A q"
    "ColShift A q = Shift (gcol (dgrid A) q) (colAlign A) (gwidth (dgrid A))"
    "RowShift A q = Shift (grow (dgrid A) q) (rowAlign A) (gheight (dgrid A))"
    "LocalHeight A q = Length (mheight A) (Shift (gcol (dgrid A) q) (colAlign A) (gwidth (dgrid A))) (gwidth (dgrid A))"
    "LocalWidth A q = Length (mwidth A) (Shift (grow (dgrid A) q) (rowAlign A) (gheight (dgrid A))) (gheight (dgrid A))"
  using assms by (simp_all add: is_MR_MC_def dm_defs)

lemma pack_MR_MC_col_at:
  fixes r c :: int
  assumes r: "0 < r" and k: "0 \<le> k" "k < r"
    and i: "0 \<le> i" "i < Length h (Shift (mc + c * k) aA (r * c)) (r * c)"
    and fit: "\<And>k. 0 \<le> k \<Longrightarrow> k < r \<Longrightarrow> Length h (Shift (mc + c * k) aA (r * c)) (r * c) \<le> P"
  shows "pack_MR_MC_col r c mc aA sA h ABuf base P buf (base + k * P + i)
         = ABuf ((Shift (mc + c * k) aA (r * c) - sA) sdiv c + i * r, 0)"
proof -
  let ?sh = "\<lambda>k. Shift (mc + c * k) aA (r * c)"
  define v where "v x = (let d = x - base; k' = d div P; t = d mod P in
      ABuf ((?sh k' - sA) sdiv c + t * r, 0))" for x
  have v: "v (base + k' * P + i') = ABuf ((?sh k' - sA) sdiv c + i' * r, 0)"
    if "0 \<le> k'" "k' < r" "0 \<le> i'" "i' < Length h (?sh k') (r * c)" for k' i'
  proof -
    have "i' < P" using that fit [OF that(1,2)] by simp
    then have "(k' * P + i') div P = k'" "(k' * P + i') mod P = i'"
      using that(3) by (simp_all only: block_div_mod)
    then show ?thesis by (simp add: v_def Let_def add.assoc)
  qed
  have w: "writes (pack_MR_MC_col r c mc aA sA h ABuf base P)
     (\<Union>k\<in>{0..<r}. \<Union>iLoc\<in>{0..<Length h (?sh k) (r * c)}. {base + k * P + iLoc}) v"
    unfolding pack_MR_MC_col_def Let_def
    using v by (intro writes_for_loop writes_upd) simp
  have "base + k * P + i \<in> (\<Union>k\<in>{0..<r}. \<Union>iLoc\<in>{0..<Length h (?sh k) (r * c)}. {base + k * P + iLoc})"
    using k i by (intro UN_I [of k] UN_I [of i]) auto
  from writes_at [OF w this] show ?thesis using v k i by simp
qed

lemma unpack_MC_MR_col_at:
  fixes r c :: int
  assumes r: "0 < r" and c: "0 < c" and fr: "0 \<le> fr" "fr < r" and ca: "0 \<le> ca" "ca < r * c"
    and cs: "colShift = (fr - ca) mod r"
    and buf: "\<And>k iLoc. 0 \<le> k \<Longrightarrow> k < c \<Longrightarrow> 0 \<le> iLoc
       \<Longrightarrow> iLoc < Length h (Shift (fr + r * k) ca (r * c)) (r * c)
       \<Longrightarrow> buf (base + k * P + iLoc) = V (Shift (fr + r * k) ca (r * c) + iLoc * (r * c))"
    and i: "0 \<le> i" "colShift + i * r < h"
  shows "unpack_MC_MR_col r c fr ca colShift h base P buf loc (i, 0) = V (colShift + i * r)"
proof -
  let ?p = "r * c"
  let ?ts = "\<lambda>k. Shift (fr + r * k) ca ?p"
  let ?to = "\<lambda>k. (?ts k - colShift) sdiv r"
  define v where "v = (\<lambda>(i', j'::int). V (colShift + i' * r))"
  have ts: "?ts k = colShift + ?to k * r" if "0 \<le> k" for k
  proof -
    have "?ts k mod r = colShift"
      using VC_shift_mod [OF r c fr(1) ca that] cs by (simp add: mult.commute [of r k])
    moreover have "0 \<le> ?ts k" using that fr ca r c by (intro Shift_range) auto
    ultimately show ?thesis using shift_offset [OF r] by auto
  qed
  have w: "writes (unpack_MC_MR_col r c fr ca colShift h base P buf)
     (\<Union>k\<in>{0..<c}. \<Union>iLoc\<in>{0..<Length h (?ts k) ?p}. {(?to k + iLoc * c, 0)}) v"
    unfolding unpack_MC_MR_col_def Let_def
  proof (intro writes_for_loop writes_upd)
    fix k iLoc assume k: "0 \<le> k" "k < c" and il: "0 \<le> iLoc" "iLoc < Length h (?ts k) ?p"
    have "?ts k + iLoc * ?p = colShift + (?to k + iLoc * c) * r"
      using ts [OF k(1)] by (simp add: algebra_simps)
    then show "buf (base + k * P + iLoc) = v (?to k + iLoc * c, 0)"
      using buf [OF k il] by (simp add: v_def)
  qed
  have cs0: "0 \<le> colShift" "colShift < r" using cs r by simp_all
  have gi: "0 \<le> colShift + i * r" "(colShift + i * r) mod r = (fr - ca) mod r"
    using cs0 i r cs by simp_all
  obtain k iLoc where k: "0 \<le> k" "k < c" and il: "0 \<le> iLoc"
      and e: "colShift + i * r = Shift (fr + k * r) ca (r * c) + iLoc * (r * c)"
    using VC_owner [OF r c fr ca gi] by blast
  have e': "colShift + i * r = ?ts k + iLoc * ?p" using e by (simp add: mult.commute [of r k])
  have "iLoc < Length h (?ts k) ?p"
    using e' i il r c by (simp add: Length_iff)
  moreover have "i = ?to k + iLoc * c"
  proof -
    have "colShift + i * r = colShift + (?to k + iLoc * c) * r"
      using e' ts [OF k(1)] by (simp add: algebra_simps)
    then show ?thesis using r by simp
  qed
  ultimately have "(i, 0) \<in> (\<Union>k\<in>{0..<c}. \<Union>iLoc\<in>{0..<Length h (?ts k) ?p}. {(?to k + iLoc * c, 0::int)})"
    using k il by (intro UN_I [of k] UN_I [of iLoc]) auto
  from writes_at [OF w this] show ?thesis by (simp add: v_def)
qed

lemma shift_partner:
  fixes x p a b :: int
  assumes "0 < p"
  shows "(x + (p + b - (x - a) mod p)) mod p = (b + a) mod p"
proof -
  have "(x + (p + b - (x - a) mod p)) mod p = ((x + p + b) - (x - a) mod p) mod p"
    by (simp add: algebra_simps)
  also have "\<dots> = ((x + p + b) - (x - a)) mod p" by (rule mod_diff_right_eq)
  also have "(x + p + b) - (x - a) = (b + a) + p" by simp
  finally show ?thesis by simp
qed

text \<open>The exchange of the column-vector branch: the partners match, and each process
  receives from the \<open>[VR,*]\<close> process whose rows under \<open>A\<close>'s alignment are its own
  \<open>[VC,*]\<close> rows under the destination's.\<close>

lemma MR_MC_col_exchange:
  fixes M A :: "'a DistMatrix" and P :: int
  assumes ok: "grid_ok (dgrid M)"
    and aM: "0 \<le> colAlign M" "colAlign M < gsize (dgrid M)"
    and aA: "0 \<le> colAlign A" "colAlign A < gsize (dgrid M)"
  defines "X \<equiv> MR_MC_col_xfer M A P"
  shows "SendRecv_ok (dgrid M) VCComm X"
    and "\<And>q. q \<in> procs (dgrid M) \<Longrightarrow> recvFrom (X q) \<in> procs (dgrid M)
           \<and> Shift (vr_rank (dgrid M) (recvFrom (X q))) (colAlign A) (gsize (dgrid M))
             = Shift q (colAlign M) (gsize (dgrid M))"
    and "\<And>q. sendOff (X q) = 0" "\<And>q. recvOff (X q) = gwidth (dgrid M) * P" "\<And>q. sendCount (X q) = P"
proof -
  let ?g = "dgrid M" let ?p = "gsize ?g" let ?vr = "vr_rank ?g"
  have p: "0 < ?p" using ok by (simp add: grid_ok_def gsize_def)
  define a where "a q = (q - colAlign M) mod ?p" for q
  define b where "b q = (?vr q - colAlign A) mod ?p" for q
  have ab: "0 \<le> a q" "a q < ?p" "0 \<le> b q" "b q < ?p" for q using p by (simp_all add: a_def b_def)
  have vr: "0 \<le> ?vr q" "?vr q < ?p" if "q \<in> procs ?g" for q using vr_rank_range [OF ok that] by auto
  have pq: "0 \<le> q" "q < ?p" if "q \<in> procs ?g" for q using that by (simp_all add: procs_def)
  have sh: "Shift q (colAlign M) ?p = a q" "Shift (?vr q) (colAlign A) ?p = b q" if "q \<in> procs ?g" for q
    using pq [OF that] vr [OF that] aM aA by (simp_all add: Shift_eq a_def b_def)
  have sT: "sendTo (X q) = (b q + colAlign M) mod ?p" if "q \<in> procs ?g" for q
  proof -
    have "0 \<le> q + (?p + b q - a q)" using pq [OF that] ab [of q] by simp
    then have "sendTo (X q) = (q + (?p + b q - a q)) mod ?p"
      using sh [OF that] p by (simp add: X_def MR_MC_col_xfer_def Let_def)
    then show ?thesis using shift_partner [OF p] by (simp add: a_def)
  qed
  have rF: "recvFrom (X q) = vc_of_vr ?g ((a q + colAlign A) mod ?p)" if "q \<in> procs ?g" for q
  proof -
    have "0 \<le> ?vr q + (?p + a q - b q)" using vr [OF that] ab [of q] by simp
    moreover have "(?vr q + (?p + a q - b q)) mod ?p = (a q + colAlign A) mod ?p"
      using shift_partner [OF p] by (simp add: b_def)
    moreover have "0 \<le> (a q + colAlign A) mod ?p" using p by simp
    ultimately show ?thesis
      using sh [OF that] p ok by (simp add: X_def MR_MC_col_xfer_def Let_def vc_of_vr_def grid_ok_def)
  qed
  have rFp: "recvFrom (X q) \<in> procs ?g" "?vr (recvFrom (X q)) = (a q + colAlign A) mod ?p"
    if "q \<in> procs ?g" for q
  proof -
    have v: "0 \<le> (a q + colAlign A) mod ?p" "(a q + colAlign A) mod ?p < ?p" using p by simp_all
    show "recvFrom (X q) \<in> procs ?g" using vc_of_vr_range [OF ok v] rF [OF that] by (simp add: procs_def)
    show "?vr (recvFrom (X q)) = (a q + colAlign A) mod ?p" using vr_rank_vc_of_vr [OF ok v] rF [OF that] by simp
  qed
  have src: "b (recvFrom (X q)) = a q" if "q \<in> procs ?g" for q
    using rFp [OF that] ab [of q] by (simp add: b_def mod_diff_left_eq)
  have sTp: "sendTo (X q) \<in> procs ?g" "a (sendTo (X q)) = b q" if "q \<in> procs ?g" for q
  proof -
    show "sendTo (X q) \<in> procs ?g" using sT [OF that] p by (simp add: procs_def)
    show "a (sendTo (X q)) = b q" using sT [OF that] ab [of q] by (simp add: a_def mod_diff_left_eq)
  qed
  show "\<And>q. sendOff (X q) = 0" "\<And>q. recvOff (X q) = gwidth ?g * P" "\<And>q. sendCount (X q) = P"
    by (simp_all add: X_def MR_MC_col_xfer_def Let_def)
  show "recvFrom (X q) \<in> procs ?g \<and> Shift (?vr (recvFrom (X q))) (colAlign A) ?p = Shift q (colAlign M) ?p"
    if q: "q \<in> procs ?g" for q
    using rFp(1) [OF q] sh(2) [OF rFp(1) [OF q]] src [OF q] sh(1) [OF q] by simp
  show "SendRecv_ok ?g VCComm X"
    unfolding SendRecv_ok_def
  proof
    fix q assume q: "q \<in> procs ?g"
    have "recvFrom (X (sendTo (X q))) = q"
    proof -
      have "recvFrom (X (sendTo (X q))) = vc_of_vr ?g ((b q + colAlign A) mod ?p)"
        using rF [OF sTp(1) [OF q]] sTp(2) [OF q] by simp
      also have "(b q + colAlign A) mod ?p = ?vr q"
        using vr [OF q] by (simp add: b_def mod_add_left_eq)
      finally show ?thesis using vc_of_vr_rank [OF ok q] by simp
    qed
    moreover have "sendTo (X (recvFrom (X q))) = q"
      using sT [OF rFp(1) [OF q]] src [OF q] pq [OF q] by (simp add: a_def mod_add_left_eq)
    moreover have "0 \<le> sendTo (X q)" "sendTo (X q) < ?p" using sTp(1) [OF q] by (simp_all add: procs_def)
    moreover have "0 \<le> recvFrom (X q)" "recvFrom (X q) < ?p" using rFp(1) [OF q] by (simp_all add: procs_def)
    ultimately show "0 \<le> sendTo (X q) \<and> sendTo (X q) < comm_size ?g VCComm
        \<and> 0 \<le> recvFrom (X q) \<and> recvFrom (X q) < comm_size ?g VCComm
        \<and> recvFrom (X (comm_member ?g VCComm q (sendTo (X q)))) = comm_rank ?g VCComm q
        \<and> sendTo (X (comm_member ?g VCComm q (recvFrom (X q)))) = comm_rank ?g VCComm q
        \<and> sendCount (X (comm_member ?g VCComm q (recvFrom (X q)))) \<le> recvCount (X q)"
      by (simp add: X_def MR_MC_col_xfer_def Let_def)
  qed
qed

text \<open>After the scatter, every process holds its \<open>[VR,*]\<close> entries of the column
  vector, under \<open>A\<close>'s column alignment.\<close>

lemma MR_MC_col_scatter:
  assumes A: "is_MR_MC A" and wfA: "dm_wf A" and hA: "holds A G" and w1: "mwidth A = 1"
    and P: "MaxLength (mheight A) (gsize (dgrid A)) \<le> P"
    and q: "q \<in> procs (dgrid A)"
    and x: "0 \<le> x" "x < Length (mheight A) (Shift (vr_rank (dgrid A) q) (colAlign A) (gsize (dgrid A))) (gsize (dgrid A))"
  shows "Scatter (dgrid A) MCComm P (gwidth (dgrid A) * P) 0 (rowAlign A)
           (\<lambda>q. if grow (dgrid A) q = rowAlign A
                then pack_MR_MC_col (gheight (dgrid A)) (gwidth (dgrid A)) (gcol (dgrid A) q) (colAlign A)
                       (ColShift A q) (mheight A) (locals A q) (gwidth (dgrid A) * P) P (B q)
                else B q) q x
         = G (Shift (vr_rank (dgrid A) q) (colAlign A) (gsize (dgrid A)) + x * gsize (dgrid A), 0)"
proof -
  let ?g = "dgrid A" let ?r = "gheight ?g" let ?c = "gwidth ?g" let ?p = "gsize ?g"
  let ?sh = "Shift (vr_rank ?g q) (colAlign A) ?p"
  have ok: "grid_ok ?g" using wfA by (simp add: dm_wf_def)
  then have r: "0 < ?r" and c: "0 < ?c" by (simp_all add: grid_ok_def)
  have pe: "?p = ?r * ?c" by (simp add: gsize_def)
  note dmA = MR_MC_dm [OF A]
  have cA: "0 \<le> colAlign A" "colAlign A < ?c" and rA: "0 \<le> rowAlign A" "rowAlign A < ?r"
    using wfA dmA(1,2) by (simp_all add: dm_wf_def)
  have cc: "?c \<le> ?r * ?c" "?c \<le> ?c * ?r" using r c by simp_all
  have cAp: "colAlign A < ?r * ?c" "colAlign A < ?c * ?r" using cA(2) cc by linarith+
  have row: "0 \<le> grow ?g q" "grow ?g q < ?r" and col: "0 \<le> gcol ?g q" "gcol ?g q < ?c"
    using grow_range [OF ok, of q] gcol_range [OF ok q] by auto
  define rt where "rt = rowAlign A + gcol ?g q * ?r"
  have rt: "rt \<in> procs ?g" "grow ?g rt = rowAlign A" "gcol ?g rt = gcol ?g q"
    using rowcol_in_procs [OF ok rA col] rowcol_vc [OF ok rA] by (simp_all add: rt_def)
  have vr: "vr_rank ?g q = gcol ?g q + grow ?g q * ?c" by (simp add: vr_rank_def)
  have fit: "Length (mheight A) (Shift (gcol ?g q + ?c * k) (colAlign A) (?r * ?c)) (?r * ?c) \<le> P"
    if "0 \<le> k" "k < ?r" for k
  proof -
    have "0 \<le> Shift (gcol ?g q + ?c * k) (colAlign A) (?r * ?c)"
      using col that cA cAp r c by (intro Shift_range) auto
    then have "Length (mheight A) (Shift (gcol ?g q + ?c * k) (colAlign A) (?r * ?c)) (?r * ?c)
        \<le> MaxLength (mheight A) (?r * ?c)" using r c by (intro Length_le_MaxLength) simp_all
    then show ?thesis using P pe by simp
  qed
  have xP: "x < P" using x fit [OF row] vr pe by (simp add: mult.commute [of "grow ?g q"])
  have sc: "Scatter ?g MCComm P (?c * P) 0 (rowAlign A)
           (\<lambda>q. if grow ?g q = rowAlign A
                then pack_MR_MC_col ?r ?c (gcol ?g q) (colAlign A) (ColShift A q) (mheight A) (locals A q) (?c * P) P (B q)
                else B q) q (0 + x)
      = pack_MR_MC_col ?r ?c (gcol ?g q) (colAlign A) (ColShift A rt) (mheight A) (locals A rt) (?c * P) P (B rt)
          (?c * P + grow ?g q * P + x)"
    using x(1) xP rt by (simp add: Scatter_def rt_def)
  have sh: "Shift (gcol ?g q + ?c * grow ?g q) (colAlign A) (?r * ?c) = ?sh"
    using vr pe by (simp add: mult.commute [of ?c])
  define off where "off = (?sh - ColShift A rt) sdiv ?c"
  have pk: "pack_MR_MC_col ?r ?c (gcol ?g q) (colAlign A) (ColShift A rt) (mheight A) (locals A rt) (?c * P) P (B rt)
          (?c * P + grow ?g q * P + x) = locals A rt (off + x * ?r, 0)"
    using pack_MR_MC_col_at [OF r row, where h = "mheight A" and mc = "gcol ?g q" and aA = "colAlign A"
        and P = P and sA = "ColShift A rt" and ABuf = "locals A rt" and base = "?c * P" and buf = "B rt"
        and i = x] x fit sh pe by (simp add: off_def)
  have csA: "ColShift A rt = (gcol ?g q - colAlign A) mod ?c"
    using dmA(4) [of rt] rt col cA by (simp add: Shift_eq)
  have shm: "?sh mod ?c = ColShift A rt"
    using VC_shift_mod [OF c r col(1) cA(1) cAp(2) row(1)] csA vr pe by (simp add: mult.commute)
  have sh0: "0 \<le> ?sh" using vr_rank_range [OF ok q] cA cAp
    by (intro Shift_range) (auto simp: pe)
  note so = shift_offset [OF c sh0 shm]
  have offe: "?sh = ColShift A rt + off * ?c" "0 \<le> off"
    using so c sh0 by (simp_all add: off_def pos_imp_zdiv_nonneg_iff)
  have lh: "off + x * ?r < LocalHeight A rt"
  proof -
    have "?sh + x * ?p < mheight A" using x r c by (simp add: Length_iff pe)
    then have "ColShift A rt + (off + x * ?r) * ?c < mheight A" using offe pe by (simp add: algebra_simps)
    moreover have nn: "0 \<le> off + x * ?r" using offe x r by simp
    ultimately have "off + x * ?r < Length (mheight A) (ColShift A rt) ?c"
      by (simp add: Length_iff [OF c nn])
    then show ?thesis using dmA(6) [of rt] dmA(4) [of rt] by simp
  qed
  have lw: "0 < LocalWidth A rt" using dmA(7) [of rt] rt rA w1 r by (simp add: Length_def)
  have "locals A rt (off + x * ?r, 0) = G (ColShift A rt + (off + x * ?r) * ColStride A, RowShift A rt + 0 * RowStride A)"
    using hA rt(1) lh lw offe x r unfolding holds_def by (auto simp: dmA(3))
  also have "\<dots> = G (?sh + x * ?p, 0)"
    using offe dmA(1) dmA(5) [of rt] rt rA pe by (simp add: algebra_simps)
  finally show ?thesis using sc pk by simp
qed

lemma MC_MR_from_MR_MC_col_holds:
  assumes M: "is_MC_MR M" and A: "is_MR_MC A" and g: "dgrid A = dgrid M"
    and wfM: "dm_wf M" and wfA: "dm_wf A" and hA: "holds A G"
    and sz: "mheight M = mheight A" "mwidth M = mwidth A" and w1: "mwidth A = 1"
  shows "\<exists>M'. MC_MR_from_MR_MC_col M A = Inr M' \<and> holds M' G \<and> same_layout M' M"
proof -
  let ?g = "dgrid M" let ?r = "gheight ?g" let ?c = "gwidth ?g" let ?p = "gsize ?g"
  let ?h = "mheight A"
  define P where "P = Pad (MaxLength ?h ?p)"
  define M1 where "M1 = RequireAll ((?r + ?c) * P) M"
  define packed where "packed = (\<lambda>q. if grow ?g q = rowAlign A
      then pack_MR_MC_col ?r ?c (gcol ?g q) (colAlign A) (ColShift A q) ?h (locals A q) (?c * P) P (auxMem M1 q)
      else auxMem M1 q)"
  define mem1 where "mem1 = Scatter ?g MCComm P (?c * P) 0 (rowAlign A) packed"
  define X where "X = MR_MC_col_xfer M A P"
  have ok: "grid_ok ?g" using wfM by (simp add: dm_wf_def)
  then have r: "0 < ?r" and c: "0 < ?c" by (simp_all add: grid_ok_def)
  have pe: "?p = ?r * ?c" by (simp add: gsize_def)
  have rc: "?r \<le> ?p" "?c \<le> ?p" using r c by (simp_all add: pe)
  note dmA = MR_MC_dm [OF A]
  have cM: "0 \<le> colAlign M" "colAlign M < ?r" and rM: "0 \<le> rowAlign M" "rowAlign M < ?c"
    using wfM M by (simp_all add: dm_wf_def is_MC_MR_def ColStride_def RowStride_def)
  have cA: "0 \<le> colAlign A" "colAlign A < ?c" using wfA dmA(1) g by (simp_all add: dm_wf_def)
  have P0: "0 < P" and PM: "MaxLength ?h (gsize (dgrid A)) \<le> P" using g by (simp_all add: P_def Pad_ge)
  have cMq: "colAlign M < ?p" and cAq: "colAlign A < ?p" using cM(2) cA(2) rc by linarith+
  note E = MR_MC_col_exchange [OF ok cM(1) cMq cA(1) cAq, where P = P, folded X_def]
  have Eok: "SendRecv_ok ?g VCComm X" by (rule E(1))
  have Esrc: "recvFrom (X q) \<in> procs ?g \<and> Shift (vr_rank ?g (recvFrom (X q))) (colAlign A) ?p = Shift q (colAlign M) ?p"
    if "q \<in> procs ?g" for q using E(2) [OF that] .
  obtain mem2 where mem2: "SendRecv ?g VCComm X mem1 = Some mem2" using Eok by (simp add: SendRecv_def)
  define mem3 where "mem3 = Gather ?g MRComm P (?c * P) 0 (rowAlign M) mem2"
  have res: "MC_MR_from_MR_MC_col M A = Inr (M1\<lparr>auxMem := mem3, locals := \<lambda>q. if gcol ?g q = rowAlign M
        then unpack_MC_MR_col ?r ?c (grow ?g q) (colAlign M) (ColShift M q) ?h 0 P (mem3 q) (locals M q)
        else locals M q\<rparr>)"
    unfolding mem3_def using mem2 unfolding MC_MR_from_MR_MC_col_def Let_def P_def [symmetric] M1_def [symmetric]
      packed_def [symmetric] mem1_def [symmetric] X_def [symmetric] by simp
  have S: "mem1 q x = G (Shift (vr_rank ?g q) (colAlign A) ?p + x * ?p, 0)"
    if "q \<in> procs ?g" "0 \<le> x" "x < Length ?h (Shift (vr_rank ?g q) (colAlign A) ?p) ?p" for q x
    using MR_MC_col_scatter [OF A wfA hA w1 PM, of q x "auxMem M1"] that
    unfolding g by (simp add: mem1_def packed_def)
  have R: "mem2 q (?c * P + x) = G (Shift q (colAlign M) ?p + x * ?p, 0)"
    if q: "q \<in> procs ?g" and x: "0 \<le> x" "x < Length ?h (Shift q (colAlign M) ?p) ?p" for q x
  proof -
    have xP: "x < P"
    proof -
      have "0 \<le> Shift q (colAlign M) ?p" using q cM rc by (intro Shift_range) (auto simp: procs_def)
      then have "Length ?h (Shift q (colAlign M) ?p) ?p \<le> MaxLength ?h ?p"
        using r c by (intro Length_le_MaxLength) (simp_all add: pe)
      then show ?thesis using x PM g by simp
    qed
    have "mem2 q (recvOff (X q) + x) = mem1 (recvFrom (X q)) (sendOff (X (recvFrom (X q))) + x)"
      using SendRecv_at [OF mem2, of x q] x(1) xP E(5) by simp
    then show ?thesis using S [of "recvFrom (X q)" x] Esrc [OF q] x E(3,4) by simp
  qed
  have lay: "same_layout (M1\<lparr>auxMem := mem3\<rparr>) M" by (simp add: same_layout_def M1_def RequireAll_def)
  have "holds (M1\<lparr>auxMem := mem3, locals := \<lambda>q. if gcol ?g q = rowAlign M
        then unpack_MC_MR_col ?r ?c (grow ?g q) (colAlign M) (ColShift M q) ?h 0 P (mem3 q) (locals M q)
        else locals M q\<rparr>) G"
    unfolding holds_locals_update [OF lay]
  proof (rule holds_locals_intro)
    fix q i j assume q: "q \<in> procs ?g" and i: "0 \<le> i" "i < LocalHeight M q"
      and j: "0 \<le> j" "j < LocalWidth M q"
    have row: "0 \<le> grow ?g q" "grow ?g q < ?r" using grow_range [OF ok] by auto
    have col: "0 \<le> gcol ?g q" "gcol ?g q < ?c" using gcol_range [OF ok q] by auto
    have rs: "RowShift M q = Shift (gcol ?g q) (rowAlign M) ?c" using M by (simp add: MC_MR_shifts)
    have rs0: "0 \<le> RowShift M q" using rs col rM by (simp add: Shift_range)
    have lt: "RowShift M q + j * ?c < 1"
      using j M c sz w1 rs0 by (simp add: MC_MR_shifts Length_iff)
    have jc: "0 \<le> j * ?c" using j c by simp
    have rsz: "RowShift M q = 0" using lt jc rs0 by linarith
    have j0: "j = 0"
    proof (rule ccontr)
      assume "j \<noteq> 0"
      then have "1 * ?c \<le> j * ?c" using j(1) c by (intro mult_right_mono) auto
      then show False using lt rsz c by linarith
    qed
    have own: "gcol ?g q = rowAlign M"
      using rsz rs Shift_iff [OF col rM] rM by simp
    have cs: "ColShift M q = (grow ?g q - colAlign M) mod ?r" using M row cM by (simp add: MC_MR_shifts Shift_eq)
    have cMp: "colAlign M < ?r * ?c" using cMq pe by simp
    have ih: "ColShift M q + i * ?r < ?h" using i M r sz by (simp add: MC_MR_shifts Length_iff)
    have "unpack_MC_MR_col ?r ?c (grow ?g q) (colAlign M) (ColShift M q) ?h 0 P (mem3 q) (locals M q) (i, 0)
        = (\<lambda>gi. G (gi, 0)) (ColShift M q + i * ?r)"
    proof (rule unpack_MC_MR_col_at [OF r c row cM(1) cMp cs _ i(1) ih])
      fix k iLoc assume k: "0 \<le> k" "k < ?c" and il: "0 \<le> iLoc"
        "iLoc < Length ?h (Shift (grow ?g q + ?r * k) (colAlign M) (?r * ?c)) (?r * ?c)"
      let ?s = "grow ?g q + k * ?r"
      have s: "?s \<in> procs ?g" using rowcol_in_procs [OF ok row k] .
      have "iLoc < P"
      proof -
        have "0 \<le> Shift (grow ?g q + ?r * k) (colAlign M) (?r * ?c)" using row k cM cMp r by (intro Shift_range) auto
        then have "Length ?h (Shift (grow ?g q + ?r * k) (colAlign M) (?r * ?c)) (?r * ?c) \<le> MaxLength ?h (?r * ?c)"
          using r c by (intro Length_le_MaxLength) simp_all
        then show ?thesis using il PM g pe by simp
      qed
      then have "mem3 q (0 + k * P + iLoc) = mem2 (comm_member ?g MRComm q k) (?c * P + iLoc)"
        unfolding mem3_def using own k il(1) by (intro Gather_at) simp_all
      also have "\<dots> = G (Shift ?s (colAlign M) ?p + iLoc * ?p, 0)"
        using R [OF s il(1)] il(2) pe by (simp add: mult.commute [of ?r k])
      finally show "mem3 q (0 + k * P + iLoc)
          = (\<lambda>gi. G (gi, 0)) (Shift (grow ?g q + ?r * k) (colAlign M) (?r * ?c) + iLoc * (?r * ?c))"
        using pe by (simp add: mult.commute [of ?r k])
    qed
    then show "(if gcol ?g q = rowAlign M
        then unpack_MC_MR_col ?r ?c (grow ?g q) (colAlign M) (ColShift M q) ?h 0 P (mem3 q) (locals M q)
        else locals M q) (i, j) = G (ColShift M q + i * ColStride M, RowShift M q + j * RowStride M)"
      using own j0 rs rM M by (simp add: ColStride_def is_MC_MR_def)
  qed
  moreover have "same_layout (M1\<lparr>auxMem := mem3, locals := \<lambda>q. if gcol ?g q = rowAlign M
        then unpack_MC_MR_col ?r ?c (grow ?g q) (colAlign M) (ColShift M q) ?h 0 P (mem3 q) (locals M q)
        else locals M q\<rparr>) M"
    using lay by (simp only: same_layout_locals)
  ultimately show ?thesis using res by blast
qed

text \<open>The row-vector pack is the column-vector one with the grid's dimensions
  exchanged, read off the transposed local matrix.\<close>

lemma pack_MR_MC_row_col:
  "pack_MR_MC_row r c myRow rA sA w ABuf base P buf
   = pack_MR_MC_col c r myRow rA sA w (\<lambda>(i, j). ABuf (j, i)) base P buf"
  by (simp add: pack_MR_MC_row_def pack_MR_MC_col_def mult.commute)

lemma unpack_MC_MR_row_at:
  fixes r c :: int
  assumes r: "0 < r" and c: "0 < c" and fc: "0 \<le> fc" "fc < c" and ra: "0 \<le> ra" "ra < r * c"
    and rs: "rowShift = (fc - ra) mod c"
    and buf: "\<And>k jLoc. 0 \<le> k \<Longrightarrow> k < r \<Longrightarrow> 0 \<le> jLoc
       \<Longrightarrow> jLoc < Length w (Shift (fc + c * k) ra (r * c)) (r * c)
       \<Longrightarrow> buf (base + k * P + jLoc) = V (Shift (fc + c * k) ra (r * c) + jLoc * (r * c))"
    and j: "0 \<le> j" "rowShift + j * c < w"
  shows "unpack_MC_MR_row r c fc ra rowShift w base P buf loc (0, j) = V (rowShift + j * c)"
proof -
  let ?p = "r * c"
  have pc: "c * r = ?p" by (rule mult.commute)
  have ra': "ra < c * r" using ra(2) by (simp only: mult.commute)
  let ?ts = "\<lambda>k. Shift (fc + c * k) ra ?p"
  let ?to = "\<lambda>k. (?ts k - rowShift) sdiv c"
  define v where "v = (\<lambda>(i'::int, j'). V (rowShift + j' * c))"
  have ts: "?ts k = rowShift + ?to k * c" if "0 \<le> k" for k
  proof -
    have "?ts k mod c = rowShift"
      using VC_shift_mod [OF c r fc(1) ra(1) ra' that] rs pc by (simp add: mult.commute [of c k])
    moreover have "0 \<le> ?ts k" using that fc ra r c by (intro Shift_range) auto
    ultimately show ?thesis using shift_offset [OF c] by auto
  qed
  have w: "writes (unpack_MC_MR_row r c fc ra rowShift w base P buf)
     (\<Union>k\<in>{0..<r}. \<Union>jLoc\<in>{0..<Length w (?ts k) ?p}. {(0, ?to k + jLoc * r)}) v"
    unfolding unpack_MC_MR_row_def Let_def
  proof (intro writes_for_loop writes_upd)
    fix k jLoc assume k: "0 \<le> k" "k < r" and jl: "0 \<le> jLoc" "jLoc < Length w (?ts k) ?p"
    have "?ts k + jLoc * ?p = rowShift + (?to k + jLoc * r) * c"
      using ts [OF k(1)] by (simp add: algebra_simps)
    then show "buf (base + k * P + jLoc) = v (0, ?to k + jLoc * r)"
      using buf [OF k jl] by (simp add: v_def)
  qed
  have rs0: "0 \<le> rowShift" "rowShift < c" using rs c by simp_all
  have gj: "0 \<le> rowShift + j * c" "(rowShift + j * c) mod c = (fc - ra) mod c"
    using rs0 j c rs by simp_all
  obtain k jLoc where k: "0 \<le> k" "k < r" and jl: "0 \<le> jLoc"
      and e: "rowShift + j * c = Shift (fc + k * c) ra (c * r) + jLoc * (c * r)"
    using VC_owner [OF c r fc ra(1) ra' gj] by blast
  have e': "rowShift + j * c = ?ts k + jLoc * ?p" using e pc by (simp add: mult.commute [of c k])
  have "jLoc < Length w (?ts k) ?p" using e' j jl r c by (simp add: Length_iff)
  moreover have "j = ?to k + jLoc * r"
  proof -
    have "rowShift + j * c = rowShift + (?to k + jLoc * r) * c"
      using e' ts [OF k(1)] by (simp add: algebra_simps)
    then show ?thesis using c by simp
  qed
  ultimately have "(0, j) \<in> (\<Union>k\<in>{0..<r}. \<Union>jLoc\<in>{0..<Length w (?ts k) ?p}. {(0::int, ?to k + jLoc * r)})"
    using k jl by (intro UN_I [of k] UN_I [of jLoc]) auto
  from writes_at [OF w this] show ?thesis by (simp add: v_def)
qed

text \<open>The exchange of the row-vector branch, over row-major ranks.\<close>

lemma MR_MC_row_exchange:
  fixes M A :: "'a DistMatrix" and P :: int
  assumes ok: "grid_ok (dgrid M)"
    and aM: "0 \<le> rowAlign M" "rowAlign M < gsize (dgrid M)"
    and aA: "0 \<le> rowAlign A" "rowAlign A < gsize (dgrid M)"
  defines "X \<equiv> MR_MC_row_xfer M A P"
  shows "SendRecv_ok (dgrid M) VRComm X"
    and "\<And>q. q \<in> procs (dgrid M) \<Longrightarrow> vc_of_vr (dgrid M) (recvFrom (X q)) \<in> procs (dgrid M)
           \<and> Shift (vc_of_vr (dgrid M) (recvFrom (X q))) (rowAlign A) (gsize (dgrid M))
             = Shift (vr_rank (dgrid M) q) (rowAlign M) (gsize (dgrid M))"
    and "\<And>q. sendOff (X q) = 0" "\<And>q. recvOff (X q) = gheight (dgrid M) * P" "\<And>q. sendCount (X q) = P"
proof -
  let ?g = "dgrid M" let ?p = "gsize ?g" let ?vr = "vr_rank ?g" let ?vc = "vc_of_vr ?g"
  have p: "0 < ?p" using ok by (simp add: grid_ok_def gsize_def)
  define a where "a q = (?vr q - rowAlign M) mod ?p" for q
  define b where "b q = (q - rowAlign A) mod ?p" for q
  have ab: "0 \<le> a q" "a q < ?p" "0 \<le> b q" "b q < ?p" for q using p by (simp_all add: a_def b_def)
  have vr: "0 \<le> ?vr q" "?vr q < ?p" if "q \<in> procs ?g" for q using vr_rank_range [OF ok that] by auto
  have pq: "0 \<le> q" "q < ?p" if "q \<in> procs ?g" for q using that by (simp_all add: procs_def)
  have sh: "Shift (?vr q) (rowAlign M) ?p = a q" "Shift q (rowAlign A) ?p = b q" if "q \<in> procs ?g" for q
    using pq [OF that] vr [OF that] aM aA by (simp_all add: Shift_eq a_def b_def)
  have sT: "sendTo (X q) = (b q + rowAlign M) mod ?p" if "q \<in> procs ?g" for q
  proof -
    have "0 \<le> ?vr q + (?p + b q - a q)" using vr [OF that] ab [of q] by simp
    then have "sendTo (X q) = (?vr q + (?p + b q - a q)) mod ?p"
      using sh [OF that] p by (simp add: X_def MR_MC_row_xfer_def Let_def)
    then show ?thesis using shift_partner [OF p] by (simp add: a_def)
  qed
  have rF: "recvFrom (X q) = ?vr ((a q + rowAlign A) mod ?p)" if "q \<in> procs ?g" for q
  proof -
    have "0 \<le> q + (?p + a q - b q)" using pq [OF that] ab [of q] by simp
    moreover have "(q + (?p + a q - b q)) mod ?p = (a q + rowAlign A) mod ?p"
      using shift_partner [OF p] by (simp add: b_def)
    moreover have "0 \<le> (a q + rowAlign A) mod ?p" using p by simp
    ultimately show ?thesis
      using sh [OF that] p ok by (simp add: X_def MR_MC_row_xfer_def Let_def vr_rank_def grid_defs)
  qed
  have tp: "(a q + rowAlign A) mod ?p \<in> procs ?g" for q using p by (simp add: procs_def)
  have src: "?vc (recvFrom (X q)) = (a q + rowAlign A) mod ?p" if "q \<in> procs ?g" for q
    using vc_of_vr_rank [OF ok tp] rF [OF that] by simp
  have srcb: "b (?vc (recvFrom (X q))) = a q" if "q \<in> procs ?g" for q
    using src [OF that] ab [of q] by (simp add: b_def mod_diff_left_eq)
  have sTv: "0 \<le> sendTo (X q)" "sendTo (X q) < ?p" if "q \<in> procs ?g" for q using sT [OF that] p by simp_all
  have sTp: "?vc (sendTo (X q)) \<in> procs ?g" "?vr (?vc (sendTo (X q))) = sendTo (X q)" if "q \<in> procs ?g" for q
    using vc_of_vr_range [OF ok sTv [OF that]] vr_rank_vc_of_vr [OF ok sTv [OF that]] by (simp_all add: procs_def)
  show "\<And>q. sendOff (X q) = 0" "\<And>q. recvOff (X q) = gheight ?g * P" "\<And>q. sendCount (X q) = P"
    by (simp_all add: X_def MR_MC_row_xfer_def Let_def)
  show "?vc (recvFrom (X q)) \<in> procs ?g \<and> Shift (?vc (recvFrom (X q))) (rowAlign A) ?p = Shift (?vr q) (rowAlign M) ?p"
    if q: "q \<in> procs ?g" for q
    using src [OF q] tp [of q] sh(2) [OF tp [of q]] srcb [OF q] sh(1) [OF q] by simp
  show "SendRecv_ok ?g VRComm X"
    unfolding SendRecv_ok_def
  proof
    fix q assume q: "q \<in> procs ?g"
    let ?s = "?vc (sendTo (X q))"
    have "a ?s = b q" using sTp(2) [OF q] sT [OF q] ab [of q] by (simp add: a_def mod_diff_left_eq)
    then have "recvFrom (X ?s) = ?vr ((b q + rowAlign A) mod ?p)" using rF [OF sTp(1) [OF q]] by simp
    also have "(b q + rowAlign A) mod ?p = q" using pq [OF q] by (simp add: b_def mod_add_left_eq)
    finally have 1: "recvFrom (X ?s) = ?vr q" .
    have "sendTo (X (?vc (recvFrom (X q)))) = (a q + rowAlign M) mod ?p"
      using sT [OF tp [of q]] src [OF q] srcb [OF q] by simp
    also have "\<dots> = ?vr q" using vr [OF q] by (simp add: a_def mod_add_left_eq)
    finally have 2: "sendTo (X (?vc (recvFrom (X q)))) = ?vr q" .
    have 3: "0 \<le> recvFrom (X q)" "recvFrom (X q) < ?p"
      using rF [OF q] vr_rank_range [OF ok tp [of q]] by simp_all
    show "0 \<le> sendTo (X q) \<and> sendTo (X q) < comm_size ?g VRComm
        \<and> 0 \<le> recvFrom (X q) \<and> recvFrom (X q) < comm_size ?g VRComm
        \<and> recvFrom (X (comm_member ?g VRComm q (sendTo (X q)))) = comm_rank ?g VRComm q
        \<and> sendTo (X (comm_member ?g VRComm q (recvFrom (X q)))) = comm_rank ?g VRComm q
        \<and> sendCount (X (comm_member ?g VRComm q (recvFrom (X q)))) \<le> recvCount (X q)"
      using 1 2 3 sTv [OF q] by (simp add: X_def MR_MC_row_xfer_def Let_def)
  qed
qed

text \<open>After the scatter of the row-vector branch, every process holds its
  \<open>[*,VC]\<close> entries of the row vector, under \<open>A\<close>'s row alignment.\<close>

lemma MR_MC_row_scatter:
  assumes A: "is_MR_MC A" and wfA: "dm_wf A" and hA: "holds A G" and h1: "mheight A = 1"
    and P: "MaxLength (mwidth A) (gsize (dgrid A)) \<le> P"
    and q: "q \<in> procs (dgrid A)"
    and x: "0 \<le> x" "x < Length (mwidth A) (Shift q (rowAlign A) (gsize (dgrid A))) (gsize (dgrid A))"
  shows "Scatter (dgrid A) MRComm P (gheight (dgrid A) * P) 0 (colAlign A)
           (\<lambda>q. if gcol (dgrid A) q = colAlign A
                then pack_MR_MC_row (gheight (dgrid A)) (gwidth (dgrid A)) (grow (dgrid A) q) (rowAlign A)
                       (RowShift A q) (mwidth A) (locals A q) (gheight (dgrid A) * P) P (B q)
                else B q) q x
         = G (0, Shift q (rowAlign A) (gsize (dgrid A)) + x * gsize (dgrid A))"
proof -
  let ?g = "dgrid A" let ?r = "gheight ?g" let ?c = "gwidth ?g" let ?p = "gsize ?g"
  let ?sh = "Shift q (rowAlign A) ?p"
  have ok: "grid_ok ?g" using wfA by (simp add: dm_wf_def)
  then have r: "0 < ?r" and c: "0 < ?c" by (simp_all add: grid_ok_def)
  have pe: "?p = ?r * ?c" by (simp add: gsize_def)
  note dmA = MR_MC_dm [OF A]
  have cA: "0 \<le> colAlign A" "colAlign A < ?c" and rA: "0 \<le> rowAlign A" "rowAlign A < ?r"
    using wfA dmA(1,2) by (simp_all add: dm_wf_def)
  have rr: "?r \<le> ?r * ?c" using r c by simp
  have rAp: "rowAlign A < ?r * ?c" using rA(2) rr by linarith
  have row: "0 \<le> grow ?g q" "grow ?g q < ?r" and col: "0 \<le> gcol ?g q" "gcol ?g q < ?c"
    using grow_range [OF ok, of q] gcol_range [OF ok q] by auto
  define rt where "rt = grow ?g q + colAlign A * ?r"
  have rt: "rt \<in> procs ?g" "grow ?g rt = grow ?g q" "gcol ?g rt = colAlign A"
    using rowcol_in_procs [OF ok row cA] rowcol_vc [OF ok row] by (simp_all add: rt_def)
  have qe: "grow ?g q + ?r * gcol ?g q = q" using vc_rowcol [OF ok, of q] by (simp add: mult.commute)
  have fit: "Length (mwidth A) (Shift (grow ?g q + ?r * k) (rowAlign A) (?c * ?r)) (?c * ?r) \<le> P"
    if "0 \<le> k" "k < ?c" for k
  proof -
    have "0 \<le> Shift (grow ?g q + ?r * k) (rowAlign A) (?c * ?r)"
      using row that rA rAp r c by (intro Shift_range) (auto simp: mult.commute)
    then have "Length (mwidth A) (Shift (grow ?g q + ?r * k) (rowAlign A) (?c * ?r)) (?c * ?r)
        \<le> MaxLength (mwidth A) (?c * ?r)" using r c by (intro Length_le_MaxLength) simp_all
    then show ?thesis using P pe by (simp add: mult.commute)
  qed
  have xP: "x < P" using x fit [OF col] qe pe by (simp add: mult.commute)
  have sc: "Scatter ?g MRComm P (?r * P) 0 (colAlign A)
           (\<lambda>q. if gcol ?g q = colAlign A
                then pack_MR_MC_row ?r ?c (grow ?g q) (rowAlign A) (RowShift A q) (mwidth A) (locals A q) (?r * P) P (B q)
                else B q) q x
      = pack_MR_MC_row ?r ?c (grow ?g q) (rowAlign A) (RowShift A rt) (mwidth A) (locals A rt) (?r * P) P (B rt)
          (?r * P + gcol ?g q * P + x)"
    using x(1) xP rt by (simp add: Scatter_def rt_def)
  have sh: "Shift (grow ?g q + ?r * gcol ?g q) (rowAlign A) (?c * ?r) = ?sh"
    using qe pe by (simp add: mult.commute)
  define off where "off = (?sh - RowShift A rt) sdiv ?r"
  have pk: "pack_MR_MC_row ?r ?c (grow ?g q) (rowAlign A) (RowShift A rt) (mwidth A) (locals A rt) (?r * P) P (B rt)
          (?r * P + gcol ?g q * P + x) = locals A rt (0, off + x * ?c)"
    unfolding pack_MR_MC_row_col
    using pack_MR_MC_col_at [OF c col, where c = ?r and h = "mwidth A" and mc = "grow ?g q" and aA = "rowAlign A"
        and P = P and sA = "RowShift A rt" and ABuf = "\<lambda>(i, j). locals A rt (j, i)" and base = "?r * P"
        and buf = "B rt" and i = x] x fit sh pe by (simp add: off_def mult.commute)
  have rsA: "RowShift A rt = (grow ?g q - rowAlign A) mod ?r"
    using dmA(5) [of rt] rt row rA by (simp add: Shift_eq)
  have shm: "?sh mod ?r = RowShift A rt"
    using VC_shift_mod [OF r c row(1) rA(1) rAp col(1)] rsA vc_rowcol [OF ok, of q] pe by simp
  have sh0: "0 \<le> ?sh" using q rA rAp by (intro Shift_range) (auto simp: pe procs_def)
  note so = shift_offset [OF r sh0 shm]
  have offe: "?sh = RowShift A rt + off * ?r" "0 \<le> off"
    using so r sh0 by (simp_all add: off_def pos_imp_zdiv_nonneg_iff)
  have lw: "off + x * ?c < LocalWidth A rt"
  proof -
    have "?sh + x * ?p < mwidth A" using x r c by (simp add: Length_iff pe)
    then have "RowShift A rt + (off + x * ?c) * ?r < mwidth A" using offe pe by (simp add: algebra_simps)
    moreover have nn: "0 \<le> off + x * ?c" using offe x c by simp
    ultimately have "off + x * ?c < Length (mwidth A) (RowShift A rt) ?r"
      by (simp add: Length_iff [OF r nn])
    then show ?thesis using dmA(7) [of rt] dmA(5) [of rt] by simp
  qed
  have lh: "0 < LocalHeight A rt" using dmA(6) [of rt] rt cA h1 c by (simp add: Length_def)
  have "locals A rt (0, off + x * ?c) = G (ColShift A rt + 0 * ColStride A, RowShift A rt + (off + x * ?c) * RowStride A)"
    using hA rt(1) lh lw offe x c unfolding holds_def by (auto simp: dmA(3))
  also have "\<dots> = G (0, ?sh + x * ?p)"
    using offe dmA(2) dmA(4) [of rt] rt cA pe by (simp add: algebra_simps)
  finally show ?thesis using sc pk by simp
qed

lemma MC_MR_from_MR_MC_row_holds:
  assumes M: "is_MC_MR M" and A: "is_MR_MC A" and g: "dgrid A = dgrid M"
    and wfM: "dm_wf M" and wfA: "dm_wf A" and hA: "holds A G"
    and sz: "mheight M = mheight A" "mwidth M = mwidth A" and h1: "mheight A = 1"
  shows "\<exists>M'. MC_MR_from_MR_MC_row M A = Inr M' \<and> holds M' G \<and> same_layout M' M"
proof -
  let ?g = "dgrid M" let ?r = "gheight ?g" let ?c = "gwidth ?g" let ?p = "gsize ?g"
  let ?w = "mwidth A"
  define P where "P = Pad (MaxLength ?w ?p)"
  define M1 where "M1 = RequireAll ((?r + ?c) * P) M"
  define packed where "packed = (\<lambda>q. if gcol ?g q = colAlign A
      then pack_MR_MC_row ?r ?c (grow ?g q) (rowAlign A) (RowShift A q) ?w (locals A q) (?r * P) P (auxMem M1 q)
      else auxMem M1 q)"
  define mem1 where "mem1 = Scatter ?g MRComm P (?r * P) 0 (colAlign A) packed"
  define X where "X = MR_MC_row_xfer M A P"
  have ok: "grid_ok ?g" using wfM by (simp add: dm_wf_def)
  then have r: "0 < ?r" and c: "0 < ?c" by (simp_all add: grid_ok_def)
  have pe: "?p = ?r * ?c" by (simp add: gsize_def)
  have rc: "?r \<le> ?p" "?c \<le> ?p" using r c by (simp_all add: pe)
  note dmA = MR_MC_dm [OF A]
  have cM: "0 \<le> colAlign M" "colAlign M < ?r" and rM: "0 \<le> rowAlign M" "rowAlign M < ?c"
    using wfM M by (simp_all add: dm_wf_def is_MC_MR_def ColStride_def RowStride_def)
  have rA: "0 \<le> rowAlign A" "rowAlign A < ?r" using wfA dmA(2) g by (simp_all add: dm_wf_def)
  have PM: "MaxLength ?w (gsize (dgrid A)) \<le> P" using g by (simp add: P_def Pad_ge)
  have rMq: "rowAlign M < ?p" and rAq: "rowAlign A < ?p" using rM(2) rA(2) rc by linarith+
  note E = MR_MC_row_exchange [OF ok rM(1) rMq rA(1) rAq, where P = P, folded X_def]
  obtain mem2 where mem2: "SendRecv ?g VRComm X mem1 = Some mem2" using E(1) by (simp add: SendRecv_def)
  define mem3 where "mem3 = Gather ?g MCComm P (?r * P) 0 (colAlign M) mem2"
  have res: "MC_MR_from_MR_MC_row M A = Inr (M1\<lparr>auxMem := mem3, locals := \<lambda>q. if grow ?g q = colAlign M
        then unpack_MC_MR_row ?r ?c (gcol ?g q) (rowAlign M) (RowShift M q) ?w 0 P (mem3 q) (locals M q)
        else locals M q\<rparr>)"
    unfolding mem3_def using mem2 unfolding MC_MR_from_MR_MC_row_def Let_def P_def [symmetric] M1_def [symmetric]
      packed_def [symmetric] mem1_def [symmetric] X_def [symmetric] by simp
  have S: "mem1 q x = G (0, Shift q (rowAlign A) ?p + x * ?p)"
    if "q \<in> procs ?g" "0 \<le> x" "x < Length ?w (Shift q (rowAlign A) ?p) ?p" for q x
    using MR_MC_row_scatter [OF A wfA hA h1 PM, of q x "auxMem M1"] that
    unfolding g by (simp add: mem1_def packed_def)
  have R: "mem2 q (?r * P + x) = G (0, Shift (vr_rank ?g q) (rowAlign M) ?p + x * ?p)"
    if q: "q \<in> procs ?g" and x: "0 \<le> x" "x < Length ?w (Shift (vr_rank ?g q) (rowAlign M) ?p) ?p" for q x
  proof -
    have xP: "x < P"
    proof -
      have "0 \<le> Shift (vr_rank ?g q) (rowAlign M) ?p"
        using vr_rank_range [OF ok q] rM rMq by (intro Shift_range) auto
      then have "Length ?w (Shift (vr_rank ?g q) (rowAlign M) ?p) ?p \<le> MaxLength ?w ?p"
        using r c by (intro Length_le_MaxLength) (simp_all add: pe)
      then show ?thesis using x PM g by simp
    qed
    let ?s = "vc_of_vr ?g (recvFrom (X q))"
    have "mem2 q (recvOff (X q) + x) = mem1 ?s (sendOff (X ?s) + x)"
      using SendRecv_at [OF mem2, of x q] x(1) xP E(5) by simp
    then show ?thesis using S [of ?s x] E(2) [OF q] x E(3,4) by simp
  qed
  have lay: "same_layout (M1\<lparr>auxMem := mem3\<rparr>) M" by (simp add: same_layout_def M1_def RequireAll_def)
  have "holds (M1\<lparr>auxMem := mem3, locals := \<lambda>q. if grow ?g q = colAlign M
        then unpack_MC_MR_row ?r ?c (gcol ?g q) (rowAlign M) (RowShift M q) ?w 0 P (mem3 q) (locals M q)
        else locals M q\<rparr>) G"
    unfolding holds_locals_update [OF lay]
  proof (rule holds_locals_intro)
    fix q i j assume q: "q \<in> procs ?g" and i: "0 \<le> i" "i < LocalHeight M q"
      and j: "0 \<le> j" "j < LocalWidth M q"
    have row: "0 \<le> grow ?g q" "grow ?g q < ?r" using grow_range [OF ok] by auto
    have col: "0 \<le> gcol ?g q" "gcol ?g q < ?c" using gcol_range [OF ok q] by auto
    have cs: "ColShift M q = Shift (grow ?g q) (colAlign M) ?r" using M by (simp add: MC_MR_shifts)
    have cs0: "0 \<le> ColShift M q" using cs row cM by (simp add: Shift_range)
    have lt: "ColShift M q + i * ?r < 1"
      using i M r sz h1 cs0 by (simp add: MC_MR_shifts Length_iff)
    have ir: "0 \<le> i * ?r" using i r by simp
    have csz: "ColShift M q = 0" using lt ir cs0 by linarith
    have i0: "i = 0"
    proof (rule ccontr)
      assume "i \<noteq> 0"
      then have "1 * ?r \<le> i * ?r" using i(1) r by (intro mult_right_mono) auto
      then show False using lt csz r by linarith
    qed
    have own: "grow ?g q = colAlign M"
      using csz cs Shift_iff [OF row cM] cM by simp
    have rs: "RowShift M q = (gcol ?g q - rowAlign M) mod ?c" using M col rM by (simp add: MC_MR_shifts Shift_eq)
    have rMp: "rowAlign M < ?r * ?c" using rMq pe by simp
    have jw: "RowShift M q + j * ?c < ?w" using j M c sz by (simp add: MC_MR_shifts Length_iff)
    have "unpack_MC_MR_row ?r ?c (gcol ?g q) (rowAlign M) (RowShift M q) ?w 0 P (mem3 q) (locals M q) (0, j)
        = (\<lambda>gj. G (0, gj)) (RowShift M q + j * ?c)"
    proof (rule unpack_MC_MR_row_at [OF r c col rM(1) rMp rs _ j(1) jw])
      fix k jLoc assume k: "0 \<le> k" "k < ?r" and jl: "0 \<le> jLoc"
        "jLoc < Length ?w (Shift (gcol ?g q + ?c * k) (rowAlign M) (?r * ?c)) (?r * ?c)"
      let ?s = "k + gcol ?g q * ?r"
      have s: "?s \<in> procs ?g" using rowcol_in_procs [OF ok k col] .
      have vs: "vr_rank ?g ?s = gcol ?g q + ?c * k"
        using vr_rank_rowcol [OF ok k, of "gcol ?g q"] by (simp only: mult.commute)
      have "jLoc < P"
      proof -
        have "0 \<le> Shift (gcol ?g q + ?c * k) (rowAlign M) (?r * ?c)" using col k rM rMp c by (intro Shift_range) auto
        then have "Length ?w (Shift (gcol ?g q + ?c * k) (rowAlign M) (?r * ?c)) (?r * ?c) \<le> MaxLength ?w (?r * ?c)"
          using r c by (intro Length_le_MaxLength) simp_all
        then show ?thesis using jl PM g pe by simp
      qed
      then have "mem3 q (0 + k * P + jLoc) = mem2 (comm_member ?g MCComm q k) (?r * P + jLoc)"
        unfolding mem3_def using own k jl(1) by (intro Gather_at) simp_all
      also have "\<dots> = G (0, Shift (gcol ?g q + ?c * k) (rowAlign M) ?p + jLoc * ?p)"
        using R [OF s jl(1)] jl(2) vs pe by simp
      finally show "mem3 q (0 + k * P + jLoc)
          = (\<lambda>gj. G (0, gj)) (Shift (gcol ?g q + ?c * k) (rowAlign M) (?r * ?c) + jLoc * (?r * ?c))"
        using pe by simp
    qed
    then show "(if grow ?g q = colAlign M
        then unpack_MC_MR_row ?r ?c (gcol ?g q) (rowAlign M) (RowShift M q) ?w 0 P (mem3 q) (locals M q)
        else locals M q) (i, j) = G (ColShift M q + i * ColStride M, RowShift M q + j * RowStride M)"
      using own i0 csz M by (simp add: RowStride_def is_MC_MR_def)
  qed
  moreover have "same_layout (M1\<lparr>auxMem := mem3, locals := \<lambda>q. if grow ?g q = colAlign M
        then unpack_MC_MR_row ?r ?c (gcol ?g q) (rowAlign M) (RowShift M q) ?w 0 P (mem3 q) (locals M q)
        else locals M q\<rparr>) M"
    using lay by (simp only: same_layout_locals)
  ultimately show ?thesis using res by blast
qed

lemma MC_MR_from_MR_MC_gen_holds:
  assumes ga: "gather_ok gather G" and M: "is_MC_MR M" and wfM: "dm_wf M"
    and wfA: "dm_wf A" and hA: "holds A G"
  shows "\<exists>M'. MC_MR_from_MR_MC_gen gather M A = Inr M' \<and> delivers M A G M'"
proof -
  let ?g = "dgrid M"
  have gr: "grid_ok ?g" using wfM by (rule grid_ok_wf)
  show ?thesis
  proof (cases "mwidth A \<le> mheight A")
    case True
    define T1 where "T1 = convert gather (new_dm VR STAR ?g) A"
    define T where "T = convert gather (new_dm_col VC STAR (colAlign M) ?g) T1"
    have a: "0 \<le> colAlign M" "colAlign M < dist_stride ?g VC"
      using M wfM stride_le_gsize [OF gr] by (auto simp: dm_wf_def)
    have wfT1: "dm_wf T1" and hT1: "holds T1 G" unfolding T1_def using ga gr wfA hA by (simp_all add: route_simps)
    have T: "is_VC_STAR T" "dgrid T = ?g" "mheight T = mheight A" "mwidth T = mwidth A"
      by (simp_all add: T_def T1_def is_VC_STAR_def)
    have wfT: "dm_wf T" and hT: "holds T G"
      unfolding T_def using ga gr a wfT1 hT1 by (simp_all add: route_simps)
    obtain M' where "MC_MR_from_VC_STAR M T = Inr M'" "holds M' G" "is_MC_MR M'" "dgrid M' = dgrid T"
      "mheight M' = mheight T" "mwidth M' = mwidth T"
      using MC_MR_from_VC_STAR_correct [OF M T(1) T(2) wfM wfT hT] by blast
    then show ?thesis
      using True M T by (simp add: MC_MR_from_MR_MC_gen_def T_def [symmetric] T1_def [symmetric] Let_def
          delivers_def is_MC_MR_def)
  next
    case False
    define B where "B = convert gather (new_dm STAR VC ?g) A"
    have wfB: "dm_wf B" and hB: "holds B G" unfolding B_def using ga gr wfA hA by (simp_all add: route_simps)
    obtain M' where M': "MC_MR_from_STAR_VR M (convert gather (new_dm_row STAR VR (rowAlign M) ?g) B) = Inr M'"
      "delivers M B G M'"
      using STAR_VR_temp_route(2) [OF ga M wfM wfB hB] by blast
    have sz: "mheight B = mheight A" "mwidth B = mwidth A" by (simp_all add: B_def)
    have "Resize (mheight A) (mwidth A) M' = M'" using M'(2) sz by (simp add: delivers_def Resize_def)
    then show ?thesis
      using False M' sz by (simp add: MC_MR_from_MR_MC_gen_def B_def [symmetric] Let_def delivers_def)
  qed
qed

lemma MC_MR_from_MR_MC_correct:
  assumes ga: "gather_ok gather G" and M0: "is_MC_MR M0" and A: "is_MR_MC A" and g: "dgrid A = dgrid M0"
    and wf0: "dm_wf M0" and wfA: "dm_wf A" and hA: "holds A G"
  shows "\<exists>M'. MC_MR_from_MR_MC gather M0 A = Inr M' \<and> holds M' G \<and> is_MC_MR M'
           \<and> dgrid M' = dgrid A \<and> mheight M' = mheight A \<and> mwidth M' = mwidth A"
proof -
  define M where "M = Resize (mheight A) (mwidth A) M0"
  have nn: "0 \<le> mheight A" "0 \<le> mwidth A" using wfA by (simp_all add: dm_wf_def)
  have M: "is_MC_MR M" "dgrid A = dgrid M" "mheight M = mheight A" "mwidth M = mwidth A"
    using M0 g by (simp_all add: M_def Resize_def is_MC_MR_def)
  have wfM: "dm_wf M" unfolding M_def using wf0 nn by (rule dm_wf_Resize)
  have lay: "\<exists>M'. MC_MR_from_MR_MC gather M0 A = Inr M' \<and> holds M' G \<and> same_layout M' M"
    if "mwidth A = 1 \<or> mheight A = 1"
  proof (cases "mwidth A = 1")
    case True
    then show ?thesis using MC_MR_from_MR_MC_col_holds [OF M(1) A M(2) wfM wfA hA M(3,4) True]
      unfolding MC_MR_from_MR_MC_def Let_def M_def [symmetric] by simp
  next
    case False
    then have h1: "mheight A = 1" using that by simp
    then show ?thesis using False MC_MR_from_MR_MC_row_holds [OF M(1) A M(2) wfM wfA hA M(3,4) h1]
      unfolding MC_MR_from_MR_MC_def Let_def M_def [symmetric] by simp
  qed
  show ?thesis
  proof (cases "mwidth A = 1 \<or> mheight A = 1")
    case True
    then show ?thesis using lay M by (auto simp: same_layout_def is_MC_MR_def)
  next
    case False
    then have "MC_MR_from_MR_MC gather M0 A = MC_MR_from_MR_MC_gen gather M A"
      by (simp add: MC_MR_from_MR_MC_def M_def [symmetric])
    then show ?thesis using MC_MR_from_MR_MC_gen_holds [OF ga M(1) wfM wfA hA] M
      by (auto simp: delivers_def is_MC_MR_def)
  qed
qed

text \<open>C29. Assigning an \<open>[MR,MC]\<close> matrix to an \<open>[MC,MR]\<close> matrix on the same grid
  returns normally and the destination holds the source's global matrix with its size, on
  each of the three paths: a column vector by scatter, point-to-point exchange over
  column-major ranks and gather; a row vector by the transposed sequence over row-major
  ranks; any other shape through temporaries.\<close>

theorem MC_MR_from_MR_MC_holds:
  assumes ga: "gather_ok gather G" and M0: "is_MC_MR M0" and A: "is_MR_MC A" and g: "dgrid A = dgrid M0"
    and wf0: "dm_wf M0" and wfA: "dm_wf A" and hA: "holds A G"
  shows "\<exists>M'. MC_MR_from_MR_MC gather M0 A = Inr M' \<and> holds M' G \<and> is_MC_MR M'
           \<and> dgrid M' = dgrid A \<and> mheight M' = mheight A \<and> mwidth M' = mwidth A"
  using assms by (rule MC_MR_from_MR_MC_correct)

end
