(* ===== verification/CIRC_CIRC.thy ===== *)
theory CIRC_CIRC
  imports MC_MR_MR_MC
begin

text \<open>
  Assignment from \<open>[CIRC,CIRC]\<close>, a matrix held whole by one root process:
  \<open>[MC,MR] = [CIRC,CIRC]\<close> (\<open>src/src/core/dist_matrix/mc_mr.cpp\<close>, lines 831--913)
  packs, on the root, each process's \<open>[MC,MR]\<close> block and scatters the blocks over
  column-major ranks; \<open>[MR,*] = [CIRC,CIRC]\<close> (\<open>mr_star.cpp\<close>, lines 405--415) goes
  through an \<open>[MR,MC]\<close> temporary aligned with the destination. The scatter is
  also the step \<open>A_MC_MR = A\<close> of \<open>[*,MD] = [CIRC,CIRC]\<close>
  (\<open>star_md.cpp\<close>, line 271), which the \<open>STAR_MD\<close> model takes as a parameter.
\<close>

section \<open>Definitions\<close>

definition is_CIRC_CIRC :: "'a DistMatrix \<Rightarrow> bool" where
  "is_CIRC_CIRC M \<longleftrightarrow> colDist M = CIRC \<and> rowDist M = CIRC"

text \<open>Pack (lines 862--885), on the root: for each column shift \<open>t\<close> and row shift
  \<open>s\<close>, the process \<open>q = row + col r\<close> that owns them under the destination's
  alignments gets, in block \<open>q\<close>, its local matrix in column-major order.\<close>

definition pack_CIRC_MC_MR :: "int \<Rightarrow> int \<Rightarrow> int \<Rightarrow> int \<Rightarrow> int \<Rightarrow> int \<Rightarrow> 'a lmat \<Rightarrow> int
     \<Rightarrow> 'a buf \<Rightarrow> 'a buf" where
  "pack_CIRC_MC_MR colStride rowStride colAlign' rowAlign' m n ABuf pkgSize buf =
     for_loop rowStride (\<lambda>t. let tLocalWidth = Length n t rowStride;
                                col = (rowAlign' + t) smod rowStride in
       for_loop colStride (\<lambda>s. let sLocalHeight = Length m s colStride;
                                   row = (colAlign' + s) smod colStride;
                                   q = row + col * colStride in
         for_loop2 tLocalWidth sLocalHeight (\<lambda>iLoc jLoc b.
           b(q * pkgSize + iLoc + jLoc * sLocalHeight := ABuf (s + iLoc * colStride, t + jLoc * rowStride)))))
     buf"

text \<open>Unpack (lines 901--910): the received block, column-major with the local height
  as leading dimension, into the local matrix.\<close>

definition unpack_CIRC_MC_MR :: "int \<Rightarrow> int \<Rightarrow> int \<Rightarrow> 'a buf \<Rightarrow> 'a lmat \<Rightarrow> 'a lmat" where
  "unpack_CIRC_MC_MR mLocal nLocal base recvBuf loc =
     for_loop2 nLocal mLocal (\<lambda>iLoc jLoc b. b((iLoc, jLoc) := recvBuf (base + iLoc + jLoc * mLocal))) loc"

text \<open>The operator (lines 831--913). The root requires \<open>sendSize + recvSize\<close> entries
  and receives behind its send buffer; every other process requires \<open>recvSize\<close> and
  receives at the front of its arena. Every process takes part in \<open>[MC,MR]\<close>.\<close>

definition MC_MR_from_CIRC_CIRC :: "'a DistMatrix \<Rightarrow> 'a DistMatrix \<Rightarrow> 'a DistMatrix exn" where
  "MC_MR_from_CIRC_CIRC M0 A =
     (let g = dgrid A; m = mheight A; n = mwidth A;
          colStride = ColStride M0; rowStride = RowStride M0; p = gsize g;
          M = Resize m n M0;
          pkgSize = Pad (MaxLength m colStride * MaxLength n rowStride);
          recvSize = pkgSize; sendSize = p * pkgSize;
          rOff = (\<lambda>q. if q = root A then sendSize else 0);
          M1 = M\<lparr>auxSize := \<lambda>q. max (auxSize M q) (rOff q + recvSize)\<rparr>;
          sent = (\<lambda>q. if q = root A
                      then pack_CIRC_MC_MR colStride rowStride (colAlign M) (rowAlign M) m n (locals A q)
                             pkgSize (auxMem M1 q)
                      else auxMem M1 q);
          mem = Scatter_offs g VCComm pkgSize 0 rOff (root A) sent
      in Inr (M1\<lparr>auxMem := mem,
                 locals := \<lambda>q. unpack_CIRC_MC_MR (LocalHeight M q) (LocalWidth M q) (rOff q) (mem q)
                                  (locals M q)\<rparr>))"

text \<open>\<open>[MR,*] = [CIRC,CIRC]\<close> (\<open>mr_star.cpp\<close>, lines 405--415): an \<open>[MR,MC]\<close>
  temporary on \<open>A\<close>'s grid aligned with the destination, assigned from \<open>A\<close>, then
  \<open>[MR,*] = [MR,MC]\<close>.\<close>

definition MR_STAR_from_CIRC_CIRC ::
  "('a DistMatrix \<Rightarrow> 'a gmat) \<Rightarrow> 'a DistMatrix \<Rightarrow> 'a DistMatrix \<Rightarrow> 'a DistMatrix" where
  "MR_STAR_from_CIRC_CIRC gather M A =
     (let A_MR_MC = convert gather (new_dm_col MR MC (colAlign M) (dgrid A)) A
      in MR_STAR_from_MR_MC gather M A_MR_MC)"

section \<open>Lemmas\<close>

text \<open>A column-major offset within an \<open>a \<times> b\<close> block fits a package of size \<open>P\<close>.\<close>

lemma colmajor_lt:
  fixes i j a b P :: int
  assumes "0 \<le> i" "i < a" "0 \<le> j" "j < b" "a * b \<le> P"
  shows "0 \<le> i + j * a" "i + j * a < P"
proof -
  show "0 \<le> i + j * a" using assms by simp
  have "i + j * a < (j + 1) * a" using assms by (simp add: algebra_simps)
  also have "\<dots> \<le> b * a" using assms by (intro mult_right_mono) auto
  finally show "i + j * a < P" using assms(5) by (simp add: mult.commute)
qed

lemma CIRC_CIRC_dm:
  assumes "is_CIRC_CIRC A" "dm_wf A"
  shows "ColStride A = 1" "RowStride A = 1" "Participating A q \<longleftrightarrow> q = root A"
    "ColShift A (root A) = 0" "RowShift A (root A) = 0"
    "LocalHeight A (root A) = mheight A" "LocalWidth A (root A) = mwidth A"
proof -
  have "colAlign A = 0" "rowAlign A = 0" "0 \<le> mheight A" "0 \<le> mwidth A"
    using assms by (simp_all add: dm_wf_def is_CIRC_CIRC_def ColStride_def RowStride_def)
  then show "ColStride A = 1" "RowStride A = 1" "Participating A q \<longleftrightarrow> q = root A"
    "ColShift A (root A) = 0" "RowShift A (root A) = 0"
    "LocalHeight A (root A) = mheight A" "LocalWidth A (root A) = mwidth A"
    using assms by (simp_all add: is_CIRC_CIRC_def dm_defs Shift_def Length_def)
qed

text \<open>The root of a \<open>[CIRC,CIRC]\<close> matrix holds it whole.\<close>

lemma CIRC_CIRC_root_at:
  assumes A: "is_CIRC_CIRC A" "dm_wf A" and rt: "root A \<in> procs (dgrid A)" and h: "holds A G"
    and ij: "0 \<le> i" "i < mheight A" "0 \<le> j" "j < mwidth A"
  shows "locals A (root A) (i, j) = G (i, j)"
proof -
  note d = CIRC_CIRC_dm [OF A]
  have "\<forall>iLoc\<in>{0..<LocalHeight A (root A)}. \<forall>jLoc\<in>{0..<LocalWidth A (root A)}.
      locals A (root A) (iLoc, jLoc) = G (ColShift A (root A) + iLoc * ColStride A, RowShift A (root A) + jLoc * RowStride A)"
    using h rt d(3) [of "root A"] by (simp add: holds_def)
  then show ?thesis using ij d by simp
qed

lemma unpack_CIRC_MC_MR_at:
  assumes "0 \<le> i" "i < mL" "0 \<le> j" "j < nL"
  shows "unpack_CIRC_MC_MR mL nL base buf loc (i, j) = buf (base + i + j * mL)"
proof -
  have w: "writes (unpack_CIRC_MC_MR mL nL base buf)
      (\<Union>j\<in>{0..<nL}. \<Union>i\<in>{0..<mL}. {(i, j)}) (\<lambda>(i, j). buf (base + i + j * mL))"
    unfolding unpack_CIRC_MC_MR_def by (intro writes_for_loop2 writes_upd) simp
  have "(i, j) \<in> (\<Union>j\<in>{0..<nL}. \<Union>i\<in>{0..<mL}. {(i, j)})" using assms by auto
  from writes_at [OF w this] show ?thesis by simp
qed

lemma pack_CIRC_MC_MR_at:
  fixes r c :: int
  assumes r: "0 < r" and c: "0 < c" and ca: "0 \<le> ca" "ca < r" and ra: "0 \<le> ra" "ra < c"
    and s: "0 \<le> s" "s < r" and t: "0 \<le> t" "t < c"
    and i: "0 \<le> i" "i < Length m s r" and j: "0 \<le> j" "j < Length n t c"
    and fit: "\<And>s t. 0 \<le> s \<Longrightarrow> s < r \<Longrightarrow> 0 \<le> t \<Longrightarrow> t < c \<Longrightarrow> Length m s r * Length n t c \<le> P"
  shows "pack_CIRC_MC_MR r c ca ra m n ABuf P buf
           (((ca + s) mod r + ((ra + t) mod c) * r) * P + i + j * Length m s r)
         = ABuf (s + i * r, t + j * c)"
proof -
  define pt where "pt s t i j = (((ca + s) mod r + ((ra + t) mod c) * r) * P + i + j * Length m s r)" for s t i j
  define v where "v x = (let blk = x div P; ofs = x mod P; s' = (blk mod r - ca) mod r;
      t' = (blk div r - ra) mod c; lh = Length m s' r in ABuf (s' + (ofs mod lh) * r, t' + (ofs div lh) * c))" for x
  have v: "v (pt s t i j) = ABuf (s + i * r, t + j * c)"
    if s: "0 \<le> s" "s < r" and t: "0 \<le> t" "t < c" and i: "0 \<le> i" "i < Length m s r"
      and j: "0 \<le> j" "j < Length n t c" for s t i j
  proof -
    let ?lh = "Length m s r" let ?row = "(ca + s) mod r" let ?col = "(ra + t) mod c"
    note cm = colmajor_lt [OF i j fit [OF s t]]
    have lt: "i + j * ?lh < P" and ge: "0 \<le> i + j * ?lh" using cm by simp_all
    have d: "(?row + ?col * r) * P + i + j * ?lh = (?row + ?col * r) * P + (i + j * ?lh)" by simp
    have b: "(pt s t i j) div P = ?row + ?col * r" "(pt s t i j) mod P = i + j * ?lh"
      unfolding pt_def d using lt ge by (simp_all only: block_div_mod)
    have rc: "(?row + ?col * r) mod r = ?row" "(?row + ?col * r) div r = ?col" using r by simp_all
    have st: "(?row - ca) mod r = s" "(?col - ra) mod c = t"
      using s t by (simp_all add: mod_diff_left_eq)
    have o: "(i + j * ?lh) mod ?lh = i" "(i + j * ?lh) div ?lh = j" using i by simp_all
    have im: "i mod ?lh = i" using i by simp
    show ?thesis by (simp add: v_def Let_def b rc st o im)
  qed
  have w: "writes (pack_CIRC_MC_MR r c ca ra m n ABuf P)
     (\<Union>t\<in>{0..<c}. \<Union>s\<in>{0..<r}. \<Union>j\<in>{0..<Length n t c}. \<Union>i\<in>{0..<Length m s r}. {pt s t i j}) v"
    unfolding pack_CIRC_MC_MR_def Let_def
    apply (intro writes_for_loop writes_for_loop2)
    subgoal for t s i j using v [of s t i j] r c ca ra by (simp add: pt_def writes_upd)
    done
  have "pt s t i j \<in> (\<Union>t\<in>{0..<c}. \<Union>s\<in>{0..<r}. \<Union>j\<in>{0..<Length n t c}. \<Union>i\<in>{0..<Length m s r}. {pt s t i j})"
    using s t i j by (intro UN_I [of t] UN_I [of s] UN_I [of j] UN_I [of i]) auto
  from writes_at [OF w this] show ?thesis using v [OF s t i j] by (simp add: pt_def)
qed

lemma MC_MR_from_CIRC_CIRC_correct:
  assumes M0: "is_MC_MR M0" and A: "is_CIRC_CIRC A" and g: "dgrid A = dgrid M0"
    and wf0: "dm_wf M0" and wfA: "dm_wf A" and rt: "root A \<in> procs (dgrid A)" and hA: "holds A G"
  shows "\<exists>M'. MC_MR_from_CIRC_CIRC M0 A = Inr M' \<and> holds M' G \<and> is_MC_MR M'
           \<and> dgrid M' = dgrid A \<and> mheight M' = mheight A \<and> mwidth M' = mwidth A"
proof -
  let ?g = "dgrid A" let ?r = "gheight ?g" let ?c = "gwidth ?g" let ?m = "mheight A" let ?n = "mwidth A"
  define M where "M = Resize ?m ?n M0"
  define P where "P = Pad (MaxLength ?m (ColStride M0) * MaxLength ?n (RowStride M0))"
  define rOff where "rOff = (\<lambda>q. if q = root A then gsize ?g * P else 0)"
  define M1 where "M1 = M\<lparr>auxSize := \<lambda>q. max (auxSize M q) (rOff q + P)\<rparr>"
  define sent where "sent = (\<lambda>q. if q = root A
      then pack_CIRC_MC_MR (ColStride M0) (RowStride M0) (colAlign M) (rowAlign M) ?m ?n (locals A q) P (auxMem M1 q)
      else auxMem M1 q)"
  define mem where "mem = Scatter_offs ?g VCComm P 0 rOff (root A) sent"
  define L where "L = (\<lambda>q. unpack_CIRC_MC_MR (LocalHeight M q) (LocalWidth M q) (rOff q) (mem q) (locals M q))"
  have res: "MC_MR_from_CIRC_CIRC M0 A = Inr (M1\<lparr>auxMem := mem, locals := L\<rparr>)"
    unfolding L_def mem_def sent_def M1_def rOff_def P_def M_def by (simp add: MC_MR_from_CIRC_CIRC_def Let_def)
  have ok: "grid_ok ?g" using wfA by (simp add: dm_wf_def)
  then have r: "0 < ?r" and c: "0 < ?c" by (simp_all add: grid_ok_def)
  have M: "is_MC_MR M" "dgrid M = ?g" "mheight M = ?m" "mwidth M = ?n"
    using M0 g by (simp_all add: M_def Resize_def is_MC_MR_def)
  have st: "ColStride M0 = ?r" "RowStride M0 = ?c" "ColStride M = ?r" "RowStride M = ?c"
    using M0 M g by (simp_all add: is_MC_MR_def ColStride_def RowStride_def M_def Resize_def)
  have al: "0 \<le> colAlign M" "colAlign M < ?r" "0 \<le> rowAlign M" "rowAlign M < ?c"
    using wf0 st by (simp_all add: dm_wf_def M_def Resize_def)
  note dA = CIRC_CIRC_dm [OF A wfA]
  have fit: "Length ?m s ?r * Length ?n t ?c \<le> P" if "0 \<le> s" "0 \<le> t" for s t
    unfolding P_def st using r c that by (rule Pad_fit)
  have lay: "same_layout (M1\<lparr>auxMem := mem\<rparr>) M" by (simp add: same_layout_def M1_def)
  have "holds (M1\<lparr>auxMem := mem, locals := L\<rparr>) G"
    unfolding holds_locals_update [OF lay]
  proof (rule holds_locals_intro)
    fix q i j assume q: "q \<in> procs (dgrid M)" and i: "0 \<le> i" "i < LocalHeight M q"
      and j: "0 \<le> j" "j < LocalWidth M q"
    let ?s = "ColShift M q" let ?t = "RowShift M q"
    have row: "0 \<le> grow ?g q" "grow ?g q < ?r" using grow_range [OF ok] by auto
    have col: "0 \<le> gcol ?g q" "gcol ?g q < ?c" using gcol_range [OF ok] q M(2) by auto
    have s: "?s = (grow ?g q - colAlign M) mod ?r" "?t = (gcol ?g q - rowAlign M) mod ?c"
      using M row col al by (simp_all add: MC_MR_shifts Shift_eq)
    have s0: "0 \<le> ?s" "?s < ?r" "0 \<le> ?t" "?t < ?c" using s r c by simp_all
    have lh: "LocalHeight M q = Length ?m ?s ?r" "LocalWidth M q = Length ?n ?t ?c"
      using M by (simp_all add: MC_MR_shifts)
    have ij: "0 \<le> i + j * LocalHeight M q" "i + j * LocalHeight M q < P"
      using colmajor_lt [OF i j] fit [OF s0(1) s0(3)] lh by auto
    have qrc: "q = (colAlign M + ?s) mod ?r + ((rowAlign M + ?t) mod ?c) * ?r"
      using s row col vc_rowcol [OF ok, of q] by (simp add: mod_add_right_eq)
    have mi: "?s + i * ?r < ?m" "?t + j * ?c < ?n"
      using i j lh s0 r c by (simp_all add: Length_iff)
    have pk: "pack_CIRC_MC_MR ?r ?c (colAlign M) (rowAlign M) ?m ?n (locals A (root A)) P (auxMem M1 (root A))
        (((colAlign M + ?s) mod ?r + ((rowAlign M + ?t) mod ?c) * ?r) * P + i + j * Length ?m ?s ?r)
        = locals A (root A) (?s + i * ?r, ?t + j * ?c)"
      by (rule pack_CIRC_MC_MR_at [OF r c al s0 i(1) _ j(1)]) (use i j lh fit in auto)
    have "L q (i, j) = mem q (rOff q + (i + j * LocalHeight M q))"
      unfolding L_def using i j by (simp add: unpack_CIRC_MC_MR_at add.assoc)
    also have "\<dots> = sent (root A) (q * P + (i + j * LocalHeight M q))"
      unfolding mem_def using Scatter_offs_at [OF ij, where g = ?g and cm = VCComm and sOff = 0 and rOff = rOff
        and rt = "root A" and mem = sent and q = q] by simp
    also have "\<dots> = locals A (root A) (?s + i * ?r, ?t + j * ?c)"
      unfolding sent_def st using pk qrc lh by (simp add: add.assoc)
    also have "\<dots> = G (?s + i * ?r, ?t + j * ?c)"
      using CIRC_CIRC_root_at [OF A wfA rt hA] mi s0 i j r c by simp
    finally show "L q (i, j) = G (?s + i * ColStride M, ?t + j * RowStride M)" using st by simp
  qed
  moreover have "same_layout (M1\<lparr>auxMem := mem, locals := L\<rparr>) M"
    using lay by (simp only: same_layout_locals)
  ultimately show ?thesis using res M by (auto simp: same_layout_def is_MC_MR_def)
qed

lemma MC_MR_from_CIRC_CIRC_wf:
  assumes "dm_wf M0" "dm_wf A" "MC_MR_from_CIRC_CIRC M0 A = Inr M'"
  shows "dm_wf M'"
  using assms by (auto simp: MC_MR_from_CIRC_CIRC_def Let_def dm_wf_def Resize_def ColStride_def RowStride_def)

lemma MR_STAR_from_CIRC_CIRC_delivers:
  assumes ga: "gather_ok gather G" and M: "is_MR_STAR M" and wfM: "dm_wf M"
    and wfA: "dm_wf A" and hA: "holds A G" and g: "dgrid A = dgrid M"
  shows "delivers M A G (MR_STAR_from_CIRC_CIRC gather M A)"
proof -
  have gr: "grid_ok (dgrid M)" using wfM by (rule grid_ok_wf)
  have a: "0 \<le> colAlign M" "colAlign M < gwidth (dgrid M)"
    using M wfM by (auto simp: dm_wf_def is_MR_STAR_def ColStride_def)
  show ?thesis
    using ga gr a wfA hA wfM g
    by (simp add: delivers_def MR_STAR_from_CIRC_CIRC_def MR_STAR_from_MR_MC_def Let_def route_simps)
qed

text \<open>C33. Assigning a \<open>[CIRC,CIRC]\<close> matrix, held whole by its root, to an
  \<open>[MC,MR]\<close> matrix on the same grid returns normally: the root packs each process's
  block and scatters the blocks over column-major ranks, and afterwards every process
  holds its \<open>[MC,MR]\<close> block of the source's global matrix, at the source's size.\<close>

theorem MC_MR_from_CIRC_CIRC_holds:
  assumes M0: "is_MC_MR M0" and A: "is_CIRC_CIRC A" and g: "dgrid A = dgrid M0"
    and wf0: "dm_wf M0" and wfA: "dm_wf A" and rt: "root A \<in> procs (dgrid A)" and hA: "holds A G"
  shows "\<exists>M'. MC_MR_from_CIRC_CIRC M0 A = Inr M' \<and> holds M' G \<and> is_MC_MR M'
           \<and> dgrid M' = dgrid A \<and> mheight M' = mheight A \<and> mwidth M' = mwidth A"
  using assms by (rule MC_MR_from_CIRC_CIRC_correct)

end
