(* ===== verification/SymInv.thy ===== *)
theory SymInv
  imports MC_MR_Trans
begin

text \<open>
  \<open>SymmetricInverse\<close> (\<open>src/src/lapack-like/funcs/Inverse/Symmetric.cpp\<close>): the
  inverse of a symmetric (or Hermitian) matrix from its pivoted \<open>LDL\<close> factorization,
  for a local matrix, an \<open>[MC,MR]\<close> matrix, and a \<open>[*,*]\<close> matrix whose processes
  each invert their own copy. Only the lower-triangle variant exists; the upper one raises
  a logic error. The kernels it calls (\<open>LDL\<close>, \<open>TriangularInverse\<close>, \<open>Trdtrmm\<close>,
  \<open>InvertPermutation\<close>, \<open>MakeSymmetric\<close>, \<open>PermuteRows\<close>, \<open>PermuteCols\<close>) are not
  under \<open>src/\<close>: they are the fields of \<open>sinv_env\<close>, and what the development uses of
  them is the contract \<open>sinv_ok\<close>. The theory shows the error path, and that the order
  of the last steps (make the inverse symmetric, then permute rows and columns by the same
  permutation) leaves both triangles filled in consistently, as the code's comment says.
\<close>

section \<open>Definitions\<close>

datatype UpperOrLower = LOWER | UPPER

text \<open>The kernels, over a matrix type \<open>'m\<close>, the block-diagonal factor \<open>'d\<close>, the
  pivot vector \<open>'p\<close> and the pivot type \<open>'v\<close>. \<open>LDL(A, dSub, pPerm, conjugate,
  pivotType)\<close> overwrites \<open>A\<close> and returns \<open>dSub\<close> and \<open>pPerm\<close>.\<close>

record ('m, 'd, 'p, 'v) sinv_env =
  si_LDL :: "'m \<Rightarrow> bool \<Rightarrow> 'v \<Rightarrow> 'm \<times> 'd \<times> 'p"
  si_TriangularInverse :: "'m \<Rightarrow> 'm"
  si_Trdtrmm :: "'m \<Rightarrow> 'd \<Rightarrow> bool \<Rightarrow> 'm"
  si_InvertPermutation :: "'p \<Rightarrow> 'p"
  si_MakeSymmetric :: "'m \<Rightarrow> bool \<Rightarrow> 'm"
  si_PermuteRows :: "'m \<Rightarrow> 'p \<Rightarrow> 'p \<Rightarrow> 'm"
  si_PermuteCols :: "'m \<Rightarrow> 'p \<Rightarrow> 'p \<Rightarrow> 'm"

text \<open>The lower-triangle branch (lines 20--32 and 44--56): factor, invert the unit
  lower triangle, form the inverse's lower triangle, fill in the upper triangle, and undo
  the pivoting on rows and columns.\<close>

definition SymmetricInverse_lower ::
  "('m, 'd, 'p, 'v) sinv_env \<Rightarrow> 'm \<Rightarrow> bool \<Rightarrow> 'v \<Rightarrow> 'm" where
  "SymmetricInverse_lower env A conjugate pivotType =
     (let (A1, dSub, pPerm) = si_LDL env A conjugate pivotType;
          A2 = si_TriangularInverse env A1;
          A3 = si_Trdtrmm env A2 dSub conjugate;
          pInvPerm = si_InvertPermutation env pPerm;
          A4 = si_MakeSymmetric env A3 conjugate;
          A5 = si_PermuteRows env A4 pInvPerm pPerm
      in si_PermuteCols env A5 pInvPerm pPerm)"

text \<open>\<open>SymmetricInverse(uplo, Matrix<F>& A, conjugate, pivotType)\<close> (lines 14--36).\<close>

definition SymmetricInverse ::
  "('m, 'd, 'p, 'v) sinv_env \<Rightarrow> UpperOrLower \<Rightarrow> 'm \<Rightarrow> bool \<Rightarrow> 'v \<Rightarrow> 'm exn" where
  "SymmetricInverse env uplo A conjugate pivotType =
     (if uplo = LOWER then Inr (SymmetricInverse_lower env A conjugate pivotType)
      else Inl (LogicError ''This option is not yet supported'', A))"

text \<open>\<open>SymmetricInverse(uplo, DistMatrix<F>& A, conjugate, pivotType)\<close> (lines
  38--60): the same sequence over distributed kernels, its pivots in \<open>[VC,*]\<close> and its
  diagonal in \<open>[MD,*]\<close> on \<open>A\<close>'s grid.\<close>

definition SymmetricInverse_dist ::
  "('a DistMatrix, 'd, 'p, 'v) sinv_env \<Rightarrow> UpperOrLower \<Rightarrow> 'a DistMatrix \<Rightarrow> bool \<Rightarrow> 'v
     \<Rightarrow> 'a DistMatrix exn" where
  "SymmetricInverse_dist env uplo A conjugate pivotType =
     (if uplo = LOWER then Inr (SymmetricInverse_lower env A conjugate pivotType)
      else Inl (LogicError ''This option is not yet supported'', A))"

text \<open>\<open>LocalSymmetricInverse(uplo, DistMatrix<F,STAR,STAR>& A, ...)\<close> (lines 62--69):
  every process runs the sequential routine on its own copy \<open>A.Matrix()\<close>; the branch
  depends only on \<open>uplo\<close>, which all processes pass alike.\<close>

definition LocalSymmetricInverse ::
  "('a lmat, 'd, 'p, 'v) sinv_env \<Rightarrow> UpperOrLower \<Rightarrow> 'a DistMatrix \<Rightarrow> bool \<Rightarrow> 'v
     \<Rightarrow> 'a DistMatrix exn" where
  "LocalSymmetricInverse env uplo A conjugate pivotType =
     (if uplo = LOWER
      then Inr (A\<lparr>locals := \<lambda>q. SymmetricInverse_lower env (locals A q) conjugate pivotType\<rparr>)
      else Inl (LogicError ''This option is not yet supported'', A))"

text \<open>An \<open>n \<times> n\<close> matrix, read through \<open>gl\<close>, is symmetric (Hermitian when
  \<open>conjugate\<close>, with \<open>cf\<close> the conjugation) when each entry is the (conjugated) mirror
  of its transpose.\<close>

definition sym_upto :: "int \<Rightarrow> bool \<Rightarrow> ('a \<Rightarrow> 'a) \<Rightarrow> 'a gmat \<Rightarrow> bool" where
  "sym_upto n conjugate cf B \<longleftrightarrow>
     (\<forall>i\<in>{0..<n}. \<forall>j\<in>{0..<n}. B (i, j) = conj_if conjugate cf (B (j, i)))"

text \<open>The contract of the kernels on \<open>n \<times> n\<close> matrices: \<open>MakeSymmetric(LOWER, A,
  conjugate)\<close> returns a (conjugate-)symmetric matrix, and \<open>PermuteRows\<close> and
  \<open>PermuteCols\<close> with the same pair of pivot vectors move rows and columns by one map
  \<open>\<sigma>\<close> of \<open>[0, n)\<close> into itself.\<close>

definition sinv_ok ::
  "('m, 'd, 'p, 'v) sinv_env \<Rightarrow> ('m \<Rightarrow> 'a gmat) \<Rightarrow> ('a \<Rightarrow> 'a) \<Rightarrow> ('p \<Rightarrow> 'p \<Rightarrow> int \<Rightarrow> int) \<Rightarrow> int \<Rightarrow> bool" where
  "sinv_ok env gl cf \<sigma> n \<longleftrightarrow>
     (\<forall>A cj. sym_upto n cj cf (gl (si_MakeSymmetric env A cj)))
   \<and> (\<forall>A x y. gl (si_PermuteRows env A x y) = (\<lambda>(i, j). gl A (\<sigma> x y i, j)))
   \<and> (\<forall>A x y. gl (si_PermuteCols env A x y) = (\<lambda>(i, j). gl A (i, \<sigma> x y j)))
   \<and> (\<forall>x y i. 0 \<le> i \<and> i < n \<longrightarrow> 0 \<le> \<sigma> x y i \<and> \<sigma> x y i < n)"

section \<open>Lemmas\<close>

text \<open>Permuting the rows and the columns of a (conjugate-)symmetric matrix by the same
  map of \<open>[0, n)\<close> keeps it (conjugate-)symmetric.\<close>

lemma sym_upto_permute:
  assumes S: "sym_upto n cj cf S" and \<sigma>: "\<And>i. 0 \<le> i \<Longrightarrow> i < n \<Longrightarrow> 0 \<le> \<sigma> i \<and> \<sigma> i < n"
  shows "sym_upto n cj cf (\<lambda>(i, j). S (\<sigma> i, \<sigma> j))"
  unfolding sym_upto_def
proof (intro ballI)
  fix i j assume i: "i \<in> {0..<n}" and j: "j \<in> {0..<n}"
  have "\<sigma> i \<in> {0..<n}" "\<sigma> j \<in> {0..<n}" using \<sigma> i j by auto
  then have "S (\<sigma> i, \<sigma> j) = conj_if cj cf (S (\<sigma> j, \<sigma> i))" using S unfolding sym_upto_def by blast
  then show "(case (i, j) of (i, j) \<Rightarrow> S (\<sigma> i, \<sigma> j))
      = conj_if cj cf (case (j, i) of (i, j) \<Rightarrow> S (\<sigma> i, \<sigma> j))" by simp
qed

lemma sinv_okD:
  assumes "sinv_ok env gl cf \<sigma> n"
  shows "sym_upto n cj cf (gl (si_MakeSymmetric env A cj))"
    and "gl (si_PermuteRows env A x y) = (\<lambda>(i, j). gl A (\<sigma> x y i, j))"
    and "gl (si_PermuteCols env A x y) = (\<lambda>(i, j). gl A (i, \<sigma> x y j))"
    and "0 \<le> i \<Longrightarrow> i < n \<Longrightarrow> 0 \<le> \<sigma> x y i \<and> \<sigma> x y i < n"
  using assms unfolding sinv_ok_def by blast+

lemma SymmetricInverse_lower_sym:
  assumes ok: "sinv_ok env gl cf \<sigma> n"
  shows "sym_upto n conjugate cf (gl (SymmetricInverse_lower env A conjugate pivotType))"
proof -
  obtain A1 dSub pPerm where ldl: "si_LDL env A conjugate pivotType = (A1, dSub, pPerm)"
    by (cases "si_LDL env A conjugate pivotType") auto
  define pInv where "pInv = si_InvertPermutation env pPerm"
  define S where "S = si_MakeSymmetric env (si_Trdtrmm env (si_TriangularInverse env A1) dSub conjugate) conjugate"
  have e: "SymmetricInverse_lower env A conjugate pivotType
      = si_PermuteCols env (si_PermuteRows env S pInv pPerm) pInv pPerm"
    using ldl by (simp add: SymmetricInverse_lower_def Let_def S_def pInv_def)
  have "gl (SymmetricInverse_lower env A conjugate pivotType)
      = (\<lambda>(i, j). gl S (\<sigma> pInv pPerm i, \<sigma> pInv pPerm j))"
    unfolding e sinv_okD(3) [OF ok] sinv_okD(2) [OF ok] by simp
  moreover have "sym_upto n conjugate cf (\<lambda>(i, j). gl S (\<sigma> pInv pPerm i, \<sigma> pInv pPerm j))"
    using sinv_okD(1) [OF ok] sinv_okD(4) [OF ok] unfolding S_def by (rule sym_upto_permute)
  ultimately show ?thesis by simp
qed

text \<open>C30. Each of the three overloads raises the logic error \<open>"This option is not yet
  supported"\<close> exactly when asked for the upper triangle, and then leaves its matrix as
  it was; on the lower triangle none of them raises.\<close>

theorem SymmetricInverse_error_iff:
  "(\<exists>e. SymmetricInverse env uplo A cj piv = Inl (e, A)) = (uplo = UPPER)
   \<and> (\<exists>e. SymmetricInverse_dist denv uplo D cj piv = Inl (e, D)) = (uplo = UPPER)
   \<and> (\<exists>e. LocalSymmetricInverse lenv uplo D cj piv = Inl (e, D)) = (uplo = UPPER)
   \<and> (uplo = UPPER \<longrightarrow> SymmetricInverse env uplo A cj piv
        = Inl (LogicError ''This option is not yet supported'', A))"
  by (cases uplo) (simp_all add: SymmetricInverse_def SymmetricInverse_dist_def LocalSymmetricInverse_def)

text \<open>C31. Under the kernels' contract, the lower-triangle variant of each overload
  returns a matrix whose two triangles agree (its conjugate transpose when
  \<open>conjugate\<close>): symmetry, established by \<open>MakeSymmetric\<close>, is kept by the two
  permutations because both use the same pivot vectors; for \<open>[*,*]\<close> it holds on every
  process's copy.\<close>

theorem SymmetricInverse_symmetric:
  assumes ok: "sinv_ok env gl cf \<sigma> n" and dok: "sinv_ok denv dgl cf \<sigma>' n"
    and lok: "sinv_ok lenv id cf \<sigma>'' n"
  shows "(\<exists>B. SymmetricInverse env LOWER A cj piv = Inr B \<and> sym_upto n cj cf (gl B))
       \<and> (\<exists>B. SymmetricInverse_dist denv LOWER D cj piv = Inr B \<and> sym_upto n cj cf (dgl B))
       \<and> (\<exists>B. LocalSymmetricInverse lenv LOWER E cj piv = Inr B
            \<and> (\<forall>q. sym_upto n cj cf (locals B q)))"
  using SymmetricInverse_lower_sym [OF ok] SymmetricInverse_lower_sym [OF dok]
    SymmetricInverse_lower_sym [OF lok]
  by (simp add: SymmetricInverse_def SymmetricInverse_dist_def LocalSymmetricInverse_def)

end
