(* ===== verification/SkeletonDecomp.thy ===== *)
theory SkeletonDecomp
  imports MC_MR_Trans
begin

text \<open>
  \<open>Skeleton\<close> (\<open>src/src/lapack-like/factor/Skeleton.cpp\<close>): a skeleton (CUR)
  decomposition \<open>A \<approx> A_C Z A_R\<close> by two pivoted QR factorizations and two
  pseudoinverses, for a local and for an \<open>[MC,MR]\<close> matrix. The kernels (\<open>Adjoint\<close>,
  \<open>QR\<close>, \<open>InversePermuteCols\<close>, \<open>Resize\<close>, \<open>Pseudoinverse\<close>, \<open>Gemm\<close>) are not under
  \<open>src/\<close>; they are the fields of \<open>skel_env\<close>, and the development uses only their
  effect on shapes (\<open>skel_ok\<close>): \<open>Gemm\<close> raises unless its operands conform. The
  theory shows that both products of the routine conform, so it never raises, and that
  the middle factor \<open>Z\<close> is square of the rank the first QR chose.
\<close>

section \<open>Definitions\<close>

datatype Orientation = NORMAL | TRANSPOSE | ADJOINT

text \<open>The fields of \<open>QRCtrl\<close> the routine sets; the others travel in the record's
  extension.\<close>

record qr_ctrl =
  qc_adaptive :: bool
  qc_boundRank :: bool
  qc_maxRank :: int

record ('m, 'p, 'x) skel_env =
  sk_shape :: "'m \<Rightarrow> int \<times> int"
  sk_Adjoint :: "'m \<Rightarrow> 'm"
  sk_QR :: "'m \<Rightarrow> 'x qr_ctrl_scheme \<Rightarrow> 'm \<times> 'p \<times> int"
  sk_InversePermuteCols :: "'m \<Rightarrow> 'p \<Rightarrow> 'm"
  sk_Resize :: "'m \<Rightarrow> int \<Rightarrow> int \<Rightarrow> 'm"
  sk_Pseudoinverse :: "'m \<Rightarrow> 'm"
  sk_Gemm :: "Orientation \<Rightarrow> Orientation \<Rightarrow> 'm \<Rightarrow> 'm \<Rightarrow> error + 'm"

text \<open>\<open>Skeleton(A, permR, permC, Z, ctrl)\<close> (lines 21--59): the row pivots from a QR
  of \<open>A'\<close>, \<open>K := A pinv(A_R)\<close>, the column pivots from a QR of \<open>A\<close> forced to the
  same number of steps, and \<open>Z := pinv(A_C) K\<close>. A raising \<open>Gemm\<close> ends the routine.\<close>

definition Skeleton ::
  "('m, 'p, 'x) skel_env \<Rightarrow> 'm \<Rightarrow> 'x qr_ctrl_scheme \<Rightarrow> error + ('p \<times> 'p \<times> 'm)" where
  "Skeleton env A ctrl =
     (let B0 = sk_Adjoint env A;
          (_, permR, numSteps) = sk_QR env B0 ctrl;
          B2 = sk_InversePermuteCols env (sk_Adjoint env A) permR;
          B3 = sk_Resize env B2 (fst (sk_shape env B2)) numSteps;
          B4 = sk_Pseudoinverse env B3
      in case sk_Gemm env NORMAL ADJOINT A B4 of
           Inl e \<Rightarrow> Inl e
         | Inr K \<Rightarrow>
             (let secondCtrl = ctrl\<lparr>qc_adaptive := False, qc_boundRank := True, qc_maxRank := numSteps\<rparr>;
                  (_, permC, _) = sk_QR env A secondCtrl;
                  B6 = sk_InversePermuteCols env A permC;
                  B7 = sk_Resize env B6 (fst (sk_shape env B6)) numSteps;
                  B8 = sk_Pseudoinverse env B7
              in case sk_Gemm env NORMAL NORMAL B8 K of
                   Inl e \<Rightarrow> Inl e
                 | Inr Z \<Rightarrow> Inr (permR, permC, Z)))"

text \<open>The distributed overload (lines 61--101) runs the same sequence over distributed
  kernels, its temporaries \<open>B\<close> and \<open>K\<close> on \<open>A\<close>'s grid and its pivots in
  \<open>[VR,*]\<close>.\<close>

definition Skeleton_dist ::
  "('a DistMatrix, 'p, 'x) skel_env \<Rightarrow> 'a DistMatrix \<Rightarrow> 'x qr_ctrl_scheme
     \<Rightarrow> error + ('p \<times> 'p \<times> 'a DistMatrix)" where
  "Skeleton_dist env A ctrl = Skeleton env A ctrl"

text \<open>The shape of \<open>op(X)\<close>, and when \<open>op_A(X) op_B(Y)\<close> is defined.\<close>

definition op_shape :: "Orientation \<Rightarrow> int \<times> int \<Rightarrow> int \<times> int" where
  "op_shape ori s = (if ori = NORMAL then s else (snd s, fst s))"

definition gemm_conformal :: "Orientation \<Rightarrow> Orientation \<Rightarrow> int \<times> int \<Rightarrow> int \<times> int \<Rightarrow> bool" where
  "gemm_conformal oA oB sA sB \<longleftrightarrow> snd (op_shape oA sA) = fst (op_shape oB sB)"

text \<open>The kernels' contract on shapes. Shapes are nonnegative; \<open>QR\<close> keeps its matrix's shape and takes at most
  as many steps as the smaller dimension.\<close>

definition skel_ok :: "('m, 'p, 'x) skel_env \<Rightarrow> bool" where
  "skel_ok env \<longleftrightarrow>
     (\<forall>A. 0 \<le> fst (sk_shape env A) \<and> 0 \<le> snd (sk_shape env A))
   \<and> (\<forall>A. sk_shape env (sk_Adjoint env A) = (snd (sk_shape env A), fst (sk_shape env A)))
   \<and> (\<forall>B c. 0 \<le> snd (snd (sk_QR env B c))
            \<and> snd (snd (sk_QR env B c)) \<le> min (fst (sk_shape env B)) (snd (sk_shape env B)))
   \<and> (\<forall>B p. sk_shape env (sk_InversePermuteCols env B p) = sk_shape env B)
   \<and> (\<forall>B h w. 0 \<le> h \<and> 0 \<le> w \<longrightarrow> sk_shape env (sk_Resize env B h w) = (h, w))
   \<and> (\<forall>B. sk_shape env (sk_Pseudoinverse env B) = (snd (sk_shape env B), fst (sk_shape env B)))
   \<and> (\<forall>oA oB X Y. gemm_conformal oA oB (sk_shape env X) (sk_shape env Y)
        \<longrightarrow> (\<exists>Z. sk_Gemm env oA oB X Y = Inr Z
               \<and> sk_shape env Z = (fst (op_shape oA (sk_shape env X)), snd (op_shape oB (sk_shape env Y)))))"

section \<open>Lemmas\<close>

lemma skel_okD:
  assumes "skel_ok env"
  shows "0 \<le> fst (sk_shape env A)" "0 \<le> snd (sk_shape env A)"
    and "sk_shape env (sk_Adjoint env A) = (snd (sk_shape env A), fst (sk_shape env A))"
    and "0 \<le> snd (snd (sk_QR env B c))"
    and "snd (snd (sk_QR env B c)) \<le> min (fst (sk_shape env B)) (snd (sk_shape env B))"
    and "sk_shape env (sk_InversePermuteCols env B p) = sk_shape env B"
    and "0 \<le> h \<Longrightarrow> 0 \<le> w \<Longrightarrow> sk_shape env (sk_Resize env B h w) = (h, w)"
    and "sk_shape env (sk_Pseudoinverse env B) = (snd (sk_shape env B), fst (sk_shape env B))"
    and "gemm_conformal oA oB (sk_shape env X) (sk_shape env Y)
         \<Longrightarrow> \<exists>Z. sk_Gemm env oA oB X Y = Inr Z
               \<and> sk_shape env Z = (fst (op_shape oA (sk_shape env X)), snd (op_shape oB (sk_shape env Y)))"
  using assms unfolding skel_ok_def by blast+

text \<open>C32. Under the kernels' contract, \<open>Skeleton\<close> never raises: both products it
  forms conform, whatever rank \<open>k\<close> the first QR chooses, and the middle factor
  \<open>Z\<close> it returns is \<open>k \<times> k\<close> with \<open>0 \<le> k \<le> min(m, n)\<close> for an \<open>m \<times> n\<close> input; the
  distributed overload behaves alike.\<close>

theorem Skeleton_shape:
  fixes env :: "('m, 'p, 'x) skel_env" and A :: 'm and ctrl :: "'x qr_ctrl_scheme"
  assumes ok: "skel_ok env"
  defines "k \<equiv> snd (snd (sk_QR env (sk_Adjoint env A) ctrl))"
  shows "\<exists>permR permC Z. Skeleton env A ctrl = Inr (permR, permC, Z) \<and> sk_shape env Z = (k, k)
           \<and> 0 \<le> k \<and> k \<le> min (fst (sk_shape env A)) (snd (sk_shape env A))"
proof -
  note D = skel_okD [OF ok]
  obtain R0 permR where qr1: "sk_QR env (sk_Adjoint env A) ctrl = (R0, permR, k)"
    unfolding k_def by (cases "sk_QR env (sk_Adjoint env A) ctrl") auto
  define m where "m = fst (sk_shape env A)"
  define n where "n = snd (sk_shape env A)"
  have sA: "sk_shape env A = (m, n)" by (simp add: m_def n_def)
  define B4 where "B4 = sk_Pseudoinverse env (sk_Resize env (sk_InversePermuteCols env (sk_Adjoint env A) permR) n k)"
  have k0: "0 \<le> k" using D(4) [of "sk_Adjoint env A" ctrl] qr1 by simp
  have mn: "0 \<le> m" "0 \<le> n" using D(1,2) [of A] sA by simp_all
  have s4: "sk_shape env B4 = (k, n)" using k0 mn by (simp add: B4_def D sA)
  obtain K where K: "sk_Gemm env NORMAL ADJOINT A B4 = Inr K" "sk_shape env K = (m, k)"
    using D(9) [of NORMAL ADJOINT A B4] sA s4 by (auto simp: gemm_conformal_def op_shape_def)
  define secondCtrl where "secondCtrl = ctrl\<lparr>qc_adaptive := False, qc_boundRank := True, qc_maxRank := k\<rparr>"
  obtain R1 permC s1 where qr2: "sk_QR env A secondCtrl = (R1, permC, s1)" by (cases "sk_QR env A secondCtrl") auto
  define B8 where "B8 = sk_Pseudoinverse env (sk_Resize env (sk_InversePermuteCols env A permC) m k)"
  have s8: "sk_shape env B8 = (k, m)" using k0 mn by (simp add: B8_def D sA)
  obtain Z where Z: "sk_Gemm env NORMAL NORMAL B8 K = Inr Z" "sk_shape env Z = (k, k)"
    using D(9) [of NORMAL NORMAL B8 K] s8 K(2) by (auto simp: gemm_conformal_def op_shape_def)
  have "Skeleton env A ctrl = Inr (permR, permC, Z)"
    using qr1 qr2 K(1) Z(1) sA D(3,6) unfolding Skeleton_def Let_def B4_def [symmetric]
    by (simp add: secondCtrl_def [symmetric] B4_def [symmetric] B8_def [symmetric])
  moreover have "0 \<le> k" "k \<le> min m n" using D(4,5) [of "sk_Adjoint env A" ctrl] qr1 D(3) sA by auto
  ultimately show ?thesis using Z(2) sA by auto
qed

end
