(* ===== verification/CrossGrid.thy ===== *)
theory CrossGrid
  imports MC_MR
begin

text \<open>
  Redistribution of an \<open>[MC,MR]\<close> matrix between two process grids
  (\<open>DM<T>::CopyFromDifferentGrid\<close>, \<open>src/src/core/dist_matrix/mc_mr.cpp\<close>, lines
  1211--1389), and the complete \<open>[MC,MR] = [MC,MR]\<close> operator, which calls it when
  the grids differ (lines 104--186). The protocol runs \<open>numColSends \<times> numRowSends\<close>
  rounds, \<open>numColSends = r / gcd(r, r_A)\<close> on the column axis: in round
  \<open>(colSend, rowSend)\<close> each process of \<open>A\<close>'s grid packs every
  \<open>numColSends\<close>-th local row from \<open>colSend\<close> (every \<open>numRowSends\<close>-th column from
  \<open>rowSend\<close>) and posts one non-blocking send to the process of this grid that owns
  those entries; each process of this grid receives, in order, from every sender whose
  block it owns and unpacks each message at local stride \<open>lcm / r\<close>. The sender's
  destination and the receiver's first sender advance by counters
  (\<open>recvRow += r_A mod r\<close>, \<open>sendRow += r mod r_A\<close>), modelled as the loops' state.

  Processes are named by their rank in their own grid's column-major order; the source
  translates these through a common viewing communicator (\<open>rankMap\<close>,
  \<open>VCToViewingMap\<close>) so that a send and the matching receive name the same pair, and
  the model matches them on those ranks directly. A message is the buffer prefix its
  send posts (\<open>message\<close>); a receive from a process whose message of the current round
  is addressed elsewhere or longer than the receive count does not match, which the
  model makes \<open>None\<close> and the operation \<open>CommError\<close>. The send buffer of a process of
  \<open>A\<close>'s grid lies in the arena of its viewing process, outside this matrix's state: its
  initial contents are a parameter (\<open>sendBuf0\<close>), as is which processes of this grid
  also belong to \<open>A\<close>'s grid (\<open>inAGrid\<close>, which places the receive buffer behind the
  send buffer).
\<close>

section \<open>Definitions\<close>

text \<open>A posted send (lines 1312--1317): destination, count, and the buffer.\<close>

record 'a message =
  msgDest :: int
  msgCount :: int
  msgData :: "'a buf"

text \<open>The function's constants (lines 1221--1243).\<close>

record cfdg =
  cfColStride :: int
  cfRowStride :: int
  cfColStrideA :: int
  cfRowStrideA :: int
  cfColLCM :: int
  cfRowLCM :: int
  cfNumColSends :: int
  cfNumRowSends :: int
  cfLocalColStride :: int
  cfLocalRowStride :: int
  cfColAlign :: int
  cfRowAlign :: int
  cfColAlignA :: int
  cfRowAlignA :: int

text \<open>A loop whose body may fail: the first \<open>None\<close> ends it.\<close>

definition for_loop_opt :: "int \<Rightarrow> (int \<Rightarrow> 's \<Rightarrow> 's option) \<Rightarrow> 's option \<Rightarrow> 's option" where
  "for_loop_opt n body st = for_loop n (\<lambda>i st. Option.bind st (body i)) st"

definition CFDG_consts :: "'a DistMatrix \<Rightarrow> 'a DistMatrix \<Rightarrow> cfdg" where
  "CFDG_consts M A =
     (let colStride = ColStride M; rowStride = RowStride M;
          colStrideA = ColStride A; rowStrideA = RowStride A;
          colGCD = gcd colStride colStrideA; rowGCD = gcd rowStride rowStrideA;
          colLCM = colStride * colStrideA sdiv colGCD; rowLCM = rowStride * rowStrideA sdiv rowGCD;
          numColSends = colStride sdiv colGCD; numRowSends = rowStride sdiv rowGCD
      in \<lparr>cfColStride = colStride, cfRowStride = rowStride, cfColStrideA = colStrideA,
          cfRowStrideA = rowStrideA, cfColLCM = colLCM, cfRowLCM = rowLCM,
          cfNumColSends = numColSends, cfNumRowSends = numRowSends,
          cfLocalColStride = colLCM sdiv colStride, cfLocalRowStride = rowLCM sdiv rowStride,
          cfColAlign = colAlign M, cfRowAlign = rowAlign M, cfColAlignA = colAlign A, cfRowAlignA = rowAlign A\<rparr>)"

text \<open>Lines 1250--1252.\<close>

definition CFDG_maxSendSize :: "cfdg \<Rightarrow> int \<Rightarrow> int \<Rightarrow> int" where
  "CFDG_maxSendSize k m n =
     (m sdiv (cfColStrideA k * cfNumColSends k) + 1) * (n sdiv (cfRowStrideA k * cfNumRowSends k) + 1)"

text \<open>Pack (lines 1299--1310): every \<open>localColStrideA\<close>-th local row from
  \<open>colSend\<close>, every \<open>localRowStrideA\<close>-th column from \<open>rowSend\<close>, column-major.\<close>

definition CFDG_pack :: "int \<Rightarrow> int \<Rightarrow> int \<Rightarrow> int \<Rightarrow> int \<Rightarrow> int \<Rightarrow> 'a lmat \<Rightarrow> 'a buf \<Rightarrow> 'a buf" where
  "CFDG_pack colSend rowSend localColStrideA localRowStrideA sendHeight sendWidth ABuf sendBuf =
     for_loop2 sendWidth sendHeight (\<lambda>iLoc jLoc b.
       b(iLoc + jLoc * sendHeight := ABuf (colSend + iLoc * localColStrideA, rowSend + jLoc * localRowStrideA)))
     sendBuf"

text \<open>One round of a sender (lines 1290--1318 and 1379--1383): pack, post the
  send to \<open>recvRow + recvCol r\<close>, advance \<open>recvCol\<close>.\<close>

definition CFDG_send_round ::
  "cfdg \<Rightarrow> 'a DistMatrix \<Rightarrow> int \<Rightarrow> int \<Rightarrow> int \<Rightarrow> int \<Rightarrow> int \<times> 'a buf \<times> (int \<times> int \<Rightarrow> 'a message)
   \<Rightarrow> int \<times> 'a buf \<times> (int \<times> int \<Rightarrow> 'a message)" where
  "CFDG_send_round k A p colSend recvRow rowSend st =
     (case st of (recvCol, sendBuf, msgs) \<Rightarrow>
        let sendHeight = Length (LocalHeight A p) colSend (cfNumColSends k);
            sendWidth = Length (LocalWidth A p) rowSend (cfNumRowSends k);
            sendBuf' = CFDG_pack colSend rowSend (cfNumColSends k) (cfNumRowSends k)
                         sendHeight sendWidth (locals A p) sendBuf;
            recvVCRank = recvRow + recvCol * cfColStride k
        in ((recvCol + cfRowStrideA k) smod cfRowStride k, sendBuf',
            msgs((colSend, rowSend) := \<lparr>msgDest = recvVCRank, msgCount = sendHeight * sendWidth,
                                        msgData = sendBuf'\<rparr>)))"

text \<open>All the sends of process \<open>p\<close> of \<open>A\<close>'s grid (lines 1280--1290 and
  1385--1386), keyed by round.\<close>

definition CFDG_sends :: "cfdg \<Rightarrow> 'a DistMatrix \<Rightarrow> int \<Rightarrow> 'a buf \<Rightarrow> (int \<times> int \<Rightarrow> 'a message)" where
  "CFDG_sends k A p sendBuf0 =
     (let colRankA = ColRank A p; rowRankA = RowRank A p;
          recvRow0 = (((colRankA + cfColStrideA k - cfColAlignA k) smod cfColStrideA k) + cfColAlign k)
                       smod cfColStride k;
          recvCol0 = (((rowRankA + cfRowStrideA k - cfRowAlignA k) smod cfRowStrideA k) + cfRowAlign k)
                       smod cfRowStride k
      in snd (snd (for_loop (cfNumColSends k) (\<lambda>colSend st.
           case st of (recvRow, sendBuf, msgs) \<Rightarrow>
             (case for_loop (cfNumRowSends k) (CFDG_send_round k A p colSend recvRow) (recvCol0, sendBuf, msgs) of
                (_, sendBuf', msgs') \<Rightarrow> ((recvRow + cfColStrideA k) smod cfColStride k, sendBuf', msgs')))
         (recvRow0, sendBuf0, \<lambda>_. \<lparr>msgDest = -1, msgCount = 0, msgData = sendBuf0\<rparr>))))"

text \<open>\<open>mpi::Recv\<close> from the sender of the current round (lines 1353--1356).\<close>

definition CFDG_Recv :: "'a message \<Rightarrow> int \<Rightarrow> int \<Rightarrow> int \<Rightarrow> 'a buf \<Rightarrow> 'a buf option" where
  "CFDG_Recv m q count base arena =
     (if msgDest m = q \<and> msgCount m \<le> count
      then Some (\<lambda>x. if base \<le> x \<and> x < base + msgCount m then msgData m (x - base) else arena x)
      else None)"

text \<open>Unpack (lines 1358--1370).\<close>

definition CFDG_unpack :: "int \<Rightarrow> int \<Rightarrow> int \<Rightarrow> int \<Rightarrow> int \<Rightarrow> int \<Rightarrow> 'a buf \<Rightarrow> int \<Rightarrow> 'a lmat \<Rightarrow> 'a lmat" where
  "CFDG_unpack localColOffset localRowOffset localColStride localRowStride sendHeight sendWidth recvBuf base buffer =
     for_loop2 sendWidth sendHeight (\<lambda>iLoc jLoc b.
       b((localColOffset + iLoc * localColStride, localRowOffset + jLoc * localRowStride)
           := recvBuf (base + iLoc + jLoc * sendHeight)))
     buffer"

text \<open>One receive of a round (the body of the \<open>rowRecv\<close> loop, lines 1347--1373).\<close>

definition CFDG_recv_one ::
  "cfdg \<Rightarrow> int \<Rightarrow> (int \<Rightarrow> int \<times> int \<Rightarrow> 'a message) \<Rightarrow> int \<Rightarrow> int \<Rightarrow> int \<Rightarrow> int \<Rightarrow> int \<Rightarrow> int
   \<Rightarrow> int \<Rightarrow> int \<Rightarrow> int \<Rightarrow> int \<times> 'a buf \<times> 'a lmat \<Rightarrow> (int \<times> 'a buf \<times> 'a lmat) option" where
  "CFDG_recv_one k n msgs q base rowShift colSend rowSend sendRow sendHeight localColOffset rowRecv st =
     (case st of (sendCol, arena, buffer) \<Rightarrow>
        let sendRowShift = Shift sendCol (cfRowAlignA k) (cfRowStrideA k) + rowSend * cfRowStrideA k;
            sendWidth = Length n sendRowShift (cfRowLCM k);
            localRowOffset = (sendRowShift - rowShift) sdiv cfRowStride k;
            sendVCRank = sendRow + sendCol * cfColStrideA k
        in map_option (\<lambda>arena'. ((sendCol + cfRowStride k) smod cfRowStrideA k, arena',
               CFDG_unpack localColOffset localRowOffset (cfLocalColStride k) (cfLocalRowStride k)
                 sendHeight sendWidth arena' base buffer))
             (CFDG_Recv (msgs sendVCRank (colSend, rowSend)) q (sendHeight * sendWidth) base arena))"

text \<open>The body of the \<open>colRecv\<close> loop (lines 1340--1376).\<close>

definition CFDG_recv_row ::
  "cfdg \<Rightarrow> int \<Rightarrow> int \<Rightarrow> (int \<Rightarrow> int \<times> int \<Rightarrow> 'a message) \<Rightarrow> int \<Rightarrow> int \<Rightarrow> int \<Rightarrow> int \<Rightarrow> int \<Rightarrow> int
   \<Rightarrow> int \<Rightarrow> int \<Rightarrow> int \<Rightarrow> int \<times> 'a buf \<times> 'a lmat \<Rightarrow> (int \<times> 'a buf \<times> 'a lmat) option" where
  "CFDG_recv_row k m n msgs q base colShift rowShift colSend rowSend firstSendCol numRowRecvs colRecv st =
     (case st of (sendRow, arena, buffer) \<Rightarrow>
        let sendColShift = Shift sendRow (cfColAlignA k) (cfColStrideA k) + colSend * cfColStrideA k;
            sendHeight = Length m sendColShift (cfColLCM k);
            localColOffset = (sendColShift - colShift) sdiv cfColStride k
        in map_option (\<lambda>(_, arena', buffer'). ((sendRow + cfColStride k) smod cfColStrideA k, arena', buffer'))
             (for_loop_opt numRowRecvs
                (CFDG_recv_one k n msgs q base rowShift colSend rowSend sendRow sendHeight localColOffset)
                (Some (firstSendCol, arena, buffer))))"

text \<open>A receiver's part of one round (lines 1320--1377).\<close>

definition CFDG_recv_round ::
  "cfdg \<Rightarrow> int \<Rightarrow> int \<Rightarrow> (int \<Rightarrow> int \<times> int \<Rightarrow> 'a message) \<Rightarrow> int \<Rightarrow> int \<Rightarrow> int \<Rightarrow> int \<Rightarrow> int \<Rightarrow> int
   \<Rightarrow> int \<Rightarrow> int \<Rightarrow> 'a buf \<times> 'a lmat \<Rightarrow> ('a buf \<times> 'a lmat) option" where
  "CFDG_recv_round k m n msgs q base colRank rowRank colShift rowShift colSend rowSend st =
     (case st of (arena, buffer) \<Rightarrow>
        let sendColOffset = (colSend * cfColStrideA k + cfColAlignA k) smod cfColStrideA k;
            recvColOffset = (colSend * cfColStrideA k + cfColAlign k) smod cfColStride k;
            sendRowOffset = (rowSend * cfRowStrideA k + cfRowAlignA k) smod cfRowStrideA k;
            recvRowOffset = (rowSend * cfRowStrideA k + cfRowAlign k) smod cfRowStride k;
            firstSendRow = (((colRank + cfColStride k - recvColOffset) smod cfColStride k) + sendColOffset)
                             smod cfColStrideA k;
            firstSendCol = (((rowRank + cfRowStride k - recvRowOffset) smod cfRowStride k) + sendRowOffset)
                             smod cfRowStrideA k;
            colShift' = (colRank + cfColStride k - recvColOffset) smod cfColStride k;
            rowShift' = (rowRank + cfRowStride k - recvRowOffset) smod cfRowStride k;
            numColRecvs = Length (cfColStrideA k) colShift' (cfColStride k);
            numRowRecvs = Length (cfRowStrideA k) rowShift' (cfRowStride k)
        in map_option (\<lambda>(_, arena', buffer'). (arena', buffer'))
             (for_loop_opt numColRecvs
                (CFDG_recv_row k m n msgs q base colShift rowShift colSend rowSend firstSendCol numRowRecvs)
                (Some (firstSendRow, arena, buffer))))"

text \<open>All the rounds of a receiver (the loops of lines 1284 and 1290).\<close>

definition CFDG_recvs ::
  "cfdg \<Rightarrow> int \<Rightarrow> int \<Rightarrow> (int \<Rightarrow> int \<times> int \<Rightarrow> 'a message) \<Rightarrow> int \<Rightarrow> int \<Rightarrow> int \<Rightarrow> int \<Rightarrow> int \<Rightarrow> int
   \<Rightarrow> 'a buf \<times> 'a lmat \<Rightarrow> ('a buf \<times> 'a lmat) option" where
  "CFDG_recvs k m n msgs q base colRank rowRank colShift rowShift st =
     for_loop_opt (cfNumColSends k) (\<lambda>colSend st'.
       for_loop_opt (cfNumRowSends k)
         (CFDG_recv_round k m n msgs q base colRank rowRank colShift rowShift colSend) (Some st'))
     (Some st)"

text \<open>\<open>CopyFromDifferentGrid\<close> (lines 1211--1389): resize, then every process of
  this grid receives all its rounds.\<close>

definition CopyFromDifferentGrid ::
  "'a DistMatrix \<Rightarrow> 'a DistMatrix \<Rightarrow> (int \<Rightarrow> 'a buf) \<Rightarrow> (int \<Rightarrow> bool) \<Rightarrow> 'a DistMatrix exn" where
  "CopyFromDifferentGrid M0 A sendBuf0 inAGrid =
     (let M = Resize (mheight A) (mwidth A) M0;
          k = CFDG_consts M A;
          maxSendSize = CFDG_maxSendSize k (mheight A) (mwidth A);
          msgs = (\<lambda>p. CFDG_sends k A p (sendBuf0 p));
          recvOff = (\<lambda>q. if inAGrid q then maxSendSize else 0);
          M1 = M\<lparr>auxSize := \<lambda>q. max (auxSize M q) (recvOff q + maxSendSize)\<rparr>;
          res = (\<lambda>q. CFDG_recvs k (mheight A) (mwidth A) msgs q (recvOff q) (ColRank M q) (RowRank M q)
                      (ColShift M q) (RowShift M q) (auxMem M1 q, locals M1 q))
      in if \<forall>q\<in>procs (dgrid M). res q \<noteq> None
         then Inr (M1\<lparr>auxMem := \<lambda>q. case res q of Some (arena, _) \<Rightarrow> arena | None \<Rightarrow> auxMem M1 q,
                     locals := \<lambda>q. case res q of Some (_, buffer) \<Rightarrow> buffer | None \<Rightarrow> locals M1 q\<rparr>)
         else Inl (CommError, M1))"

text \<open>\<open>operator=( const DM<T>& A )\<close> (lines 104--186): the same-grid protocols, or
  the cross-grid copy. The test of line 111, \<open>this->Grid() == A.Grid()\<close>, is
  \<open>Grid\<close>'s \<open>operator==\<close>, which compares the two grid objects' addresses; the
  model's grids are values, so the outcome of that comparison is the parameter
  \<open>sameGrid\<close>. Two distinct grid objects of the same shape take the cross-grid path.\<close>

definition MC_MR_assign ::
  "bool \<Rightarrow> 'a DistMatrix \<Rightarrow> 'a DistMatrix \<Rightarrow> (int \<Rightarrow> 'a buf) \<Rightarrow> (int \<Rightarrow> bool) \<Rightarrow> 'a DistMatrix exn" where
  "MC_MR_assign sameGrid M0 A sendBuf0 inAGrid =
     (if sameGrid then MC_MR_same_grid M0 A else CopyFromDifferentGrid M0 A sendBuf0 inAGrid)"

text \<open>Positions \<open>v\<close> overrides on \<open>W\<close>, and the local indices \<open>off + iLoc * str\<close>,
  \<open>0 \<le> iLoc < len\<close>, an unpack writes along one axis.\<close>

definition override :: "('k \<Rightarrow> 'v) \<Rightarrow> 'k set \<Rightarrow> ('k \<Rightarrow> 'v) \<Rightarrow> 'k \<Rightarrow> 'v" where
  "override v W b = (\<lambda>x. if x \<in> W then v x else b x)"

definition Rset :: "int \<Rightarrow> int \<Rightarrow> int \<Rightarrow> int set" where
  "Rset off str len = (\<lambda>iLoc. off + iLoc * str) ` {0..<len}"

section \<open>Loops with an invariant\<close>

lemma for_loop_snoc: "0 \<le> n \<Longrightarrow> for_loop (n + 1) body s = body n (for_loop n body s)"
  by (simp add: for_loop_def upto_rec2)

lemma for_loop_inv:
  assumes "I 0 s0" "\<And>i s. 0 \<le> i \<Longrightarrow> i < n \<Longrightarrow> I i s \<Longrightarrow> I (i + 1) (body i s)" "0 \<le> n"
  shows "I n (for_loop n body s0)"
proof -
  have "j \<le> n \<longrightarrow> I j (for_loop j body s0)" if "0 \<le> j" for j
    using that
  proof (induction j rule: int_ge_induct)
    case base
    then show ?case using assms(1) by simp
  next
    case (step j)
    then show ?case using assms(2) [of j] by (simp add: for_loop_snoc)
  qed
  then show ?thesis using assms(3) by simp
qed

lemma for_loop_opt_inv:
  assumes "I 0 s0" "\<And>i s. 0 \<le> i \<Longrightarrow> i < n \<Longrightarrow> I i s \<Longrightarrow> \<exists>s'. body i s = Some s' \<and> I (i + 1) s'"
    and "0 \<le> n"
  shows "\<exists>s. for_loop_opt n body (Some s0) = Some s \<and> I n s"
proof -
  have "(\<lambda>i st. \<exists>s. st = Some s \<and> I i s) n (for_loop n (\<lambda>i st. Option.bind st (body i)) (Some s0))"
  proof (rule for_loop_inv [where I = "\<lambda>i st. \<exists>s. st = Some s \<and> I i s"])
    fix i st assume "0 \<le> i" "i < n" "\<exists>s. st = Some s \<and> I i s"
    then show "\<exists>s. Option.bind st (body i) = Some s \<and> I (i + 1) s" using assms(2) by fastforce
  qed (use assms in auto)
  then show ?thesis by (simp add: for_loop_opt_def)
qed

text \<open>A counter advanced by \<open>d\<close> modulo \<open>n\<close> at each step, in closed form.\<close>

lemma mod_incr:
  fixes a d n :: int
  assumes "0 < n" "0 \<le> (a + i * d) mod n + d"
  shows "((a + i * d) mod n + d) smod n = (a + (i + 1) * d) mod n"
proof -
  have "((a + i * d) mod n + d) smod n = ((a + i * d) mod n + d) mod n" using assms by simp
  also have "\<dots> = (a + i * d + d) mod n" by (rule mod_add_left_eq)
  also have "\<dots> = (a + (i + 1) * d) mod n" by (simp add: algebra_simps)
  finally show ?thesis .
qed

lemma UN_upto_snoc: "0 \<le> (u::int) \<Longrightarrow> (\<Union>i\<in>{0..<u + 1}. f i) = (\<Union>i\<in>{0..<u}. f i) \<union> f u"
proof -
  assume "0 \<le> u"
  then have "{0..<u + 1} = insert u {0..<u}" by auto
  then show ?thesis by auto
qed

lemma mod0_div_mult: "(N::int) mod s = 0 \<Longrightarrow> N div s * s = N"
  using div_mult_mod_eq [of N s] by simp

lemma override_override: "override v W (override v W' b) = override v (W' \<union> W) b"
  by (auto simp: override_def)

lemma override_empty [simp]: "override v {} b = b"
  by (simp add: override_def)

lemma writes_override: "writes f P v \<Longrightarrow> f b = override v P b"
  by (simp add: writes_def override_def fun_eq_iff)

section \<open>Index arithmetic of one axis\<close>

lemma cfdg_axis_consts:
  fixes s S :: int
  assumes "0 < s" "0 < S"
  shows "0 < s div gcd s S" "s * S div gcd s S = (s div gcd s S) * S"
    "(s * S div gcd s S) div s * s = s * S div gcd s S" "0 < (s * S div gcd s S) div s"
proof -
  define d where "d = gcd s S"
  have d: "0 < d" "d dvd s" "d dvd S" using assms by (auto simp: d_def)
  obtain a where a: "s = d * a" using d(2) by (auto elim: dvdE)
  obtain b where b: "S = d * b" using d(3) by (auto elim: dvdE)
  have a0: "0 < a" using a assms(1) d(1) by (simp add: zero_less_mult_iff)
  have b0: "0 < b" using b assms(2) d(1) by (simp add: zero_less_mult_iff)
  have sd: "s div d = a" using a d(1) by simp
  have sS: "s * S div d = a * S" using a d(1) by (simp add: mult.assoc)
  have L: "a * S div s = b" using a b a0 d(1) by (simp add: mult.commute mult.left_commute)
  show "0 < s div gcd s S" using sd a0 by (simp add: d_def)
  show "s * S div gcd s S = (s div gcd s S) * S" using sd sS by (simp add: d_def)
  have "(s * S div d) div s * s = b * s" using sS L by simp
  also have "\<dots> = a * S" using a b by (simp add: algebra_simps)
  finally show "(s * S div gcd s S) div s * s = s * S div gcd s S" using sS by (simp add: d_def)
  show "0 < (s * S div gcd s S) div s" using sS L b0 by (simp add: d_def [symmetric])
qed

lemma Length_Length:
  fixes S k :: int
  assumes "0 < S" "0 < k" "0 \<le> hA" "0 \<le> c"
  shows "Length (Length m hA S) c k = Length m (hA + c * S) (k * S)"
proof (rule int_eq_by_less)
  fix x :: int assume x: "0 \<le> x"
  have cx: "0 \<le> c + x * k" using x assms by simp
  have "x < Length (Length m hA S) c k \<longleftrightarrow> c + x * k < Length m hA S"
    using assms x by (simp add: Length_iff)
  also have "\<dots> \<longleftrightarrow> hA + (c + x * k) * S < m" using assms cx by (simp add: Length_iff)
  also have "\<dots> \<longleftrightarrow> x < Length m (hA + c * S) (k * S)"
    using assms x by (simp add: Length_iff algebra_simps)
  finally show "x < Length (Length m hA S) c k \<longleftrightarrow> x < Length m (hA + c * S) (k * S)" .
qed (use assms in \<open>simp_all add: Length_nonneg\<close>)

text \<open>The receiver's shift in round \<open>c\<close>: \<open>(x - al - c S) mod s\<close>.\<close>

lemma cfdg_recv_shift:
  fixes s S :: int
  assumes "0 < s" "0 \<le> al" "0 \<le> x" "0 \<le> c" "0 \<le> S"
  shows "(x + s - (c * S + al) smod s) smod s = (x - c * S - al) mod s"
proof -
  have nn: "0 \<le> c * S + al" using assms by simp
  have r: "(c * S + al) mod s < s" using assms by simp
  have p: "0 \<le> x + s - (c * S + al) mod s" using r assms(3) by linarith
  have "(x + s - (c * S + al) smod s) smod s = (x + s - (c * S + al) mod s) mod s"
    using assms nn p by simp
  also have "\<dots> = (x + s - (c * S + al)) mod s" by (simp add: mod_diff_right_eq)
  also have "\<dots> = ((x - c * S - al) + s) mod s" by (simp add: algebra_simps)
  also have "\<dots> = (x - c * S - al) mod s" by (rule mod_add_self2)
  finally show ?thesis .
qed

lemma cfdg_axis_match:
  fixes s S :: int
  assumes s: "0 < s" and S: "0 < S" and al: "0 \<le> al" "al < s" and alA: "0 \<le> alA" "alA < S"
    and x: "0 \<le> x" "x < s" and c: "0 \<le> c"
    and h': "h' = (x - c * S - al) mod s" and t: "0 \<le> t" "t < Length S h' s"
    and a: "a = (h' + alA + t * s) mod S"
  shows "0 \<le> a" "a < S" "Shift a alA S = h' + t * s"
    "((Shift a alA S + al) smod s + c * S) mod s = x"
    "0 \<le> h' + t * s + c * S - (x - al) mod s" "(h' + t * s + c * S - (x - al) mod s) mod s = 0"
proof -
  have h0: "0 \<le> h'" "h' < s" using h' s by simp_all
  have hts: "h' + t * s < S" using t s h0 by (simp add: Length_iff)
  have hts0: "0 \<le> h' + t * s" using h0 t s by simp
  show a0: "0 \<le> a" "a < S" using a S by simp_all
  have "Shift a alA S = (a - alA) mod S" using a0 alA by (simp add: Shift_eq)
  also have "\<dots> = (h' + t * s) mod S" using a by (simp add: mod_diff_left_eq)
  also have "\<dots> = h' + t * s" using hts hts0 by simp
  finally show sh: "Shift a alA S = h' + t * s" .
  have "((Shift a alA S + al) smod s + c * S) mod s = ((h' + t * s + al) mod s + c * S) mod s"
    using sh hts0 al s by simp
  also have "\<dots> = (h' + t * s + al + c * S) mod s" by (rule mod_add_left_eq)
  also have "\<dots> = (h' + al + c * S + t * s) mod s" by (simp add: algebra_simps)
  also have "\<dots> = (h' + al + c * S) mod s" by simp
  also have "\<dots> = ((x - c * S - al) mod s + (al + c * S)) mod s" unfolding h' by (simp add: add.assoc)
  also have "\<dots> = ((x - c * S - al) + (al + c * S)) mod s" by (rule mod_add_left_eq)
  also have "\<dots> = x" using x by simp
  finally show "((Shift a alA S + al) smod s + c * S) mod s = x" .
  have hm: "(x - al) mod s < s" "0 \<le> (x - al) mod s" using s by simp_all
  have "(h' + t * s + c * S - (x - al)) mod s = ((h' + (c * S - (x - al))) + t * s) mod s"
    by (simp add: algebra_simps)
  also have "\<dots> = (h' + (c * S - (x - al))) mod s" by (rule mod_mult_self1)
  also have "\<dots> = ((x - c * S - al) + (c * S - (x - al))) mod s" unfolding h' by (rule mod_add_left_eq)
  also have "\<dots> = 0" by simp
  finally have md0: "(h' + t * s + c * S - (x - al)) mod s = 0" .
  then show md: "(h' + t * s + c * S - (x - al) mod s) mod s = 0" by (simp add: mod_diff_right_eq)
  have "0 \<le> c * S" using c S by simp
  then have D0: "0 \<le> h' + t * s + c * S" using hts0 by simp
  have "(h' + t * s + c * S) mod s = (x - al) mod s"
    using md0 by (simp add: mod_eq_dvd_iff mod_eq_0_iff_dvd)
  moreover have "(h' + t * s + c * S) mod s \<le> h' + t * s + c * S"
    using D0 by (rule zmod_le_nonneg_dividend)
  ultimately show "0 \<le> h' + t * s + c * S - (x - al) mod s" by simp
qed

lemma cfdg_axis_cover:
  fixes s S k L ls :: int
  assumes s: "0 < s" and S: "0 < S" and k: "0 < k" and L: "L = k * S" and ls: "ls * s = L"
    and i: "0 \<le> i" and gi: "(x - al) mod s + i * s < m"
  obtains c t iL where "0 \<le> c" "c < k" "0 \<le> t" "t < Length S ((x - c * S - al) mod s) s"
    "0 \<le> iL" "iL < Length m ((x - c * S - al) mod s + t * s + c * S) L"
    "i = ((x - c * S - al) mod s + t * s + c * S - (x - al) mod s) div s + iL * ls"
proof -
  define h where "h = (x - al) mod s"
  define gi where "gi = h + i * s"
  define hA where "hA = gi mod S"
  define iA where "iA = gi div S"
  define c where "c = iA mod k"
  define iL where "iL = iA div k"
  define h' where "h' = (x - c * S - al) mod s"
  define t where "t = hA div s"
  have h0: "0 \<le> h" using s by (simp add: h_def)
  have gi0: "0 \<le> gi" using h0 i s by (simp add: gi_def)
  have hA0: "0 \<le> hA" "hA < S" using S by (simp_all add: hA_def)
  have iA0: "0 \<le> iA" using gi0 S by (simp add: iA_def pos_imp_zdiv_nonneg_iff)
  have c0: "0 \<le> c" "c < k" using k by (simp_all add: c_def)
  have iL0: "0 \<le> iL" using iA0 k by (simp add: iL_def pos_imp_zdiv_nonneg_iff)
  have iA: "iA = c + iL * k" by (simp add: c_def iL_def)
  have giA: "gi = hA + iA * S" by (simp add: hA_def iA_def)
  have giL: "gi = hA + c * S + iL * L" using giA iA L by (simp add: algebra_simps)
  have "hA mod s = (gi - c * S - iL * ls * s) mod s" using giL ls by (simp add: algebra_simps)
  also have "\<dots> = ((h - c * S) + (i - iL * ls) * s) mod s" by (simp add: gi_def algebra_simps)
  also have "\<dots> = (h - c * S) mod s" by (rule mod_mult_self1)
  also have "\<dots> = (x - al - c * S) mod s" unfolding h_def by (rule mod_diff_left_eq)
  finally have hAm: "hA mod s = h'" by (simp add: h'_def algebra_simps)
  have hA: "hA = h' + t * s" using hAm div_mult_mod_eq [of hA s] by (simp add: t_def algebra_simps)
  have t0: "0 \<le> t" using hA0 s by (simp add: t_def pos_imp_zdiv_nonneg_iff)
  have tl: "t < Length S h' s" using hA hA0 t0 s by (simp add: Length_iff)
  have L0: "0 < L" using L k S by simp
  have iLl: "iL < Length m (h' + t * s + c * S) L"
    using giL hA gi iL0 L0 by (simp add: Length_iff gi_def h_def algebra_simps)
  have "h' + t * s + c * S - h = (i - iL * ls) * s" using giL hA ls by (simp add: gi_def algebra_simps)
  then have "(h' + t * s + c * S - h) div s = i - iL * ls" using s by simp
  then have "i = (h' + t * s + c * S - h) div s + iL * ls" by simp
  then show ?thesis using that [OF c0 t0 _ iL0 _] tl iLl by (simp add: h'_def h_def)
qed

section \<open>Pack and unpack\<close>

lemma CFDG_pack_at:
  assumes "0 \<le> iLoc" "iLoc < sH" "0 \<le> jLoc" "jLoc < sW"
  shows "CFDG_pack c r kc kr sH sW ABuf b (iLoc + jLoc * sH) = ABuf (c + iLoc * kc, r + jLoc * kr)"
proof -
  have "inj_on (\<lambda>(iLoc, jLoc). iLoc + jLoc * sH) ({0..<sH} \<times> {0..<sW})"
    by (auto simp: inj_on_def add.commute [of _ "_ * sH"] colmajor_inj)
  then show ?thesis unfolding CFDG_pack_def using assms
    by (rule for_loop2_upd_at [where pos = "\<lambda>iLoc jLoc. iLoc + jLoc * sH"
        and v = "\<lambda>iLoc jLoc. ABuf (c + iLoc * kc, r + jLoc * kr)"])
qed

lemma CFDG_unpack_override:
  assumes "\<And>iLoc jLoc. 0 \<le> iLoc \<Longrightarrow> iLoc < sH \<Longrightarrow> 0 \<le> jLoc \<Longrightarrow> jLoc < sW
      \<Longrightarrow> buf (base + iLoc + jLoc * sH) = v (lco + iLoc * ls, lro + jLoc * lrs)"
  shows "CFDG_unpack lco lro ls lrs sH sW buf base bf = override v (Rset lco ls sH \<times> Rset lro lrs sW) bf"
proof -
  have "writes (CFDG_unpack lco lro ls lrs sH sW buf base)
      (\<Union>jLoc\<in>{0..<sW}. \<Union>iLoc\<in>{0..<sH}. {(lco + iLoc * ls, lro + jLoc * lrs)}) v"
    unfolding CFDG_unpack_def using assms by (intro writes_for_loop2 writes_upd) simp
  moreover have "(\<Union>jLoc\<in>{0..<sW}. \<Union>iLoc\<in>{0..<sH}. {(lco + iLoc * ls, lro + jLoc * lrs)})
      = Rset lco ls sH \<times> Rset lro lrs sW"
    by (auto simp: Rset_def)
  ultimately show ?thesis by (simp add: writes_override)
qed

section \<open>The sender\<close>

lemma CFDG_send_round_loop:
  fixes k :: cfdg
  assumes cc: "0 < cfRowStride k" and cA: "0 < cfRowStrideA k" and nR: "0 \<le> cfNumRowSends k"
    and rc0: "0 \<le> rc0" "rc0 < cfRowStride k"
  shows "\<exists>rc' sb' ms'. for_loop (cfNumRowSends k) (CFDG_send_round k A p c rr) (rc0, sb, ms) = (rc', sb', ms')
    \<and> (\<forall>key. fst key \<noteq> c \<longrightarrow> ms' key = ms key)
    \<and> (\<forall>r. 0 \<le> r \<longrightarrow> r < cfNumRowSends k \<longrightarrow> (\<exists>b. ms' (c, r) =
         \<lparr>msgDest = rr + ((rc0 + r * cfRowStrideA k) mod cfRowStride k) * cfColStride k,
          msgCount = Length (LocalHeight A p) c (cfNumColSends k) * Length (LocalWidth A p) r (cfNumRowSends k),
          msgData = CFDG_pack c r (cfNumColSends k) (cfNumRowSends k) (Length (LocalHeight A p) c (cfNumColSends k))
                      (Length (LocalWidth A p) r (cfNumRowSends k)) (locals A p) b\<rparr>))"
proof -
  let ?good = "\<lambda>r m. \<exists>b. m =
         \<lparr>msgDest = rr + ((rc0 + r * cfRowStrideA k) mod cfRowStride k) * cfColStride k,
          msgCount = Length (LocalHeight A p) c (cfNumColSends k) * Length (LocalWidth A p) r (cfNumRowSends k),
          msgData = CFDG_pack c r (cfNumColSends k) (cfNumRowSends k) (Length (LocalHeight A p) c (cfNumColSends k))
                      (Length (LocalWidth A p) r (cfNumRowSends k)) (locals A p) b\<rparr>"
  let ?J = "\<lambda>i (rc, sb', ms'). rc = (rc0 + i * cfRowStrideA k) mod cfRowStride k
      \<and> (\<forall>key. fst key \<noteq> c \<longrightarrow> ms' key = ms key) \<and> (\<forall>r. 0 \<le> r \<longrightarrow> r < i \<longrightarrow> ?good r (ms' (c, r)))"
  have step: "?J (i + 1) (CFDG_send_round k A p c rr i st)" if i: "0 \<le> i" and J: "?J i st" for i st
  proof -
    obtain rc sb' ms' where st: "st = (rc, sb', ms')" by (cases st) auto
    have rc: "rc = (rc0 + i * cfRowStrideA k) mod cfRowStride k" using J st by simp
    have rc_nn: "0 \<le> (rc0 + i * cfRowStrideA k) mod cfRowStride k + cfRowStrideA k" using cc cA by simp
    have rc': "(rc + cfRowStrideA k) smod cfRowStride k = (rc0 + (i + 1) * cfRowStrideA k) mod cfRowStride k"
      unfolding rc using cc rc_nn by (rule mod_incr)
    show ?thesis using J st rc' rc by (auto simp: CFDG_send_round_def Let_def)
  qed
  have "?J (cfNumRowSends k) (for_loop (cfNumRowSends k) (CFDG_send_round k A p c rr) (rc0, sb, ms))"
    apply (rule for_loop_inv [where I = ?J])
    subgoal using rc0 by simp
    subgoal for i st using step [of i st] by simp
    subgoal using nR by simp
    done
  then show ?thesis by (auto split: prod.splits)
qed

lemma CFDG_sends_at:
  fixes k :: cfdg
  assumes s: "0 < cfColStride k" "0 < cfRowStride k" "0 < cfColStrideA k" "0 < cfRowStrideA k"
    and n: "0 \<le> cfNumRowSends k"
    and rr0: "rr0 = (((ColRank A p + cfColStrideA k - cfColAlignA k) smod cfColStrideA k) + cfColAlign k)
                      smod cfColStride k" "0 \<le> rr0" "rr0 < cfColStride k"
    and rc0: "rc0 = (((RowRank A p + cfRowStrideA k - cfRowAlignA k) smod cfRowStrideA k) + cfRowAlign k)
                      smod cfRowStride k" "0 \<le> rc0" "rc0 < cfRowStride k"
    and c: "0 \<le> c" "c < cfNumColSends k" and r: "0 \<le> r" "r < cfNumRowSends k"
  shows "\<exists>b. CFDG_sends k A p b0 (c, r) =
         \<lparr>msgDest = (rr0 + c * cfColStrideA k) mod cfColStride k
                     + ((rc0 + r * cfRowStrideA k) mod cfRowStride k) * cfColStride k,
          msgCount = Length (LocalHeight A p) c (cfNumColSends k) * Length (LocalWidth A p) r (cfNumRowSends k),
          msgData = CFDG_pack c r (cfNumColSends k) (cfNumRowSends k) (Length (LocalHeight A p) c (cfNumColSends k))
                      (Length (LocalWidth A p) r (cfNumRowSends k)) (locals A p) b\<rparr>"
proof -
  let ?good = "\<lambda>c r m. \<exists>b. m =
         \<lparr>msgDest = (rr0 + c * cfColStrideA k) mod cfColStride k
                     + ((rc0 + r * cfRowStrideA k) mod cfRowStride k) * cfColStride k,
          msgCount = Length (LocalHeight A p) c (cfNumColSends k) * Length (LocalWidth A p) r (cfNumRowSends k),
          msgData = CFDG_pack c r (cfNumColSends k) (cfNumRowSends k) (Length (LocalHeight A p) c (cfNumColSends k))
                      (Length (LocalWidth A p) r (cfNumRowSends k)) (locals A p) b\<rparr>"
  let ?I = "\<lambda>i (rr, sb, ms). rr = (rr0 + i * cfColStrideA k) mod cfColStride k
      \<and> (\<forall>c' r'. 0 \<le> c' \<longrightarrow> c' < i \<longrightarrow> 0 \<le> r' \<longrightarrow> r' < cfNumRowSends k \<longrightarrow> ?good c' r' (ms (c', r')))"
  let ?body = "\<lambda>colSend st. case st of (recvRow, sendBuf, msgs) \<Rightarrow>
      (case for_loop (cfNumRowSends k) (CFDG_send_round k A p colSend recvRow) (rc0, sendBuf, msgs) of
         (_, sendBuf', msgs') \<Rightarrow> ((recvRow + cfColStrideA k) smod cfColStride k, sendBuf', msgs'))"
  have step: "?I (i + 1) (?body i st)" if i: "0 \<le> i" and I: "?I i st" for i st
  proof -
    obtain rr sb ms where st: "st = (rr, sb, ms)" by (cases st) auto
    have rr: "rr = (rr0 + i * cfColStrideA k) mod cfColStride k" using I st by simp
    obtain rc' sb' ms' where L: "for_loop (cfNumRowSends k) (CFDG_send_round k A p i rr) (rc0, sb, ms) = (rc', sb', ms')"
      and fr: "\<forall>key. fst key \<noteq> i \<longrightarrow> ms' key = ms key"
      and gd: "\<forall>r. 0 \<le> r \<longrightarrow> r < cfNumRowSends k \<longrightarrow> ?good i r (ms' (i, r))"
      using CFDG_send_round_loop [OF s(2) s(4) n rc0(2,3), of A p i rr sb ms] unfolding rr by blast
    have rr_nn: "0 \<le> (rr0 + i * cfColStrideA k) mod cfColStride k + cfColStrideA k" using s by simp
    have rr': "(rr + cfColStrideA k) smod cfColStride k = (rr0 + (i + 1) * cfColStrideA k) mod cfColStride k"
      unfolding rr using s(1) rr_nn by (rule mod_incr)
    have old: "?good c' r' (ms' (c', r'))" if "0 \<le> c'" "c' < i + 1" "0 \<le> r'" "r' < cfNumRowSends k" for c' r'
    proof (cases "c' = i")
      case True
      then show ?thesis using gd that by simp
    next
      case False
      then show ?thesis using fr I st that by auto
    qed
    show ?thesis using st L rr' old by simp
  qed
  have "?I (cfNumColSends k) (for_loop (cfNumColSends k) ?body (rr0, b0, \<lambda>_. \<lparr>msgDest = -1, msgCount = 0, msgData = b0\<rparr>))"
    apply (rule for_loop_inv [where I = ?I])
    subgoal using rr0 by simp
    subgoal for i st using step [of i st] by simp
    subgoal using c by simp
    done
  moreover have "CFDG_sends k A p b0
      = snd (snd (for_loop (cfNumColSends k) ?body (rr0, b0, \<lambda>_. \<lparr>msgDest = -1, msgCount = 0, msgData = b0\<rparr>)))"
    by (simp add: CFDG_sends_def Let_def rr0(1) rc0(1))
  ultimately show ?thesis using c r by (auto split: prod.splits)
qed

section \<open>The receiver\<close>

lemma CFDG_recv_one_ok:
  fixes k :: cfdg
  assumes sRS: "sRS = Shift sendCol (cfRowAlignA k) (cfRowStrideA k) + rowSend * cfRowStrideA k"
    and sW: "sW = Length n sRS (cfRowLCM k)"
    and lro: "lro = (sRS - rowShift) sdiv cfRowStride k"
    and msg: "msgs (sendRow + sendCol * cfColStrideA k) (colSend, rowSend)
                = \<lparr>msgDest = q, msgCount = sH * sW, msgData = D\<rparr>"
    and D: "\<And>iLoc jLoc. 0 \<le> iLoc \<Longrightarrow> iLoc < sH \<Longrightarrow> 0 \<le> jLoc \<Longrightarrow> jLoc < sW
              \<Longrightarrow> D (iLoc + jLoc * sH) = v (lco + iLoc * cfLocalColStride k, lro + jLoc * cfLocalRowStride k)"
  shows "\<exists>arena'. CFDG_recv_one k n msgs q base rowShift colSend rowSend sendRow sH lco rowRecv (sendCol, arena, bf)
           = Some ((sendCol + cfRowStride k) smod cfRowStrideA k, arena',
                   override v (Rset lco (cfLocalColStride k) sH \<times> Rset lro (cfLocalRowStride k) sW) bf)"
proof -
  define arena' where "arena' = (\<lambda>x. if base \<le> x \<and> x < base + sH * sW then D (x - base) else arena x)"
  let ?m = "msgs (sendRow + sendCol * cfColStrideA k) (colSend, rowSend)"
  have md: "msgDest ?m = q" "msgCount ?m = sH * sW" "msgData ?m x = D x" for x using msg by simp_all
  have R: "CFDG_Recv ?m q (sH * sW) base arena = Some arena'" by (simp add: CFDG_Recv_def md arena'_def cong: if_cong)
  have U: "CFDG_unpack lco lro (cfLocalColStride k) (cfLocalRowStride k) sH sW arena' base bf
      = override v (Rset lco (cfLocalColStride k) sH \<times> Rset lro (cfLocalRowStride k) sW) bf"
  proof (rule CFDG_unpack_override)
    fix iLoc jLoc assume ij: "0 \<le> iLoc" "iLoc < sH" "0 \<le> jLoc" "jLoc < sW"
    have "0 \<le> jLoc * sH + iLoc" "jLoc * sH + iLoc < sH * sW" using colmajor_bound [OF ij] by simp_all
    then show "arena' (base + iLoc + jLoc * sH) = v (lco + iLoc * cfLocalColStride k, lro + jLoc * cfLocalRowStride k)"
      using D [OF ij] by (simp add: arena'_def add.commute add.left_commute)
  qed
  show ?thesis using R U
    by (simp add: CFDG_recv_one_def Let_def sRS [symmetric] sW [symmetric] lro [symmetric])
qed

lemma CFDG_recv_row_ok:
  fixes k :: cfdg
  assumes cc: "0 < cfRowStride k" and cA: "0 < cfRowStrideA k" and nRR: "0 \<le> nRR"
    and fsc: "0 \<le> fsc" "fsc < cfRowStrideA k"
    and sH: "sH = Length m (Shift sendRow (cfColAlignA k) (cfColStrideA k) + colSend * cfColStrideA k) (cfColLCM k)"
    and lco: "lco = (Shift sendRow (cfColAlignA k) (cfColStrideA k) + colSend * cfColStrideA k - colShift)
                      sdiv cfColStride k"
    and sRS: "\<And>u. sRSf u = Shift ((fsc + u * cfRowStride k) mod cfRowStrideA k) (cfRowAlignA k) (cfRowStrideA k)
                        + rowSend * cfRowStrideA k"
    and sW: "\<And>u. sWf u = Length n (sRSf u) (cfRowLCM k)"
    and lro: "\<And>u. lrof u = (sRSf u - rowShift) sdiv cfRowStride k"
    and msg: "\<And>u. 0 \<le> u \<Longrightarrow> u < nRR \<Longrightarrow>
       msgs (sendRow + ((fsc + u * cfRowStride k) mod cfRowStrideA k) * cfColStrideA k) (colSend, rowSend)
         = \<lparr>msgDest = q, msgCount = sH * sWf u, msgData = Df u\<rparr>"
    and D: "\<And>u iLoc jLoc. 0 \<le> u \<Longrightarrow> u < nRR \<Longrightarrow> 0 \<le> iLoc \<Longrightarrow> iLoc < sH \<Longrightarrow> 0 \<le> jLoc \<Longrightarrow> jLoc < sWf u
       \<Longrightarrow> Df u (iLoc + jLoc * sH) = v (lco + iLoc * cfLocalColStride k, lrof u + jLoc * cfLocalRowStride k)"
  shows "\<exists>arena'. CFDG_recv_row k m n msgs q base colShift rowShift colSend rowSend fsc nRR colRecv (sendRow, arena, bf)
      = Some ((sendRow + cfColStride k) smod cfColStrideA k, arena',
              override v (Rset lco (cfLocalColStride k) sH \<times> (\<Union>u\<in>{0..<nRR}. Rset (lrof u) (cfLocalRowStride k) (sWf u))) bf)"
proof -
  let ?R = "Rset lco (cfLocalColStride k) sH"
  let ?J = "\<lambda>u (sc, ar, bf'). sc = (fsc + u * cfRowStride k) mod cfRowStrideA k
      \<and> bf' = override v (?R \<times> (\<Union>u'\<in>{0..<u}. Rset (lrof u') (cfLocalRowStride k) (sWf u'))) bf"
  have step: "\<exists>st'. CFDG_recv_one k n msgs q base rowShift colSend rowSend sendRow sH lco u st = Some st' \<and> ?J (u + 1) st'"
    if u: "0 \<le> u" "u < nRR" and J: "?J u st" for u st
  proof -
    obtain sc ar bf' where st: "st = (sc, ar, bf')" by (cases st) auto
    have sc: "sc = (fsc + u * cfRowStride k) mod cfRowStrideA k" using J st by simp
    note t5 = CFDG_recv_one_ok [where msgs = msgs and sendRow = sendRow and colSend = colSend and q = q
        and sH = sH and D = "Df u" and v = v and lco = lco, OF sRS [of u] sW [of u] lro [of u] msg [OF u] D [OF u]]
    obtain ar' where one: "CFDG_recv_one k n msgs q base rowShift colSend rowSend sendRow sH lco u (sc, ar, bf')
        = Some ((sc + cfRowStride k) smod cfRowStrideA k, ar',
                override v (?R \<times> Rset (lrof u) (cfLocalRowStride k) (sWf u)) bf')"
      using t5 unfolding sc by blast
    have sc': "(sc + cfRowStride k) smod cfRowStrideA k = (fsc + (u + 1) * cfRowStride k) mod cfRowStrideA k"
      unfolding sc using cA by (rule mod_incr) (use cc cA in simp)
    have "override v (?R \<times> Rset (lrof u) (cfLocalRowStride k) (sWf u)) bf'
        = override v (?R \<times> (\<Union>u'\<in>{0..<u + 1}. Rset (lrof u') (cfLocalRowStride k) (sWf u'))) bf"
      using J st u(1) by (simp add: override_override UN_upto_snoc Sigma_Un_distrib2)
    then show ?thesis using one sc' st by simp
  qed
  obtain st where L: "for_loop_opt nRR (CFDG_recv_one k n msgs q base rowShift colSend rowSend sendRow sH lco)
      (Some (fsc, arena, bf)) = Some st" and J: "?J nRR st"
    using for_loop_opt_inv [where I = ?J, OF _ step nRR] fsc by fastforce
  obtain sc ar bf' where st: "st = (sc, ar, bf')" by (cases st) auto
  show ?thesis using L J st
    by (simp add: CFDG_recv_row_def Let_def sH [symmetric] lco [symmetric])
qed

lemma CFDG_recv_round_ok:
  fixes k :: cfdg
  assumes s: "0 < cfColStride k" and S: "0 < cfColStrideA k" and cc: "0 < cfRowStride k" and cA: "0 < cfRowStrideA k"
    and fsr: "fsr = (((colRank + cfColStride k - (colSend * cfColStrideA k + cfColAlign k) smod cfColStride k)
                      smod cfColStride k) + (colSend * cfColStrideA k + cfColAlignA k) smod cfColStrideA k)
                    smod cfColStrideA k" "0 \<le> fsr" "fsr < cfColStrideA k"
    and fsc: "fsc = (((rowRank + cfRowStride k - (rowSend * cfRowStrideA k + cfRowAlign k) smod cfRowStride k)
                      smod cfRowStride k) + (rowSend * cfRowStrideA k + cfRowAlignA k) smod cfRowStrideA k)
                    smod cfRowStrideA k" "0 \<le> fsc" "fsc < cfRowStrideA k"
    and nCR: "nCR = Length (cfColStrideA k) ((colRank + cfColStride k - (colSend * cfColStrideA k + cfColAlign k)
                      smod cfColStride k) smod cfColStride k) (cfColStride k)" "0 \<le> nCR"
    and nRR: "nRR = Length (cfRowStrideA k) ((rowRank + cfRowStride k - (rowSend * cfRowStrideA k + cfRowAlign k)
                      smod cfRowStride k) smod cfRowStride k) (cfRowStride k)" "0 \<le> nRR"
    and sH: "\<And>t. sHf t = Length m (Shift ((fsr + t * cfColStride k) mod cfColStrideA k) (cfColAlignA k) (cfColStrideA k)
                        + colSend * cfColStrideA k) (cfColLCM k)"
    and lco: "\<And>t. lcof t = (Shift ((fsr + t * cfColStride k) mod cfColStrideA k) (cfColAlignA k) (cfColStrideA k)
                        + colSend * cfColStrideA k - colShift) sdiv cfColStride k"
    and sRS: "\<And>u. sRSf u = Shift ((fsc + u * cfRowStride k) mod cfRowStrideA k) (cfRowAlignA k) (cfRowStrideA k)
                        + rowSend * cfRowStrideA k"
    and sW: "\<And>u. sWf u = Length n (sRSf u) (cfRowLCM k)"
    and lro: "\<And>u. lrof u = (sRSf u - rowShift) sdiv cfRowStride k"
    and msg: "\<And>t u. 0 \<le> t \<Longrightarrow> t < nCR \<Longrightarrow> 0 \<le> u \<Longrightarrow> u < nRR \<Longrightarrow>
       msgs ((fsr + t * cfColStride k) mod cfColStrideA k + ((fsc + u * cfRowStride k) mod cfRowStrideA k) * cfColStrideA k)
            (colSend, rowSend)
         = \<lparr>msgDest = q, msgCount = sHf t * sWf u, msgData = Df t u\<rparr>"
    and D: "\<And>t u iLoc jLoc. 0 \<le> t \<Longrightarrow> t < nCR \<Longrightarrow> 0 \<le> u \<Longrightarrow> u < nRR \<Longrightarrow> 0 \<le> iLoc \<Longrightarrow> iLoc < sHf t
       \<Longrightarrow> 0 \<le> jLoc \<Longrightarrow> jLoc < sWf u
       \<Longrightarrow> Df t u (iLoc + jLoc * sHf t) = v (lcof t + iLoc * cfLocalColStride k, lrof u + jLoc * cfLocalRowStride k)"
  shows "\<exists>arena'. CFDG_recv_round k m n msgs q base colRank rowRank colShift rowShift colSend rowSend (arena, bf)
      = Some (arena', override v ((\<Union>t\<in>{0..<nCR}. Rset (lcof t) (cfLocalColStride k) (sHf t))
                                  \<times> (\<Union>u\<in>{0..<nRR}. Rset (lrof u) (cfLocalRowStride k) (sWf u))) bf)"
proof -
  let ?C = "\<Union>u\<in>{0..<nRR}. Rset (lrof u) (cfLocalRowStride k) (sWf u)"
  let ?K = "\<lambda>t (sr, ar, bf'). sr = (fsr + t * cfColStride k) mod cfColStrideA k
      \<and> bf' = override v ((\<Union>t'\<in>{0..<t}. Rset (lcof t') (cfLocalColStride k) (sHf t')) \<times> ?C) bf"
  have step: "\<exists>st'. CFDG_recv_row k m n msgs q base colShift rowShift colSend rowSend fsc nRR t st = Some st' \<and> ?K (t + 1) st'"
    if t: "0 \<le> t" "t < nCR" and K: "?K t st" for t st
  proof -
    obtain sr ar bf' where st: "st = (sr, ar, bf')" by (cases st) auto
    have sr: "sr = (fsr + t * cfColStride k) mod cfColStrideA k" using K st by simp
    obtain ar' where row: "CFDG_recv_row k m n msgs q base colShift rowShift colSend rowSend fsc nRR t (sr, ar, bf')
        = Some ((sr + cfColStride k) smod cfColStrideA k, ar',
                override v (Rset (lcof t) (cfLocalColStride k) (sHf t) \<times> ?C) bf')"
      using CFDG_recv_row_ok [where msgs = msgs and sendRow = sr and colSend = colSend and q = q and Df = "Df t"
          and v = v and sH = "sHf t" and lco = "lcof t" and m = m and colShift = colShift,
          OF cc cA nRR(2) fsc(2,3) _ _ sRS sW lro] msg [OF t] D [OF t] sH [of t] lco [of t] unfolding sr by blast
    have sr': "(sr + cfColStride k) smod cfColStrideA k = (fsr + (t + 1) * cfColStride k) mod cfColStrideA k"
      unfolding sr using S by (rule mod_incr) (use s S in simp)
    have "override v (Rset (lcof t) (cfLocalColStride k) (sHf t) \<times> ?C) bf'
        = override v ((\<Union>t'\<in>{0..<t + 1}. Rset (lcof t') (cfLocalColStride k) (sHf t')) \<times> ?C) bf"
      using K st t(1) by (simp add: override_override UN_upto_snoc Sigma_Un_distrib1)
    then show ?thesis using row sr' st by simp
  qed
  obtain st where L: "for_loop_opt nCR (CFDG_recv_row k m n msgs q base colShift rowShift colSend rowSend fsc nRR)
      (Some (fsr, arena, bf)) = Some st" and K: "?K nCR st"
    using for_loop_opt_inv [where I = ?K, OF _ step nCR(2)] fsr(2,3) by fastforce
  obtain sr ar bf' where st: "st = (sr, ar, bf')" by (cases st) auto
  show ?thesis using L K st
    by (simp add: CFDG_recv_round_def Let_def fsr(1) [symmetric] fsc(1) [symmetric] nCR(1) [symmetric]
        nRR(1) [symmetric])
qed

lemma CFDG_recvs_ok:
  fixes k :: cfdg
  assumes nC: "0 \<le> cfNumColSends k" and nR: "0 \<le> cfNumRowSends k"
    and round: "\<And>c r arena bf. 0 \<le> c \<Longrightarrow> c < cfNumColSends k \<Longrightarrow> 0 \<le> r \<Longrightarrow> r < cfNumRowSends k \<Longrightarrow>
       \<exists>arena'. CFDG_recv_round k m n msgs q base colRank rowRank colShift rowShift c r (arena, bf)
         = Some (arena', override v (RU c \<times> CU r) bf)"
  shows "\<exists>arena'. CFDG_recvs k m n msgs q base colRank rowRank colShift rowShift (arena, bf)
      = Some (arena', override v ((\<Union>c\<in>{0..<cfNumColSends k}. RU c) \<times> (\<Union>r\<in>{0..<cfNumRowSends k}. CU r)) bf)"
proof -
  let ?CU = "\<Union>r\<in>{0..<cfNumRowSends k}. CU r"
  let ?I = "\<lambda>c (ar, bf'). bf' = override v ((\<Union>c'\<in>{0..<c}. RU c') \<times> ?CU) bf"
  have inner: "\<exists>st'. for_loop_opt (cfNumRowSends k)
      (CFDG_recv_round k m n msgs q base colRank rowRank colShift rowShift c) (Some st)
      = Some st' \<and> snd st' = override v (RU c \<times> ?CU) (snd st)"
    if c: "0 \<le> c" "c < cfNumColSends k" for c st
  proof -
    let ?J = "\<lambda>r (ar, bf'). bf' = override v (RU c \<times> (\<Union>r'\<in>{0..<r}. CU r')) (snd st)"
    have step: "\<exists>st'. CFDG_recv_round k m n msgs q base colRank rowRank colShift rowShift c r st'' = Some st'
        \<and> ?J (r + 1) st'" if r: "0 \<le> r" "r < cfNumRowSends k" and J: "?J r st''" for r st''
    proof -
      obtain ar bf' where st'': "st'' = (ar, bf')" by (cases st'') auto
      obtain ar' where R: "CFDG_recv_round k m n msgs q base colRank rowRank colShift rowShift c r (ar, bf')
          = Some (ar', override v (RU c \<times> CU r) bf')" using round [OF c r] by blast
      have "override v (RU c \<times> CU r) bf' = override v (RU c \<times> (\<Union>r'\<in>{0..<r + 1}. CU r')) (snd st)"
        using J st'' r(1) by (simp add: override_override UN_upto_snoc Sigma_Un_distrib2)
      then show ?thesis using R st'' by simp
    qed
    obtain st' where "for_loop_opt (cfNumRowSends k) (CFDG_recv_round k m n msgs q base colRank rowRank colShift rowShift c)
        (Some st) = Some st'" "?J (cfNumRowSends k) st'"
      using for_loop_opt_inv [where I = ?J, OF _ step nR] by (cases st) fastforce
    then show ?thesis by (cases st') auto
  qed
  have step: "\<exists>st'. for_loop_opt (cfNumRowSends k)
      (CFDG_recv_round k m n msgs q base colRank rowRank colShift rowShift c) (Some st) = Some st' \<and> ?I (c + 1) st'"
    if c: "0 \<le> c" "c < cfNumColSends k" and I: "?I c st" for c st
  proof -
    obtain st' where L: "for_loop_opt (cfNumRowSends k)
        (CFDG_recv_round k m n msgs q base colRank rowRank colShift rowShift c) (Some st) = Some st'"
      and S: "snd st' = override v (RU c \<times> ?CU) (snd st)" using inner [OF c] by blast
    have "snd st' = override v ((\<Union>c'\<in>{0..<c + 1}. RU c') \<times> ?CU) bf"
      using S I c(1) by (cases st) (simp add: override_override UN_upto_snoc Sigma_Un_distrib1)
    then show ?thesis using L by (cases st') auto
  qed
  obtain st where "for_loop_opt (cfNumColSends k) (\<lambda>c st'. for_loop_opt (cfNumRowSends k)
      (CFDG_recv_round k m n msgs q base colRank rowRank colShift rowShift c) (Some st')) (Some (arena, bf)) = Some st"
    "?I (cfNumColSends k) st"
    using for_loop_opt_inv [where I = ?I, OF _ step nC] by fastforce
  then show ?thesis by (cases st) (auto simp: CFDG_recvs_def)
qed

text \<open>One axis of a round \<open>c\<close>, in the receiver's own expressions: the first sender
  and the number of senders are in range, and the \<open>t\<close>-th sender's block of global
  indices is the receiver's, at local offset \<open>lco\<close> and local stride \<open>ls\<close>.\<close>

lemma cfdg_axis_round:
  fixes s S :: int
  assumes s: "0 < s" and S: "0 < S" and al: "0 \<le> al" "al < s" and alA: "0 \<le> alA" "alA < S"
    and x: "0 \<le> x" "x < s" and c: "0 \<le> c"
  defines "h' \<equiv> (x + s - (c * S + al) smod s) smod s"
  defines "fsr \<equiv> (h' + (c * S + alA) smod S) smod S"
  shows "0 \<le> fsr" "fsr < S" "0 \<le> Length S h' s" "h' = (x - c * S - al) mod s"
    and "\<And>t. 0 \<le> t \<Longrightarrow> t < Length S h' s \<Longrightarrow>
           0 \<le> (fsr + t * s) mod S \<and> (fsr + t * s) mod S < S
         \<and> Shift ((fsr + t * s) mod S) alA S = h' + t * s
         \<and> ((Shift ((fsr + t * s) mod S) alA S + al) smod s + c * S) mod s = x
         \<and> 0 \<le> Shift ((fsr + t * s) mod S) alA S + c * S - (x - al) mod s
         \<and> (Shift ((fsr + t * s) mod S) alA S + c * S - (x - al) mod s) mod s = 0"
proof -
  have hh: "h' = (x - c * S - al) mod s" unfolding h'_def
    by (rule cfdg_recv_shift) (use s al x c S in simp_all)
  then show "h' = (x - c * S - al) mod s" .
  have h0: "0 \<le> h'" using hh s by simp
  have "(c * S + alA) smod S = alA" using c S alA by simp
  then have f: "fsr = (h' + alA) mod S" using h0 alA S by (simp add: fsr_def)
  show "0 \<le> fsr" "fsr < S" using f S by simp_all
  show "0 \<le> Length S h' s" using s by (rule Length_nonneg)
  fix t assume t: "0 \<le> t" "t < Length S h' s"
  have a: "(fsr + t * s) mod S = (h' + alA + t * s) mod S" unfolding f by (simp add: mod_add_left_eq)
  note m = cfdg_axis_match [OF s S al alA x c hh t a]
  show "0 \<le> (fsr + t * s) mod S \<and> (fsr + t * s) mod S < S
         \<and> Shift ((fsr + t * s) mod S) alA S = h' + t * s
         \<and> ((Shift ((fsr + t * s) mod S) alA S + al) smod s + c * S) mod s = x
         \<and> 0 \<le> Shift ((fsr + t * s) mod S) alA S + c * S - (x - al) mod s
         \<and> (Shift ((fsr + t * s) mod S) alA S + c * S - (x - al) mod s) mod s = 0"
    using m by simp
qed

lemma cfdg_axis_covered:
  fixes s S nC L ls :: int
  assumes s: "0 < s" and S: "0 < S" and al: "0 \<le> al" "al < s" and alA: "0 \<le> alA" "alA < S"
    and x: "0 \<le> x" "x < s" and nC: "0 < nC" and L: "L = nC * S" and ls: "ls * s = L"
    and i: "0 \<le> i" "i < Length m ((x - al) mod s) s"
  obtains c t iL where "0 \<le> c" "c < nC" "0 \<le> t"
    "t < Length S ((x + s - (c * S + al) smod s) smod s) s" "0 \<le> iL"
    "iL < Length m (Shift ((((x + s - (c * S + al) smod s) smod s + (c * S + alA) smod S) smod S + t * s) mod S)
                      alA S + c * S) L"
    "i = (Shift ((((x + s - (c * S + al) smod s) smod s + (c * S + alA) smod S) smod S + t * s) mod S) alA S
           + c * S - (x - al) mod s) sdiv s + iL * ls"
proof -
  have gi: "(x - al) mod s + i * s < m" using i s by (simp add: Length_iff)
  obtain c t iL where c: "0 \<le> c" "c < nC" and t: "0 \<le> t" "t < Length S ((x - c * S - al) mod s) s"
    and iL: "0 \<le> iL" "iL < Length m ((x - c * S - al) mod s + t * s + c * S) L"
    and ie: "i = ((x - c * S - al) mod s + t * s + c * S - (x - al) mod s) div s + iL * ls"
    using cfdg_axis_cover [OF s S nC L ls i(1) gi] by blast
  note R = cfdg_axis_round [OF s S al alA x c(1)]
  have h': "(x + s - (c * S + al) smod s) smod s = (x - c * S - al) mod s" using R(4) .
  let ?h = "(x + s - (c * S + al) smod s) smod s"
  let ?a = "((?h + (c * S + alA) smod S) smod S + t * s) mod S"
  have t': "t < Length S ?h s" using t h' by simp
  have Rt: "Shift ?a alA S = ?h + t * s" "0 \<le> Shift ?a alA S + c * S - (x - al) mod s"
    using R(5) [OF t(1) t'] by blast+
  have e: "Shift ?a alA S + c * S = (x - c * S - al) mod s + t * s + c * S" using Rt(1) h' by simp
  show ?thesis
  proof (rule that [OF c t(1) t' iL(1)])
    show "iL < Length m (Shift ?a alA S + c * S) L" using iL(2) e by simp
    show "i = (Shift ?a alA S + c * S - (x - al) mod s) sdiv s + iL * ls"
      using ie e Rt(2) s by simp
  qed
qed

lemma holds_MC_MR_at:
  assumes "is_MC_MR A" "holds A G" "p \<in> procs (dgrid A)"
    "0 \<le> i" "i < LocalHeight A p" "0 \<le> j" "j < LocalWidth A p"
  shows "locals A p (i, j) = G (ColShift A p + i * gheight (dgrid A), RowShift A p + j * gwidth (dgrid A))"
  using assms by (auto simp: holds_def is_MC_MR_def Participating_def ColStride_def RowStride_def)

text \<open>The message sender \<open>p = a + b r_A\<close> of \<open>A\<close>'s grid posts in round \<open>(c, r)\<close>:
  its destination, its size, and its entries, which are the global matrix's entries at
  the global indices \<open>Shift a + c r_A + iLoc L_col\<close> and \<open>Shift b + r c_A + jLoc L_row\<close>.\<close>

lemma CFDG_sends_msg:
  fixes k :: cfdg
  assumes A: "is_MC_MR A" and wfA: "dm_wf A" and hA: "holds A G"
    and kA: "cfColStrideA k = gheight (dgrid A)" "cfRowStrideA k = gwidth (dgrid A)"
      "cfColAlignA k = colAlign A" "cfRowAlignA k = rowAlign A"
    and ks: "0 < cfColStride k" "0 < cfRowStride k" "0 \<le> cfColAlign k" "cfColAlign k < cfColStride k"
      "0 \<le> cfRowAlign k" "cfRowAlign k < cfRowStride k"
    and kn: "0 < cfNumColSends k" "0 < cfNumRowSends k"
      "cfColLCM k = cfNumColSends k * cfColStrideA k" "cfRowLCM k = cfNumRowSends k * cfRowStrideA k"
    and a: "0 \<le> a" "a < cfColStrideA k" and b: "0 \<le> b" "b < cfRowStrideA k"
    and c: "0 \<le> c" "c < cfNumColSends k" and r: "0 \<le> r" "r < cfNumRowSends k"
  defines "sH \<equiv> Length (mheight A) (Shift a (cfColAlignA k) (cfColStrideA k) + c * cfColStrideA k) (cfColLCM k)"
      and "sW \<equiv> Length (mwidth A) (Shift b (cfRowAlignA k) (cfRowStrideA k) + r * cfRowStrideA k) (cfRowLCM k)"
  shows "\<exists>D. CFDG_sends k A (a + b * cfColStrideA k) b0 (c, r)
           = \<lparr>msgDest = ((Shift a (cfColAlignA k) (cfColStrideA k) + cfColAlign k) smod cfColStride k
                          + c * cfColStrideA k) mod cfColStride k
                       + (((Shift b (cfRowAlignA k) (cfRowStrideA k) + cfRowAlign k) smod cfRowStride k
                          + r * cfRowStrideA k) mod cfRowStride k) * cfColStride k,
              msgCount = sH * sW, msgData = D\<rparr>
         \<and> (\<forall>iLoc jLoc. 0 \<le> iLoc \<longrightarrow> iLoc < sH \<longrightarrow> 0 \<le> jLoc \<longrightarrow> jLoc < sW \<longrightarrow>
              D (iLoc + jLoc * sH) = G (Shift a (cfColAlignA k) (cfColStrideA k) + c * cfColStrideA k + iLoc * cfColLCM k,
                                        Shift b (cfRowAlignA k) (cfRowStrideA k) + r * cfRowStrideA k + jLoc * cfRowLCM k))"
proof -
  let ?gA = "dgrid A" let ?S1 = "cfColStrideA k" let ?S2 = "cfRowStrideA k"
  define p where "p = a + b * ?S1"
  have ok: "grid_ok ?gA" using wfA by (simp add: dm_wf_def)
  have a': "0 \<le> a" "a < gheight ?gA" using a kA by simp_all
  have p: "p \<in> procs ?gA" using rowcol_in_procs [OF ok a'] b kA by (simp add: p_def)
  have rk: "ColRank A p = a" "RowRank A p = b"
    using rowcol_vc [OF ok a'] A kA by (simp_all add: p_def ColRank_def RowRank_def is_MC_MR_def)
  have alA: "0 \<le> colAlign A" "colAlign A < gheight ?gA" "0 \<le> rowAlign A" "rowAlign A < gwidth ?gA"
    using wfA A by (simp_all add: dm_wf_def is_MC_MR_def ColStride_def RowStride_def)
  have sh: "ColShift A p = Shift a (cfColAlignA k) ?S1" "RowShift A p = Shift b (cfRowAlignA k) ?S2"
    using A rk kA by (simp_all add: MC_MR_shifts ColRank_def RowRank_def is_MC_MR_def)
  have sh0: "0 \<le> Shift a (cfColAlignA k) ?S1" "0 \<le> Shift b (cfRowAlignA k) ?S2"
    using a b alA kA by (simp_all add: Shift_range)
  have S0: "0 < ?S1" "0 < ?S2" using a b by simp_all
  have lh: "Length (LocalHeight A p) c (cfNumColSends k) = sH" "Length (LocalWidth A p) r (cfNumRowSends k) = sW"
    using A sh sh0 S0 kn c r kA
    by (simp_all add: MC_MR_shifts sH_def sW_def Length_Length)
  define rr0 where "rr0 = (((ColRank A p + ?S1 - cfColAlignA k) smod ?S1) + cfColAlign k) smod cfColStride k"
  define rc0 where "rc0 = (((RowRank A p + ?S2 - cfRowAlignA k) smod ?S2) + cfRowAlign k) smod cfRowStride k"
  have rr: "rr0 = (Shift a (cfColAlignA k) ?S1 + cfColAlign k) smod cfColStride k"
    "rc0 = (Shift b (cfRowAlignA k) ?S2 + cfRowAlign k) smod cfRowStride k"
    by (simp_all add: rr0_def rc0_def rk Shift_def)
  have rr0: "0 \<le> rr0" "rr0 < cfColStride k" "0 \<le> rc0" "rc0 < cfRowStride k"
    using rr sh0 ks by simp_all
  obtain bb where M: "CFDG_sends k A p b0 (c, r) =
         \<lparr>msgDest = (rr0 + c * ?S1) mod cfColStride k + ((rc0 + r * ?S2) mod cfRowStride k) * cfColStride k,
          msgCount = Length (LocalHeight A p) c (cfNumColSends k) * Length (LocalWidth A p) r (cfNumRowSends k),
          msgData = CFDG_pack c r (cfNumColSends k) (cfNumRowSends k) (Length (LocalHeight A p) c (cfNumColSends k))
                      (Length (LocalWidth A p) r (cfNumRowSends k)) (locals A p) bb\<rparr>"
    using CFDG_sends_at [OF ks(1,2) S0 _ rr0_def rr0(1,2) rc0_def rr0(3,4) c r, of b0] kn(2) by auto
  define D where "D = CFDG_pack c r (cfNumColSends k) (cfNumRowSends k) sH sW (locals A p) bb"
  have Dv: "D (iLoc + jLoc * sH) = G (Shift a (cfColAlignA k) ?S1 + c * ?S1 + iLoc * cfColLCM k,
                                      Shift b (cfRowAlignA k) ?S2 + r * ?S2 + jLoc * cfRowLCM k)"
    if ij: "0 \<le> iLoc" "iLoc < sH" "0 \<le> jLoc" "jLoc < sW" for iLoc jLoc
  proof -
    have i': "0 \<le> c + iLoc * cfNumColSends k" "c + iLoc * cfNumColSends k < LocalHeight A p"
      using ij(1,2) lh(1) kn c by (simp_all add: Length_iff [symmetric])
    have j': "0 \<le> r + jLoc * cfNumRowSends k" "r + jLoc * cfNumRowSends k < LocalWidth A p"
      using ij(3,4) lh(2) kn r by (simp_all add: Length_iff [symmetric])
    have "D (iLoc + jLoc * sH) = locals A p (c + iLoc * cfNumColSends k, r + jLoc * cfNumRowSends k)"
      unfolding D_def using ij by (rule CFDG_pack_at)
    also have "\<dots> = G (ColShift A p + (c + iLoc * cfNumColSends k) * gheight ?gA,
                      RowShift A p + (r + jLoc * cfNumRowSends k) * gwidth ?gA)"
      using holds_MC_MR_at [OF A hA p i' j'] .
    finally show ?thesis using sh kA kn by (simp add: algebra_simps)
  qed
  have M': "CFDG_sends k A p b0 (c, r) =
         \<lparr>msgDest = (rr0 + c * ?S1) mod cfColStride k + ((rc0 + r * ?S2) mod cfRowStride k) * cfColStride k,
          msgCount = sH * sW, msgData = D\<rparr>"
    unfolding D_def using M by (simp only: lh)
  show ?thesis unfolding p_def [symmetric] rr [symmetric]
    by (rule exI [of _ D]) (use M' Dv in blast)
qed

lemma CFDG_consts_MC_MR:
  assumes M: "is_MC_MR M" and A: "is_MC_MR A" and wfM: "dm_wf M" and wfA: "dm_wf A"
  defines "k \<equiv> CFDG_consts M A"
  shows "cfColStride k = gheight (dgrid M)" "cfRowStride k = gwidth (dgrid M)"
    "cfColStrideA k = gheight (dgrid A)" "cfRowStrideA k = gwidth (dgrid A)"
    "cfColAlign k = colAlign M" "cfRowAlign k = rowAlign M" "cfColAlignA k = colAlign A" "cfRowAlignA k = rowAlign A"
    "0 < cfColStride k" "0 < cfRowStride k" "0 < cfColStrideA k" "0 < cfRowStrideA k"
    "0 \<le> cfColAlign k" "cfColAlign k < cfColStride k" "0 \<le> cfRowAlign k" "cfRowAlign k < cfRowStride k"
    "0 \<le> cfColAlignA k" "cfColAlignA k < cfColStrideA k" "0 \<le> cfRowAlignA k" "cfRowAlignA k < cfRowStrideA k"
    "0 < cfNumColSends k" "0 < cfNumRowSends k"
    "cfColLCM k = cfNumColSends k * cfColStrideA k" "cfRowLCM k = cfNumRowSends k * cfRowStrideA k"
    "cfLocalColStride k * cfColStride k = cfColLCM k" "cfLocalRowStride k * cfRowStride k = cfRowLCM k"
proof -
  let ?r = "gheight (dgrid M)" let ?c = "gwidth (dgrid M)" let ?rA = "gheight (dgrid A)" let ?cA = "gwidth (dgrid A)"
  have g: "0 < ?r" "0 < ?c" "0 < ?rA" "0 < ?cA" using wfM wfA by (simp_all add: dm_wf_def grid_ok_def)
  have st: "ColStride M = ?r" "RowStride M = ?c" "ColStride A = ?rA" "RowStride A = ?cA"
    using M A by (simp_all add: is_MC_MR_def ColStride_def RowStride_def)
  note cr = cfdg_axis_consts [OF g(1,3)] and cc = cfdg_axis_consts [OF g(2,4)]
  have nn: "0 \<le> ?r * ?rA" "0 \<le> ?c * ?cA" "0 \<le> ?r * ?rA div gcd ?r ?rA" "0 \<le> ?c * ?cA div gcd ?c ?cA"
    using g by (simp_all add: pos_imp_zdiv_nonneg_iff)
  have kk: "k = \<lparr>cfColStride = ?r, cfRowStride = ?c, cfColStrideA = ?rA, cfRowStrideA = ?cA,
      cfColLCM = ?r * ?rA div gcd ?r ?rA, cfRowLCM = ?c * ?cA div gcd ?c ?cA,
      cfNumColSends = ?r div gcd ?r ?rA, cfNumRowSends = ?c div gcd ?c ?cA,
      cfLocalColStride = (?r * ?rA div gcd ?r ?rA) div ?r, cfLocalRowStride = (?c * ?cA div gcd ?c ?cA) div ?c,
      cfColAlign = colAlign M, cfRowAlign = rowAlign M, cfColAlignA = colAlign A, cfRowAlignA = rowAlign A\<rparr>"
    using g nn by (simp add: k_def CFDG_consts_def Let_def st)
  show "cfColStride k = ?r" "cfRowStride k = ?c" "cfColStrideA k = ?rA" "cfRowStrideA k = ?cA"
    "cfColAlign k = colAlign M" "cfRowAlign k = rowAlign M" "cfColAlignA k = colAlign A" "cfRowAlignA k = rowAlign A"
    "0 < cfColStride k" "0 < cfRowStride k" "0 < cfColStrideA k" "0 < cfRowStrideA k"
    using g by (simp_all add: kk)
  show "0 \<le> cfColAlign k" "cfColAlign k < cfColStride k" "0 \<le> cfRowAlign k" "cfRowAlign k < cfRowStride k"
    "0 \<le> cfColAlignA k" "cfColAlignA k < cfColStrideA k" "0 \<le> cfRowAlignA k" "cfRowAlignA k < cfRowStrideA k"
    using wfM wfA st by (simp_all add: kk dm_wf_def)
  show "0 < cfNumColSends k" "0 < cfNumRowSends k"
    "cfColLCM k = cfNumColSends k * cfColStrideA k" "cfRowLCM k = cfNumRowSends k * cfRowStrideA k"
    "cfLocalColStride k * cfColStride k = cfColLCM k" "cfLocalRowStride k * cfRowStride k = cfRowLCM k"
    using cr cc by (simp_all add: kk)
qed

lemma CFDG_recvs_holds:
  assumes M: "is_MC_MR M" and A: "is_MC_MR A" and wfM: "dm_wf M" and wfA: "dm_wf A" and hA: "holds A G"
    and sz: "mheight M = mheight A" "mwidth M = mwidth A" and q: "q \<in> procs (dgrid M)"
  defines "k \<equiv> CFDG_consts M A"
  shows "\<exists>ar bf. CFDG_recvs k (mheight A) (mwidth A) (\<lambda>p. CFDG_sends k A p (sb0 p)) q base
            (ColRank M q) (RowRank M q) (ColShift M q) (RowShift M q) (arena, bf0) = Some (ar, bf)
      \<and> (\<forall>i j. 0 \<le> i \<longrightarrow> i < LocalHeight M q \<longrightarrow> 0 \<le> j \<longrightarrow> j < LocalWidth M q \<longrightarrow>
            bf (i, j) = G (ColShift M q + i * ColStride M, RowShift M q + j * RowStride M))"
proof -
  note kf = CFDG_consts_MC_MR [OF M A wfM wfA, folded k_def]
  let ?s1 = "cfColStride k" let ?s2 = "cfRowStride k" let ?S1 = "cfColStrideA k" let ?S2 = "cfRowStrideA k"
  let ?al1 = "cfColAlign k" let ?al2 = "cfRowAlign k" let ?alA1 = "cfColAlignA k" let ?alA2 = "cfRowAlignA k"
  let ?L1 = "cfColLCM k" let ?L2 = "cfRowLCM k" let ?ls1 = "cfLocalColStride k" let ?ls2 = "cfLocalRowStride k"
  let ?m = "mheight A" let ?n = "mwidth A"
  define msgs where "msgs = (\<lambda>p. CFDG_sends k A p (sb0 p))"
  define x where "x = ColRank M q"
  define y where "y = RowRank M q"
  have ok: "grid_ok (dgrid M)" using wfM by (simp add: dm_wf_def)
  have x: "0 \<le> x" "x < ?s1" and y: "0 \<le> y" "y < ?s2"
    using grow_range [OF ok, of q] gcol_range [OF ok q] M kf
    by (simp_all add: x_def y_def ColRank_def RowRank_def is_MC_MR_def)
  have qxy: "x + y * ?s1 = q" using vc_rowcol [OF ok, of q] M kf by (simp add: x_def y_def ColRank_def RowRank_def is_MC_MR_def)
  define h1 where "h1 = (x - ?al1) mod ?s1"
  define h2 where "h2 = (y - ?al2) mod ?s2"
  have sh: "ColShift M q = h1" "RowShift M q = h2"
    using M kf x y by (simp_all add: MC_MR_shifts h1_def h2_def x_def y_def ColRank_def RowRank_def is_MC_MR_def Shift_eq)
  define v where "v = (\<lambda>(i, j). G (h1 + i * ?s1, h2 + j * ?s2))"
  define hh1 where "hh1 c = (x + ?s1 - (c * ?S1 + ?al1) smod ?s1) smod ?s1" for c
  define fsr where "fsr c = (hh1 c + (c * ?S1 + ?alA1) smod ?S1) smod ?S1" for c
  define a where "a c t = (fsr c + t * ?s1) mod ?S1" for c t
  define sHf where "sHf c t = Length ?m (Shift (a c t) ?alA1 ?S1 + c * ?S1) ?L1" for c t
  define lcof where "lcof c t = (Shift (a c t) ?alA1 ?S1 + c * ?S1 - h1) sdiv ?s1" for c t
  define RU where "RU c = (\<Union>t\<in>{0..<Length ?S1 (hh1 c) ?s1}. Rset (lcof c t) ?ls1 (sHf c t))" for c
  define hh2 where "hh2 r = (y + ?s2 - (r * ?S2 + ?al2) smod ?s2) smod ?s2" for r
  define fsc where "fsc r = (hh2 r + (r * ?S2 + ?alA2) smod ?S2) smod ?S2" for r
  define b where "b r u = (fsc r + u * ?s2) mod ?S2" for r u
  define sRS where "sRS r u = Shift (b r u) ?alA2 ?S2 + r * ?S2" for r u
  define sWf where "sWf r u = Length ?n (sRS r u) ?L2" for r u
  define lrof where "lrof r u = (sRS r u - h2) sdiv ?s2" for r u
  define CU where "CU r = (\<Union>u\<in>{0..<Length ?S2 (hh2 r) ?s2}. Rset (lrof r u) ?ls2 (sWf r u))" for r
  have round: "\<exists>arena'. CFDG_recv_round k ?m ?n msgs q base x y h1 h2 c r (ar, bf)
       = Some (arena', override v (RU c \<times> CU r) bf)"
    if c: "0 \<le> c" "c < cfNumColSends k" and r: "0 \<le> r" "r < cfNumRowSends k" for c r ar bf
  proof -
    note R1 = cfdg_axis_round [OF kf(9,11) kf(13,14) kf(17,18) x c(1), folded hh1_def fsr_def]
    note R2 = cfdg_axis_round [OF kf(10,12) kf(15,16) kf(19,20) y r(1), folded hh2_def fsc_def]
    define Df where "Df t u = msgData (msgs (a c t + b r u * ?S1) (c, r))" for t u
    have mD: "msgs (a c t + b r u * ?S1) (c, r) = \<lparr>msgDest = q, msgCount = sHf c t * sWf r u, msgData = Df t u\<rparr>
        \<and> (\<forall>iLoc jLoc. 0 \<le> iLoc \<longrightarrow> iLoc < sHf c t \<longrightarrow> 0 \<le> jLoc \<longrightarrow> jLoc < sWf r u \<longrightarrow>
             Df t u (iLoc + jLoc * sHf c t) = v (lcof c t + iLoc * ?ls1, lrof r u + jLoc * ?ls2))"
      if t: "0 \<le> t" "t < Length ?S1 (hh1 c) ?s1" and u: "0 \<le> u" "u < Length ?S2 (hh2 r) ?s2" for t u
    proof -
      note T = R1(5) [OF t, folded a_def] and U = R2(5) [OF u, folded b_def]
      have ab: "0 \<le> a c t" "a c t < ?S1" "0 \<le> b r u" "b r u < ?S2" using T U by blast+
      obtain D where md: "msgs (a c t + b r u * ?S1) (c, r)
           = \<lparr>msgDest = ((Shift (a c t) ?alA1 ?S1 + ?al1) smod ?s1 + c * ?S1) mod ?s1
                       + (((Shift (b r u) ?alA2 ?S2 + ?al2) smod ?s2 + r * ?S2) mod ?s2) * ?s1,
              msgCount = sHf c t * sWf r u, msgData = D\<rparr>"
        and Dv: "\<forall>iLoc jLoc. 0 \<le> iLoc \<longrightarrow> iLoc < sHf c t \<longrightarrow> 0 \<le> jLoc \<longrightarrow> jLoc < sWf r u \<longrightarrow>
              D (iLoc + jLoc * sHf c t) = G (Shift (a c t) ?alA1 ?S1 + c * ?S1 + iLoc * ?L1,
                                              Shift (b r u) ?alA2 ?S2 + r * ?S2 + jLoc * ?L2)"
        using CFDG_sends_msg [OF A wfA hA kf(3,4,7,8) kf(9,10,13,14,15,16) kf(21,22,23,24) ab c r, of "sb0 (a c t + b r u * cfColStrideA k)"]
        unfolding msgs_def sHf_def sWf_def sRS_def by blast
      have dest: "((Shift (a c t) ?alA1 ?S1 + ?al1) smod ?s1 + c * ?S1) mod ?s1
                  + (((Shift (b r u) ?alA2 ?S2 + ?al2) smod ?s2 + r * ?S2) mod ?s2) * ?s1 = q"
      proof -
        have dx: "((Shift (a c t) ?alA1 ?S1 + ?al1) smod ?s1 + c * ?S1) mod ?s1 = x" using T by blast
        have dy: "((Shift (b r u) ?alA2 ?S2 + ?al2) smod ?s2 + r * ?S2) mod ?s2 = y" using U by blast
        show ?thesis unfolding dx dy by (rule qxy)
      qed
      have DD: "D = Df t u" using md by (simp add: Df_def)
      have pos: "h1 + (lcof c t + iLoc * ?ls1) * ?s1 = Shift (a c t) ?alA1 ?S1 + c * ?S1 + iLoc * ?L1"
        "h2 + (lrof r u + jLoc * ?ls2) * ?s2 = Shift (b r u) ?alA2 ?S2 + r * ?S2 + jLoc * ?L2" for iLoc jLoc
      proof -
        have "(Shift (a c t) ?alA1 ?S1 + c * ?S1 - h1) mod ?s1 = 0" using T unfolding h1_def x_def by blast
        then have "(Shift (a c t) ?alA1 ?S1 + c * ?S1 - h1) div ?s1 * ?s1 = Shift (a c t) ?alA1 ?S1 + c * ?S1 - h1"
          by (rule mod0_div_mult)
        then show "h1 + (lcof c t + iLoc * ?ls1) * ?s1 = Shift (a c t) ?alA1 ?S1 + c * ?S1 + iLoc * ?L1"
          using T kf(9,25) by (simp add: lcof_def h1_def algebra_simps)
        have "(Shift (b r u) ?alA2 ?S2 + r * ?S2 - h2) mod ?s2 = 0" using U unfolding h2_def y_def by blast
        then have "(Shift (b r u) ?alA2 ?S2 + r * ?S2 - h2) div ?s2 * ?s2 = Shift (b r u) ?alA2 ?S2 + r * ?S2 - h2"
          by (rule mod0_div_mult)
        then show "h2 + (lrof r u + jLoc * ?ls2) * ?s2 = Shift (b r u) ?alA2 ?S2 + r * ?S2 + jLoc * ?L2"
          using U kf(10,26) by (simp add: lrof_def sRS_def h2_def algebra_simps)
      qed
      show ?thesis using md dest Dv pos unfolding DD by (simp add: v_def)
    qed
    have fsr_eq: "fsr c = (((x + ?s1 - (c * ?S1 + ?al1) smod ?s1) smod ?s1) + (c * ?S1 + ?alA1) smod ?S1) smod ?S1"
      by (simp only: fsr_def hh1_def)
    have fsc_eq: "fsc r = (((y + ?s2 - (r * ?S2 + ?al2) smod ?s2) smod ?s2) + (r * ?S2 + ?alA2) smod ?S2) smod ?S2"
      by (simp only: fsc_def hh2_def)
    have nCR_eq: "Length ?S1 (hh1 c) ?s1 = Length ?S1 ((x + ?s1 - (c * ?S1 + ?al1) smod ?s1) smod ?s1) ?s1"
      by (simp only: hh1_def)
    have nRR_eq: "Length ?S2 (hh2 r) ?s2 = Length ?S2 ((y + ?s2 - (r * ?S2 + ?al2) smod ?s2) smod ?s2) ?s2"
      by (simp only: hh2_def)
    have sH_eq: "sHf c t = Length ?m (Shift ((fsr c + t * ?s1) mod ?S1) ?alA1 ?S1 + c * ?S1) ?L1" for t
      by (simp only: sHf_def a_def)
    have lco_eq: "lcof c t = (Shift ((fsr c + t * ?s1) mod ?S1) ?alA1 ?S1 + c * ?S1 - h1) sdiv ?s1" for t
      by (simp only: lcof_def a_def)
    have sRS_eq: "sRS r u = Shift ((fsc r + u * ?s2) mod ?S2) ?alA2 ?S2 + r * ?S2" for u
      by (simp only: sRS_def b_def)
    have sW_eq: "sWf r u = Length ?n (sRS r u) ?L2" for u by (simp only: sWf_def)
    have lro_eq: "lrof r u = (sRS r u - h2) sdiv ?s2" for u by (simp only: lrof_def)
    have msg_eq: "msgs ((fsr c + t * ?s1) mod ?S1 + ((fsc r + u * ?s2) mod ?S2) * ?S1) (c, r)
        = \<lparr>msgDest = q, msgCount = sHf c t * sWf r u, msgData = Df t u\<rparr>"
      if "0 \<le> t" "t < Length ?S1 (hh1 c) ?s1" "0 \<le> u" "u < Length ?S2 (hh2 r) ?s2" for t u
      using mD [OF that] unfolding a_def b_def by blast
    have D_eq: "Df t u (iLoc + jLoc * sHf c t) = v (lcof c t + iLoc * ?ls1, lrof r u + jLoc * ?ls2)"
      if "0 \<le> t" "t < Length ?S1 (hh1 c) ?s1" "0 \<le> u" "u < Length ?S2 (hh2 r) ?s2"
        "0 \<le> iLoc" "iLoc < sHf c t" "0 \<le> jLoc" "jLoc < sWf r u" for t u iLoc jLoc
      using mD [OF that(1-4)] that(5-8) by blast
    show ?thesis unfolding RU_def CU_def
      by (rule CFDG_recv_round_ok [where msgs = msgs and q = q and Df = Df and v = v,
          OF kf(9,11,10,12) fsr_eq R1(1,2) fsc_eq R2(1,2) nCR_eq R1(3) nRR_eq R2(3)
          sH_eq lco_eq sRS_eq sW_eq lro_eq msg_eq D_eq])
  qed
  obtain ar where "CFDG_recvs k ?m ?n msgs q base x y h1 h2 (arena, bf0)
      = Some (ar, override v ((\<Union>c\<in>{0..<cfNumColSends k}. RU c) \<times> (\<Union>r\<in>{0..<cfNumRowSends k}. CU r)) bf0)"
    using CFDG_recvs_ok [where RU = RU and CU = CU and v = v, OF _ _ round] kf(21,22) by fastforce
  moreover have "bf (i, j) = G (ColShift M q + i * ColStride M, RowShift M q + j * RowStride M)"
    if "bf = override v ((\<Union>c\<in>{0..<cfNumColSends k}. RU c) \<times> (\<Union>r\<in>{0..<cfNumRowSends k}. CU r)) bf0"
      and i: "0 \<le> i" "i < LocalHeight M q" and j: "0 \<le> j" "j < LocalWidth M q" for bf i j
  proof -
    have i': "i < Length ?m ((x - ?al1) mod ?s1) ?s1" using i sh sz M kf by (simp add: MC_MR_shifts h1_def)
    obtain c t iL where c: "0 \<le> c" "c < cfNumColSends k" and t: "0 \<le> t"
      "t < Length ?S1 ((x + ?s1 - (c * ?S1 + ?al1) smod ?s1) smod ?s1) ?s1" and iL: "0 \<le> iL"
      "iL < Length ?m (Shift ((((x + ?s1 - (c * ?S1 + ?al1) smod ?s1) smod ?s1 + (c * ?S1 + ?alA1) smod ?S1) smod ?S1
                      + t * ?s1) mod ?S1) ?alA1 ?S1 + c * ?S1) ?L1"
      and ie: "i = (Shift ((((x + ?s1 - (c * ?S1 + ?al1) smod ?s1) smod ?s1 + (c * ?S1 + ?alA1) smod ?S1) smod ?S1
                      + t * ?s1) mod ?S1) ?alA1 ?S1 + c * ?S1 - (x - ?al1) mod ?s1) sdiv ?s1 + iL * ?ls1"
      using cfdg_axis_covered [OF kf(9,11) kf(13,14) kf(17,18) x kf(21) kf(23) kf(25) i(1) i'] by blast
    have "i \<in> Rset (lcof c t) ?ls1 (sHf c t)"
      unfolding Rset_def lcof_def sHf_def a_def fsr_def hh1_def h1_def using iL ie by (intro image_eqI [of _ _ iL]) auto
    then have "i \<in> RU c" unfolding RU_def using t by (intro UN_I [of t]) (simp_all add: hh1_def)
    then have ir: "i \<in> (\<Union>c\<in>{0..<cfNumColSends k}. RU c)" using c by (intro UN_I [of c]) simp_all
    have j': "j < Length ?n ((y - ?al2) mod ?s2) ?s2" using j sh sz M kf by (simp add: MC_MR_shifts h2_def)
    obtain r u jL where r: "0 \<le> r" "r < cfNumRowSends k" and u: "0 \<le> u"
      "u < Length ?S2 ((y + ?s2 - (r * ?S2 + ?al2) smod ?s2) smod ?s2) ?s2" and jL: "0 \<le> jL"
      "jL < Length ?n (Shift ((((y + ?s2 - (r * ?S2 + ?al2) smod ?s2) smod ?s2 + (r * ?S2 + ?alA2) smod ?S2) smod ?S2
                      + u * ?s2) mod ?S2) ?alA2 ?S2 + r * ?S2) ?L2"
      and je: "j = (Shift ((((y + ?s2 - (r * ?S2 + ?al2) smod ?s2) smod ?s2 + (r * ?S2 + ?alA2) smod ?S2) smod ?S2
                      + u * ?s2) mod ?S2) ?alA2 ?S2 + r * ?S2 - (y - ?al2) mod ?s2) sdiv ?s2 + jL * ?ls2"
      using cfdg_axis_covered [OF kf(10,12) kf(15,16) kf(19,20) y kf(22) kf(24) kf(26) j(1) j'] by blast
    have "j \<in> Rset (lrof r u) ?ls2 (sWf r u)"
      unfolding Rset_def lrof_def sWf_def sRS_def b_def fsc_def hh2_def h2_def using jL je
      by (intro image_eqI [of _ _ jL]) auto
    then have "j \<in> CU r" unfolding CU_def using u by (intro UN_I [of u]) (simp_all add: hh2_def)
    then have jr: "j \<in> (\<Union>r\<in>{0..<cfNumRowSends k}. CU r)" using r by (intro UN_I [of r]) simp_all
    show ?thesis using that(1) ir jr sh M kf by (simp add: override_def v_def ColStride_def RowStride_def is_MC_MR_def)
  qed
  ultimately show ?thesis unfolding msgs_def x_def y_def sh by blast
qed

lemma CopyFromDifferentGrid_correct:
  assumes M0: "is_MC_MR M0" and A: "is_MC_MR A" and wf0: "dm_wf M0" and wfA: "dm_wf A" and hA: "holds A G"
  shows "\<exists>M'. CopyFromDifferentGrid M0 A sendBuf0 inAGrid = Inr M' \<and> holds M' G \<and> is_MC_MR M'
           \<and> dgrid M' = dgrid M0 \<and> mheight M' = mheight A \<and> mwidth M' = mwidth A"
proof -
  define M where "M = Resize (mheight A) (mwidth A) M0"
  have nn: "0 \<le> mheight A" "0 \<le> mwidth A" using wfA by (simp_all add: dm_wf_def)
  have M: "is_MC_MR M" "dgrid M = dgrid M0" "mheight M = mheight A" "mwidth M = mwidth A"
    using M0 by (simp_all add: M_def Resize_def is_MC_MR_def)
  have wfM: "dm_wf M" using wf0 nn by (simp add: M_def dm_wf_def Resize_def ColStride_def RowStride_def)
  define k where "k = CFDG_consts M A"
  define maxS where "maxS = CFDG_maxSendSize k (mheight A) (mwidth A)"
  define msgs where "msgs = (\<lambda>p. CFDG_sends k A p (sendBuf0 p))"
  define recvOff where "recvOff = (\<lambda>q. if inAGrid q then maxS else 0)"
  define M1 where "M1 = M\<lparr>auxSize := \<lambda>q. max (auxSize M q) (recvOff q + maxS)\<rparr>"
  define res where "res = (\<lambda>q. CFDG_recvs k (mheight A) (mwidth A) msgs q (recvOff q) (ColRank M q) (RowRank M q)
                      (ColShift M q) (RowShift M q) (auxMem M1 q, locals M1 q))"
  have eq: "CopyFromDifferentGrid M0 A sendBuf0 inAGrid =
     (if \<forall>q\<in>procs (dgrid M). res q \<noteq> None
      then Inr (M1\<lparr>auxMem := \<lambda>q. case res q of Some (arena, _) \<Rightarrow> arena | None \<Rightarrow> auxMem M1 q,
                  locals := \<lambda>q. case res q of Some (_, buffer) \<Rightarrow> buffer | None \<Rightarrow> locals M1 q\<rparr>)
      else Inl (CommError, M1))"
    unfolding res_def M1_def recvOff_def msgs_def maxS_def k_def M_def
    by (simp add: CopyFromDifferentGrid_def Let_def)
  have R: "\<exists>ar bf. res q = Some (ar, bf) \<and> (\<forall>i j. 0 \<le> i \<longrightarrow> i < LocalHeight M q \<longrightarrow> 0 \<le> j \<longrightarrow> j < LocalWidth M q \<longrightarrow>
            bf (i, j) = G (ColShift M q + i * ColStride M, RowShift M q + j * RowStride M))"
    if q: "q \<in> procs (dgrid M)" for q
    using CFDG_recvs_holds [OF M(1) A wfM wfA hA M(3,4) q, of sendBuf0 "recvOff q" "auxMem M1 q" "locals M1 q"]
    unfolding res_def msgs_def k_def .
  define M' where "M' = M1\<lparr>auxMem := \<lambda>q. case res q of Some (arena, _) \<Rightarrow> arena | None \<Rightarrow> auxMem M1 q,
                  locals := \<lambda>q. case res q of Some (_, buffer) \<Rightarrow> buffer | None \<Rightarrow> locals M1 q\<rparr>"
  have ok: "\<forall>q\<in>procs (dgrid M). res q \<noteq> None" using R by fastforce
  have lay: "same_layout (M1\<lparr>auxMem := \<lambda>q. case res q of Some (arena, _) \<Rightarrow> arena | None \<Rightarrow> auxMem M1 q\<rparr>) M"
    by (simp add: same_layout_def M1_def)
  have "holds M' G" unfolding M'_def holds_locals_update [OF lay]
  proof (rule holds_locals_intro)
    fix q i j assume q: "q \<in> procs (dgrid M)" and ij: "0 \<le> i" "i < LocalHeight M q" "0 \<le> j" "j < LocalWidth M q"
    obtain ar bf where "res q = Some (ar, bf)"
      and "\<forall>i j. 0 \<le> i \<longrightarrow> i < LocalHeight M q \<longrightarrow> 0 \<le> j \<longrightarrow> j < LocalWidth M q \<longrightarrow>
            bf (i, j) = G (ColShift M q + i * ColStride M, RowShift M q + j * RowStride M)"
      using R [OF q] by blast
    then show "(case res q of Some (_, buffer) \<Rightarrow> buffer | None \<Rightarrow> locals M1 q) (i, j)
        = G (ColShift M q + i * ColStride M, RowShift M q + j * RowStride M)" using ij by simp
  qed
  moreover have "is_MC_MR M'" "dgrid M' = dgrid M0" "mheight M' = mheight A" "mwidth M' = mwidth A"
    using M by (simp_all add: M'_def M1_def is_MC_MR_def)
  ultimately show ?thesis using eq ok unfolding M'_def by auto
qed

text \<open>C1. The \<open>[MC,MR] = [MC,MR]\<close> operator preserves the logical contents on any
  pair of grids, whether the two grid objects are the same object or not (the same
  object has one shape): it returns normally and every process of the destination's
  grid holds the source's global matrix under the destination's distribution, at the
  source's size. On one grid object this is the local copy or the point-to-point realignment over
  \<open>VCComm\<close>; across grids it is the round protocol of \<open>CopyFromDifferentGrid\<close>, in
  which every receive finds its message and the messages cover every local entry.\<close>

theorem MC_MR_assign_holds:
  assumes M0: "is_MC_MR M0" and A: "is_MC_MR A" and wf0: "dm_wf M0" and wfA: "dm_wf A" and hA: "holds A G"
    and sg: "sameGrid \<longrightarrow> dgrid M0 = dgrid A"
  shows "\<exists>M'. MC_MR_assign sameGrid M0 A sendBuf0 inAGrid = Inr M' \<and> holds M' G \<and> is_MC_MR M'
           \<and> dgrid M' = dgrid M0 \<and> mheight M' = mheight A \<and> mwidth M' = mwidth A"
proof (cases sameGrid)
  case True
  then have "dgrid A = dgrid M0" using sg by simp
  then show ?thesis
    using True MC_MR_same_grid_holds [OF M0 A _ wf0 wfA hA] by (simp add: MC_MR_assign_def)
next
  case False
  then show ?thesis
    using CopyFromDifferentGrid_correct [OF M0 A wf0 wfA hA] by (simp add: MC_MR_assign_def)
qed

end
