(* ===== verification/CrossGridMatch.thy ===== *)
theory CrossGridMatch
  imports CrossGrid
begin

text \<open>
  The matching of sends and receives in \<open>CopyFromDifferentGrid\<close>
  (\<open>src/src/core/dist_matrix/mc_mr.cpp\<close>, lines 1280--1386). Every round
  \<open>(colSend, rowSend)\<close> begins with a non-blocking \<open>mpi::ISend\<close> by each process of
  \<open>A\<close>'s grid and ends with \<open>mpi::Wait\<close> on it (lines 1378--1382), so the round only
  ends if each of those sends is taken by a \<open>mpi::Recv\<close> of the same round. Theory
  \<open>CrossGrid\<close> shows that every receive finds its message; this theory shows the
  converse: the message each process sends in a round is addressed to a process of
  this grid whose receive loop of that round takes it. The lemmas say when a receive,
  a row of receives, a round and all the rounds of a receiver return or fail, and on
  each axis locate a sender in its receiver's loop (\<open>cfdg_axis_sender\<close>).
\<close>

section \<open>The receive's test\<close>

text \<open>The test \<open>mpi::Recv\<close> applies to the message it takes (\<open>CFDG_Recv\<close>): it is
  addressed to the receiver and fits the expected count.\<close>

abbreviation recv_accepts :: "'a message \<Rightarrow> int \<Rightarrow> int \<Rightarrow> bool" where
  "recv_accepts m q cnt \<equiv> msgDest m = q \<and> msgCount m \<le> cnt"

section \<open>Loops that fail\<close>

lemma fold_bind_None: "fold (\<lambda>i st. Option.bind st (f i)) xs None = None"
  by (induction xs) simp_all

lemma for_loop_opt_None [simp]: "for_loop_opt n body None = None"
  by (simp add: for_loop_opt_def for_loop_def fold_bind_None)

lemma for_loop_opt_fail:
  assumes I0: "I 0 s0"
    and step: "\<And>i s. 0 \<le> i \<Longrightarrow> i < j \<Longrightarrow> I i s \<Longrightarrow> \<exists>s'. body i s = Some s' \<and> I (i + 1) s'"
    and fail: "\<And>s. I j s \<Longrightarrow> body j s = None" and j: "0 \<le> j" "j < n"
  shows "for_loop_opt n body (Some s0) = None"
proof -
  have "\<exists>s. for_loop_opt j body (Some s0) = Some s \<and> I j s"
    by (rule for_loop_opt_inv [where I = I]) (use I0 step j(1) in auto)
  then obtain s where s: "for_loop_opt j body (Some s0) = Some s" "I j s" by blast
  have "[0..n - 1] = [0..j - 1] @ j # [j + 1..n - 1]"
    using j upto_split1 [of 0 j "n - 1"] upto_rec1 [of j "n - 1"] by simp
  then have "for_loop_opt n body (Some s0)
      = fold (\<lambda>i st. Option.bind st (body i)) [j + 1..n - 1] (Option.bind (for_loop_opt j body (Some s0)) (body j))"
    by (simp add: for_loop_opt_def for_loop_def)
  then show ?thesis using s fail by (simp add: fold_bind_None)
qed

section \<open>Receives that return or fail\<close>

lemma CFDG_recv_one_Some:
  assumes "msgDest (msgs (sendRow + sendCol * cfColStrideA k) (colSend, rowSend)) = q"
    and "msgCount (msgs (sendRow + sendCol * cfColStrideA k) (colSend, rowSend))
           \<le> sH * Length n (Shift sendCol (cfRowAlignA k) (cfRowStrideA k) + rowSend * cfRowStrideA k) (cfRowLCM k)"
  shows "\<exists>ar bf'. CFDG_recv_one k n msgs q base rowShift colSend rowSend sendRow sH lco rowRecv (sendCol, arena, bf)
           = Some ((sendCol + cfRowStride k) smod cfRowStrideA k, ar, bf')"
  using assms by (simp add: CFDG_recv_one_def CFDG_Recv_def Let_def)

lemma CFDG_recv_one_None:
  assumes "msgDest (msgs (sendRow + sendCol * cfColStrideA k) (colSend, rowSend)) \<noteq> q"
  shows "CFDG_recv_one k n msgs q base rowShift colSend rowSend sendRow sH lco rowRecv (sendCol, arena, bf) = None"
  using assms by (simp add: CFDG_recv_one_def CFDG_Recv_def Let_def)

text \<open>The \<open>u\<close>-th receive of a row, whose sender's message passes the receive's
  test, returns and moves to the next sender column.\<close>

lemma CFDG_recv_one_step:
  fixes k :: cfdg
  assumes cc: "0 < cfRowStride k" and cA: "0 < cfRowStrideA k" and u: "0 \<le> u"
    and sc: "fst st = (fsc + u * cfRowStride k) mod cfRowStrideA k"
    and ok: "msgDest (msgs (sendRow + fst st * cfColStrideA k) (colSend, rowSend)) = q"
      "msgCount (msgs (sendRow + fst st * cfColStrideA k) (colSend, rowSend))
         \<le> sH * Length n (Shift (fst st) (cfRowAlignA k) (cfRowStrideA k) + rowSend * cfRowStrideA k) (cfRowLCM k)"
  shows "\<exists>st'. CFDG_recv_one k n msgs q base rowShift colSend rowSend sendRow sH lco u st = Some st'
           \<and> fst st' = (fsc + (u + 1) * cfRowStride k) mod cfRowStrideA k"
proof -
  obtain c ar bf where st: "st = (c, ar, bf)" by (cases st) auto
  obtain ar' bf' where "CFDG_recv_one k n msgs q base rowShift colSend rowSend sendRow sH lco u (c, ar, bf)
      = Some ((c + cfRowStride k) smod cfRowStrideA k, ar', bf')"
    using CFDG_recv_one_Some [where msgs = msgs and sendRow = sendRow and sendCol = c and k = k
        and colSend = colSend and rowSend = rowSend and base = base and rowShift = rowShift
        and lco = lco and rowRecv = u and arena = ar and bf = bf, OF ok [unfolded st fst_conv]] by blast
  moreover have "(c + cfRowStride k) smod cfRowStrideA k = (fsc + (u + 1) * cfRowStride k) mod cfRowStrideA k"
  proof -
    have "c = (fsc + u * cfRowStride k) mod cfRowStrideA k" using sc st by simp
    moreover have "0 \<le> (fsc + u * cfRowStride k) mod cfRowStrideA k + cfRowStride k" using cc cA by simp
    ultimately show ?thesis using mod_incr [OF cA] by simp
  qed
  ultimately show ?thesis using st by auto
qed

text \<open>A row of receives returns when every message it takes passes the receive's test
  (\<open>recv_accepts\<close>, for the \<open>u\<close>-th sender column), and fails when one of them is
  not addressed to the receiver and all those before it pass.\<close>

lemma CFDG_recv_row_Some:
  fixes k :: cfdg
  assumes cc: "0 < cfRowStride k" and cA: "0 < cfRowStrideA k" and nRR: "0 \<le> nRR"
    and sH: "sH = Length m (Shift sendRow (cfColAlignA k) (cfColStrideA k) + colSend * cfColStrideA k) (cfColLCM k)"
    and ok: "\<And>u. 0 \<le> u \<Longrightarrow> u < nRR \<Longrightarrow>
       recv_accepts (msgs (sendRow + ((fsc + u * cfRowStride k) mod cfRowStrideA k) * cfColStrideA k) (colSend, rowSend)) q
         (sH * Length n (Shift ((fsc + u * cfRowStride k) mod cfRowStrideA k) (cfRowAlignA k) (cfRowStrideA k)
                           + rowSend * cfRowStrideA k) (cfRowLCM k))"
    and fsc: "0 \<le> fsc" "fsc < cfRowStrideA k"
  shows "\<exists>ar bf'. CFDG_recv_row k m n msgs q base colShift rowShift colSend rowSend fsc nRR colRecv (sendRow, arena, bf)
           = Some ((sendRow + cfColStride k) smod cfColStrideA k, ar, bf')"
proof -
  let ?lco = "(Shift sendRow (cfColAlignA k) (cfColStrideA k) + colSend * cfColStrideA k - colShift) sdiv cfColStride k"
  let ?J = "\<lambda>u st. fst st = (fsc + u * cfRowStride k) mod cfRowStrideA k"
  have step: "\<exists>st'. CFDG_recv_one k n msgs q base rowShift colSend rowSend sendRow sH ?lco u st = Some st' \<and> ?J (u + 1) st'"
    if u: "0 \<le> u" "u < nRR" and J: "?J u st" for u st
    using CFDG_recv_one_step [OF cc cA u(1) J] ok [OF u] J by simp
  obtain st where "for_loop_opt nRR (CFDG_recv_one k n msgs q base rowShift colSend rowSend sendRow sH ?lco)
      (Some (fsc, arena, bf)) = Some st"
    using for_loop_opt_inv [where I = ?J
        and body = "CFDG_recv_one k n msgs q base rowShift colSend rowSend sendRow sH ?lco", OF _ step nRR] fsc
    by fastforce
  then show ?thesis by (cases st) (simp add: CFDG_recv_row_def Let_def sH [symmetric])
qed

lemma CFDG_recv_row_None:
  fixes k :: cfdg
  assumes cc: "0 < cfRowStride k" and cA: "0 < cfRowStrideA k" and u0: "0 \<le> u0" "u0 < nRR"
    and sH: "sH = Length m (Shift sendRow (cfColAlignA k) (cfColStrideA k) + colSend * cfColStrideA k) (cfColLCM k)"
    and ok: "\<And>u. 0 \<le> u \<Longrightarrow> u < u0 \<Longrightarrow>
       recv_accepts (msgs (sendRow + ((fsc + u * cfRowStride k) mod cfRowStrideA k) * cfColStrideA k) (colSend, rowSend)) q
         (sH * Length n (Shift ((fsc + u * cfRowStride k) mod cfRowStrideA k) (cfRowAlignA k) (cfRowStrideA k)
                           + rowSend * cfRowStrideA k) (cfRowLCM k))"
    and bad: "msgDest (msgs (sendRow + ((fsc + u0 * cfRowStride k) mod cfRowStrideA k) * cfColStrideA k) (colSend, rowSend)) \<noteq> q"
    and fsc: "0 \<le> fsc" "fsc < cfRowStrideA k"
  shows "CFDG_recv_row k m n msgs q base colShift rowShift colSend rowSend fsc nRR colRecv (sendRow, arena, bf) = None"
proof -
  let ?lco = "(Shift sendRow (cfColAlignA k) (cfColStrideA k) + colSend * cfColStrideA k - colShift) sdiv cfColStride k"
  let ?J = "\<lambda>u st. fst st = (fsc + u * cfRowStride k) mod cfRowStrideA k"
  have step: "\<exists>st'. CFDG_recv_one k n msgs q base rowShift colSend rowSend sendRow sH ?lco u st = Some st' \<and> ?J (u + 1) st'"
    if u: "0 \<le> u" "u < u0" and J: "?J u st" for u st
    using CFDG_recv_one_step [OF cc cA u(1) J] ok [OF u] J by simp
  have fail: "CFDG_recv_one k n msgs q base rowShift colSend rowSend sendRow sH ?lco u0 st = None" if J: "?J u0 st" for st
    using CFDG_recv_one_None [where msgs = msgs and sendRow = sendRow and sendCol = "fst st", OF bad [folded J]]
    by (cases st) simp
  have "for_loop_opt nRR (CFDG_recv_one k n msgs q base rowShift colSend rowSend sendRow sH ?lco)
      (Some (fsc, arena, bf)) = None"
    by (rule for_loop_opt_fail [where I = ?J
        and body = "CFDG_recv_one k n msgs q base rowShift colSend rowSend sendRow sH ?lco", OF _ step fail u0])
      (use fsc in simp)
  then show ?thesis by (simp add: CFDG_recv_row_def Let_def sH [symmetric])
qed

lemma CFDG_recv_row_step:
  fixes k :: cfdg
  assumes s: "0 < cfColStride k" and S: "0 < cfColStrideA k" and cc: "0 < cfRowStride k" and cA: "0 < cfRowStrideA k"
    and nRR: "0 \<le> nRR" and fsc: "0 \<le> fsc" "fsc < cfRowStrideA k" and t: "0 \<le> t"
    and sr: "fst st = (fsr + t * cfColStride k) mod cfColStrideA k"
    and ok: "\<And>u. 0 \<le> u \<Longrightarrow> u < nRR \<Longrightarrow>
       recv_accepts (msgs (fst st + ((fsc + u * cfRowStride k) mod cfRowStrideA k) * cfColStrideA k) (colSend, rowSend)) q
         (Length m (Shift (fst st) (cfColAlignA k) (cfColStrideA k) + colSend * cfColStrideA k) (cfColLCM k)
          * Length n (Shift ((fsc + u * cfRowStride k) mod cfRowStrideA k) (cfRowAlignA k) (cfRowStrideA k)
                      + rowSend * cfRowStrideA k) (cfRowLCM k))"
  shows "\<exists>st'. CFDG_recv_row k m n msgs q base colShift rowShift colSend rowSend fsc nRR t st = Some st'
           \<and> fst st' = (fsr + (t + 1) * cfColStride k) mod cfColStrideA k"
proof -
  obtain r ar bf where st: "st = (r, ar, bf)" by (cases st) auto
  have okr: "\<And>u. 0 \<le> u \<Longrightarrow> u < nRR \<Longrightarrow>
     recv_accepts (msgs (r + ((fsc + u * cfRowStride k) mod cfRowStrideA k) * cfColStrideA k) (colSend, rowSend)) q
       (Length m (Shift r (cfColAlignA k) (cfColStrideA k) + colSend * cfColStrideA k) (cfColLCM k)
        * Length n (Shift ((fsc + u * cfRowStride k) mod cfRowStrideA k) (cfRowAlignA k) (cfRowStrideA k)
                    + rowSend * cfRowStrideA k) (cfRowLCM k))"
    using ok st by simp
  obtain ar' bf' where "CFDG_recv_row k m n msgs q base colShift rowShift colSend rowSend fsc nRR t (r, ar, bf)
      = Some ((r + cfColStride k) smod cfColStrideA k, ar', bf')"
    using CFDG_recv_row_Some [where msgs = msgs and sendRow = r and colRecv = t and arena = ar and bf = bf
        and base = base and colShift = colShift and rowShift = rowShift, OF cc cA nRR refl okr fsc] by blast
  moreover have "(r + cfColStride k) smod cfColStrideA k = (fsr + (t + 1) * cfColStride k) mod cfColStrideA k"
  proof -
    have "r = (fsr + t * cfColStride k) mod cfColStrideA k" using sr st by simp
    moreover have "0 \<le> (fsr + t * cfColStride k) mod cfColStrideA k + cfColStride k" using s S by simp
    ultimately show ?thesis using mod_incr [OF S] by simp
  qed
  ultimately show ?thesis using st by auto
qed

text \<open>A receiver's round returns when every message it takes passes the receive's test,
  and fails when the message of one sender \<open>(t0, u0)\<close> of its loops does not.\<close>

lemma CFDG_recv_round_Some:
  fixes k :: cfdg
  assumes s: "0 < cfColStride k" and S: "0 < cfColStrideA k" and cc: "0 < cfRowStride k" and cA: "0 < cfRowStrideA k"
    and fsr: "fsr = (((colRank + cfColStride k - (colSend * cfColStrideA k + cfColAlign k) smod cfColStride k)
                      smod cfColStride k) + (colSend * cfColStrideA k + cfColAlignA k) smod cfColStrideA k)
                    smod cfColStrideA k" "0 \<le> fsr" "fsr < cfColStrideA k"
    and fsc: "fsc = (((rowRank + cfRowStride k - (rowSend * cfRowStrideA k + cfRowAlign k) smod cfRowStride k)
                      smod cfRowStride k) + (rowSend * cfRowStrideA k + cfRowAlignA k) smod cfRowStrideA k)
                    smod cfRowStrideA k" "0 \<le> fsc" "fsc < cfRowStrideA k"
    and nCR: "nCR = Length (cfColStrideA k) ((colRank + cfColStride k - (colSend * cfColStrideA k + cfColAlign k)
                      smod cfColStride k) smod cfColStride k) (cfColStride k)" "0 \<le> nCR"
    and nRR: "nRR = Length (cfRowStrideA k) ((rowRank + cfRowStride k - (rowSend * cfRowStrideA k + cfRowAlign k)
                      smod cfRowStride k) smod cfRowStride k) (cfRowStride k)" "0 \<le> nRR"
    and ok: "\<And>t u. 0 \<le> t \<Longrightarrow> t < nCR \<Longrightarrow> 0 \<le> u \<Longrightarrow> u < nRR \<Longrightarrow>
       recv_accepts (msgs ((fsr + t * cfColStride k) mod cfColStrideA k
                          + ((fsc + u * cfRowStride k) mod cfRowStrideA k) * cfColStrideA k) (colSend, rowSend)) q
         (Length m (Shift ((fsr + t * cfColStride k) mod cfColStrideA k) (cfColAlignA k) (cfColStrideA k)
                    + colSend * cfColStrideA k) (cfColLCM k)
          * Length n (Shift ((fsc + u * cfRowStride k) mod cfRowStrideA k) (cfRowAlignA k) (cfRowStrideA k)
                      + rowSend * cfRowStrideA k) (cfRowLCM k))"
  shows "\<exists>st'. CFDG_recv_round k m n msgs q base colRank rowRank colShift rowShift colSend rowSend st = Some st'"
proof -
  let ?K = "\<lambda>t st. fst st = (fsr + t * cfColStride k) mod cfColStrideA k"
  let ?body = "CFDG_recv_row k m n msgs q base colShift rowShift colSend rowSend fsc nRR"
  have step: "\<exists>st'. ?body t st = Some st' \<and> ?K (t + 1) st'" if t: "0 \<le> t" "t < nCR" and K: "?K t st" for t st
    by (rule CFDG_recv_row_step [OF s S cc cA nRR(2) fsc(2,3) t(1) K]) (use ok [OF t] K in simp)
  have "\<exists>st'. for_loop_opt nCR ?body (Some (fsr, fst st, snd st)) = Some st' \<and> ?K nCR st'"
  proof (rule for_loop_opt_inv [where I = ?K])
    show "?K 0 (fsr, fst st, snd st)" using fsr(2,3) by simp
    show "0 \<le> nCR" by (rule nCR(2))
  next
    fix i :: int and st' :: "int \<times> 'a buf \<times> 'a lmat" assume "0 \<le> i" "i < nCR" "?K i st'"
    then show "\<exists>s'. ?body i st' = Some s' \<and> ?K (i + 1) s'" by (rule step)
  qed
  then obtain st' where "for_loop_opt nCR ?body (Some (fsr, fst st, snd st)) = Some st'" by blast
  then show ?thesis
    by (cases st) (auto simp: CFDG_recv_round_def Let_def fsr(1) [symmetric] fsc(1) [symmetric] nCR(1) [symmetric]
        nRR(1) [symmetric])
qed

lemma CFDG_recv_round_None:
  fixes k :: cfdg
  assumes s: "0 < cfColStride k" and S: "0 < cfColStrideA k" and cc: "0 < cfRowStride k" and cA: "0 < cfRowStrideA k"
    and fsr: "fsr = (((colRank + cfColStride k - (colSend * cfColStrideA k + cfColAlign k) smod cfColStride k)
                      smod cfColStride k) + (colSend * cfColStrideA k + cfColAlignA k) smod cfColStrideA k)
                    smod cfColStrideA k" "0 \<le> fsr" "fsr < cfColStrideA k"
    and fsc: "fsc = (((rowRank + cfRowStride k - (rowSend * cfRowStrideA k + cfRowAlign k) smod cfRowStride k)
                      smod cfRowStride k) + (rowSend * cfRowStrideA k + cfRowAlignA k) smod cfRowStrideA k)
                    smod cfRowStrideA k" "0 \<le> fsc" "fsc < cfRowStrideA k"
    and nCR: "nCR = Length (cfColStrideA k) ((colRank + cfColStride k - (colSend * cfColStrideA k + cfColAlign k)
                      smod cfColStride k) smod cfColStride k) (cfColStride k)" "0 \<le> nCR"
    and nRR: "nRR = Length (cfRowStrideA k) ((rowRank + cfRowStride k - (rowSend * cfRowStrideA k + cfRowAlign k)
                      smod cfRowStride k) smod cfRowStride k) (cfRowStride k)" "0 \<le> nRR"
    and t0: "0 \<le> t0" "t0 < nCR" and u0: "0 \<le> u0" "u0 < nRR"
    and ok: "\<And>t u. 0 \<le> t \<Longrightarrow> t < nCR \<Longrightarrow> 0 \<le> u \<Longrightarrow> u < nRR \<Longrightarrow> (t, u) \<noteq> (t0, u0) \<Longrightarrow>
       recv_accepts (msgs ((fsr + t * cfColStride k) mod cfColStrideA k
                          + ((fsc + u * cfRowStride k) mod cfRowStrideA k) * cfColStrideA k) (colSend, rowSend)) q
         (Length m (Shift ((fsr + t * cfColStride k) mod cfColStrideA k) (cfColAlignA k) (cfColStrideA k)
                    + colSend * cfColStrideA k) (cfColLCM k)
          * Length n (Shift ((fsc + u * cfRowStride k) mod cfRowStrideA k) (cfRowAlignA k) (cfRowStrideA k)
                      + rowSend * cfRowStrideA k) (cfRowLCM k))"
    and bad: "msgDest (msgs ((fsr + t0 * cfColStride k) mod cfColStrideA k
                          + ((fsc + u0 * cfRowStride k) mod cfRowStrideA k) * cfColStrideA k) (colSend, rowSend)) \<noteq> q"
  shows "CFDG_recv_round k m n msgs q base colRank rowRank colShift rowShift colSend rowSend st = None"
proof -
  let ?K = "\<lambda>t st. fst st = (fsr + t * cfColStride k) mod cfColStrideA k"
  let ?body = "CFDG_recv_row k m n msgs q base colShift rowShift colSend rowSend fsc nRR"
  have step: "\<exists>st'. ?body t st = Some st' \<and> ?K (t + 1) st'" if t: "0 \<le> t" "t < t0" and K: "?K t st" for t st
  proof (rule CFDG_recv_row_step [OF s S cc cA nRR(2) fsc(2,3) t(1) K])
    fix u assume u: "0 \<le> u" "u < nRR"
    have "(t, u) \<noteq> (t0, u0)" using t by simp
    then show "recv_accepts (msgs (fst st + ((fsc + u * cfRowStride k) mod cfRowStrideA k) * cfColStrideA k)
        (colSend, rowSend)) q
       (Length m (Shift (fst st) (cfColAlignA k) (cfColStrideA k) + colSend * cfColStrideA k) (cfColLCM k)
        * Length n (Shift ((fsc + u * cfRowStride k) mod cfRowStrideA k) (cfRowAlignA k) (cfRowStrideA k)
                    + rowSend * cfRowStrideA k) (cfRowLCM k))"
      using ok [OF t(1) _ u] t0 t K by simp
  qed
  have fail: "?body t0 st = None" if K: "?K t0 st" for st
  proof -
    obtain r ar bf where st: "st = (r, ar, bf)" by (cases st) auto
    have r: "r = (fsr + t0 * cfColStride k) mod cfColStrideA k" using K st by simp
    have okr: "\<And>u. 0 \<le> u \<Longrightarrow> u < u0 \<Longrightarrow>
       recv_accepts (msgs (r + ((fsc + u * cfRowStride k) mod cfRowStrideA k) * cfColStrideA k) (colSend, rowSend)) q
         (Length m (Shift r (cfColAlignA k) (cfColStrideA k) + colSend * cfColStrideA k) (cfColLCM k)
          * Length n (Shift ((fsc + u * cfRowStride k) mod cfRowStrideA k) (cfRowAlignA k) (cfRowStrideA k)
                      + rowSend * cfRowStrideA k) (cfRowLCM k))"
      using ok [OF t0] u0 unfolding r by simp
    show ?thesis unfolding st
      by (rule CFDG_recv_row_None [where msgs = msgs and sendRow = r, OF cc cA u0 refl okr _ fsc(2,3)])
        (simp, simp, unfold r, rule bad)
  qed
  have "for_loop_opt nCR ?body (Some (fsr, fst st, snd st)) = None"
    by (rule for_loop_opt_fail [where I = ?K and body = ?body, OF _ step fail t0]) (use fsr in simp)
  then show ?thesis
    by (cases st) (simp add: CFDG_recv_round_def Let_def fsr(1) [symmetric] fsc(1) [symmetric] nCR(1) [symmetric]
        nRR(1) [symmetric])
qed

text \<open>All the rounds of a receiver return when each round does, and fail when one
  round fails and all the others return.\<close>

lemma CFDG_recvs_Some:
  fixes k :: cfdg
  assumes nC: "0 \<le> cfNumColSends k" and nR: "0 \<le> cfNumRowSends k"
    and round: "\<And>c r st. 0 \<le> c \<Longrightarrow> c < cfNumColSends k \<Longrightarrow> 0 \<le> r \<Longrightarrow> r < cfNumRowSends k \<Longrightarrow>
       \<exists>st'. CFDG_recv_round k m n msgs q base colRank rowRank colShift rowShift c r st = Some st'"
  shows "\<exists>st'. CFDG_recvs k m n msgs q base colRank rowRank colShift rowShift st = Some st'"
proof -
  have inner: "\<exists>st'. for_loop_opt (cfNumRowSends k) (CFDG_recv_round k m n msgs q base colRank rowRank colShift rowShift c)
      (Some st) = Some st' \<and> True" if c: "0 \<le> c" "c < cfNumColSends k" for c st
    by (rule for_loop_opt_inv [where I = "\<lambda>_ _. True"]) (use round [OF c] nR in auto)
  show ?thesis unfolding CFDG_recvs_def
    using for_loop_opt_inv [where I = "\<lambda>_ _. True", OF _ inner nC] by auto
qed

lemma CFDG_recvs_None:
  fixes k :: cfdg
  assumes c0: "0 \<le> c0" "c0 < cfNumColSends k" and r0: "0 \<le> r0" "r0 < cfNumRowSends k"
    and round: "\<And>c r st. 0 \<le> c \<Longrightarrow> c < cfNumColSends k \<Longrightarrow> 0 \<le> r \<Longrightarrow> r < cfNumRowSends k \<Longrightarrow> (c, r) \<noteq> (c0, r0)
       \<Longrightarrow> \<exists>st'. CFDG_recv_round k m n msgs q base colRank rowRank colShift rowShift c r st = Some st'"
    and bad: "\<And>st. CFDG_recv_round k m n msgs q base colRank rowRank colShift rowShift c0 r0 st = None"
  shows "CFDG_recvs k m n msgs q base colRank rowRank colShift rowShift st = None"
proof -
  let ?R = "CFDG_recv_round k m n msgs q base colRank rowRank colShift rowShift"
  have inner: "\<exists>st'. for_loop_opt (cfNumRowSends k) (?R c) (Some st) = Some st' \<and> True"
    if c: "0 \<le> c" "c < c0" for c st
    by (rule for_loop_opt_inv [where I = "\<lambda>_ _. True"]) (use round [OF c(1)] c c0 r0 in auto)
  have fail: "for_loop_opt (cfNumRowSends k) (?R c0) (Some st) = None" for st
    by (rule for_loop_opt_fail [where I = "\<lambda>_ _. True" and j = r0]) (use round [OF c0] bad r0 in auto)
  show ?thesis unfolding CFDG_recvs_def
    by (rule for_loop_opt_fail [where I = "\<lambda>_ _. True" and j = c0]) (use inner fail c0 in auto)
qed

section \<open>Senders in their receivers' loops\<close>

text \<open>One axis of a round \<open>c\<close>, from the sender's side: the process \<open>a\<close> of the
  source's axis sends to \<open>x\<close>, and \<open>x\<close>'s loop over its senders in that round meets
  \<open>a\<close> exactly once, at its \<open>t\<close>-th step.\<close>

lemma cfdg_axis_sender:
  fixes s S :: int
  assumes s: "0 < s" and S: "0 < S" and al: "0 \<le> al" "al < s" and alA: "0 \<le> alA" "alA < S"
    and c: "0 \<le> c" and a: "0 \<le> a" "a < S"
    and x: "x = ((Shift a alA S + al) smod s + c * S) mod s"
  defines "h' \<equiv> (x + s - (c * S + al) smod s) smod s"
  defines "fsr \<equiv> (h' + (c * S + alA) smod S) smod S"
  shows "0 \<le> x" "x < s"
    and "\<exists>t. 0 \<le> t \<and> t < Length S h' s \<and> (fsr + t * s) mod S = a
           \<and> (\<forall>t'. 0 \<le> t' \<longrightarrow> t' < Length S h' s \<longrightarrow> (fsr + t' * s) mod S = a \<longrightarrow> t' = t)"
proof -
  show x0: "0 \<le> x" "x < s" using x s by simp_all
  note R = cfdg_axis_round [OF s S al alA x0 c, folded h'_def fsr_def]
  define u where "u = Shift a alA S"
  have u: "0 \<le> u" "u < S" using Shift_range [OF a(1) alA] by (simp_all add: u_def)
  have "x = (u + al + c * S) mod s" using x u al s by (simp add: u_def mod_add_left_eq)
  then have "h' = ((u + al + c * S) mod s - (c * S + al)) mod s" using R(4) by (simp add: algebra_simps)
  also have "\<dots> = (u + al + c * S - (c * S + al)) mod s" by (rule mod_diff_left_eq)
  finally have h: "h' = u mod s" by simp
  define t where "t = u div s"
  have ht: "h' + t * s = u" by (simp add: h t_def)
  have t: "0 \<le> t" "t < Length S h' s" using u s ht by (simp_all add: t_def Length_iff pos_imp_zdiv_nonneg_iff)
  have at: "Shift ((fsr + t' * s) mod S) alA S = h' + t' * s" "0 \<le> (fsr + t' * s) mod S" "(fsr + t' * s) mod S < S"
    if "0 \<le> t'" "t' < Length S h' s" for t'
    using R(5) [OF that] by simp_all
  have "(fsr + t * s) mod S = a"
  proof -
    have "Shift ((fsr + t * s) mod S) alA S = u" using at(1) [OF t] ht by simp
    then have "(fsr + t * s) mod S = (u + alA) mod S" using Shift_iff [OF at(2,3) [OF t] alA] by simp
    moreover have "a = (u + alA) mod S" using Shift_iff [OF a alA, of u] u by (simp add: u_def)
    ultimately show ?thesis by simp
  qed
  moreover have "t' = t" if t': "0 \<le> t'" "t' < Length S h' s" "(fsr + t' * s) mod S = a" for t'
  proof -
    have "h' + t' * s = u" using at(1) [OF t'(1,2)] t'(3) by (simp add: u_def)
    then have "t' * s = t * s" using ht by linarith
    then show ?thesis using s by simp
  qed
  ultimately show "\<exists>t. 0 \<le> t \<and> t < Length S h' s \<and> (fsr + t * s) mod S = a
           \<and> (\<forall>t'. 0 \<le> t' \<longrightarrow> t' < Length S h' s \<longrightarrow> (fsr + t' * s) mod S = a \<longrightarrow> t' = t)"
    using t by blast
qed

text \<open>The destination and size of the message the process \<open>a + b S\<close> of \<open>A\<close>'s grid
  sends in round \<open>(c, r)\<close> (its contents apart).\<close>

lemma CFDG_sends_hdr:
  fixes k :: cfdg
  assumes A: "is_MC_MR A" and wfA: "dm_wf A"
    and kA: "cfColStrideA k = gheight (dgrid A)" "cfRowStrideA k = gwidth (dgrid A)"
      "cfColAlignA k = colAlign A" "cfRowAlignA k = rowAlign A"
    and ks: "0 < cfColStride k" "0 < cfRowStride k" "0 \<le> cfColAlign k" "cfColAlign k < cfColStride k"
      "0 \<le> cfRowAlign k" "cfRowAlign k < cfRowStride k"
    and kn: "0 < cfNumColSends k" "0 < cfNumRowSends k"
      "cfColLCM k = cfNumColSends k * cfColStrideA k" "cfRowLCM k = cfNumRowSends k * cfRowStrideA k"
    and a: "0 \<le> a" "a < cfColStrideA k" and b: "0 \<le> b" "b < cfRowStrideA k"
    and c: "0 \<le> c" "c < cfNumColSends k" and r: "0 \<le> r" "r < cfNumRowSends k"
  shows "msgDest (CFDG_sends k A (a + b * cfColStrideA k) b0 (c, r))
           = ((Shift a (cfColAlignA k) (cfColStrideA k) + cfColAlign k) smod cfColStride k
                + c * cfColStrideA k) mod cfColStride k
             + (((Shift b (cfRowAlignA k) (cfRowStrideA k) + cfRowAlign k) smod cfRowStride k
                + r * cfRowStrideA k) mod cfRowStride k) * cfColStride k"
    and "msgCount (CFDG_sends k A (a + b * cfColStrideA k) b0 (c, r))
           = Length (mheight A) (Shift a (cfColAlignA k) (cfColStrideA k) + c * cfColStrideA k) (cfColLCM k)
             * Length (mwidth A) (Shift b (cfRowAlignA k) (cfRowStrideA k) + r * cfRowStrideA k) (cfRowLCM k)"
proof -
  let ?gA = "dgrid A" let ?S1 = "cfColStrideA k" let ?S2 = "cfRowStrideA k"
  define p where "p = a + b * ?S1"
  have ok: "grid_ok ?gA" using wfA by (simp add: dm_wf_def)
  have a': "0 \<le> a" "a < gheight ?gA" using a kA by simp_all
  have rk: "ColRank A p = a" "RowRank A p = b"
    using rowcol_vc [OF ok a'] A kA by (simp_all add: p_def ColRank_def RowRank_def is_MC_MR_def)
  have alA: "0 \<le> colAlign A" "colAlign A < gheight ?gA" "0 \<le> rowAlign A" "rowAlign A < gwidth ?gA"
    using wfA A by (simp_all add: dm_wf_def is_MC_MR_def ColStride_def RowStride_def)
  have sh: "ColShift A p = Shift a (cfColAlignA k) ?S1" "RowShift A p = Shift b (cfRowAlignA k) ?S2"
    using A rk kA by (simp_all add: MC_MR_shifts ColRank_def RowRank_def is_MC_MR_def)
  have sh0: "0 \<le> Shift a (cfColAlignA k) ?S1" "0 \<le> Shift b (cfRowAlignA k) ?S2"
    using a b alA kA by (simp_all add: Shift_range)
  have S0: "0 < ?S1" "0 < ?S2" using a b by simp_all
  have lh: "Length (LocalHeight A p) c (cfNumColSends k)
              = Length (mheight A) (Shift a (cfColAlignA k) ?S1 + c * ?S1) (cfColLCM k)"
    "Length (LocalWidth A p) r (cfNumRowSends k)
              = Length (mwidth A) (Shift b (cfRowAlignA k) ?S2 + r * ?S2) (cfRowLCM k)"
    using A sh sh0 S0 kn c r kA by (simp_all add: MC_MR_shifts Length_Length)
  define rr0 where "rr0 = (((ColRank A p + ?S1 - cfColAlignA k) smod ?S1) + cfColAlign k) smod cfColStride k"
  define rc0 where "rc0 = (((RowRank A p + ?S2 - cfRowAlignA k) smod ?S2) + cfRowAlign k) smod cfRowStride k"
  have rr: "rr0 = (Shift a (cfColAlignA k) ?S1 + cfColAlign k) smod cfColStride k"
    "rc0 = (Shift b (cfRowAlignA k) ?S2 + cfRowAlign k) smod cfRowStride k"
    by (simp_all add: rr0_def rc0_def rk Shift_def)
  have rr0: "0 \<le> rr0" "rr0 < cfColStride k" "0 \<le> rc0" "rc0 < cfRowStride k"
    using rr sh0 ks by simp_all
  obtain bb where "CFDG_sends k A p b0 (c, r) =
         \<lparr>msgDest = (rr0 + c * ?S1) mod cfColStride k + ((rc0 + r * ?S2) mod cfRowStride k) * cfColStride k,
          msgCount = Length (LocalHeight A p) c (cfNumColSends k) * Length (LocalWidth A p) r (cfNumRowSends k),
          msgData = CFDG_pack c r (cfNumColSends k) (cfNumRowSends k) (Length (LocalHeight A p) c (cfNumColSends k))
                      (Length (LocalWidth A p) r (cfNumRowSends k)) (locals A p) bb\<rparr>"
    using CFDG_sends_at [OF ks(1,2) S0 _ rr0_def rr0(1,2) rc0_def rr0(3,4) c r, of b0] kn(2) by auto
  then show "msgDest (CFDG_sends k A (a + b * ?S1) b0 (c, r))
           = ((Shift a (cfColAlignA k) ?S1 + cfColAlign k) smod cfColStride k + c * ?S1) mod cfColStride k
             + (((Shift b (cfRowAlignA k) ?S2 + cfRowAlign k) smod cfRowStride k
                + r * ?S2) mod cfRowStride k) * cfColStride k"
    and "msgCount (CFDG_sends k A (a + b * ?S1) b0 (c, r))
           = Length (mheight A) (Shift a (cfColAlignA k) ?S1 + c * ?S1) (cfColLCM k)
             * Length (mwidth A) (Shift b (cfRowAlignA k) ?S2 + r * ?S2) (cfRowLCM k)"
    unfolding p_def [symmetric] by (simp_all add: rr lh)
qed

text \<open>In every round, the message a receiver \<open>x + y r\<close> of this grid takes at the
  \<open>(t, u)\<close>-th step of its loops is addressed to it and has the size it expects.\<close>

lemma CFDG_round_accepts:
  assumes M: "is_MC_MR M" and A: "is_MC_MR A" and wfM: "dm_wf M" and wfA: "dm_wf A"
    and x: "0 \<le> x" "x < gheight (dgrid M)" and y: "0 \<le> y" "y < gwidth (dgrid M)"
    and c: "0 \<le> c" "c < cfNumColSends (CFDG_consts M A)" and r: "0 \<le> r" "r < cfNumRowSends (CFDG_consts M A)"
  defines "k \<equiv> CFDG_consts M A"
  defines "h1 \<equiv> (x + cfColStride k - (c * cfColStrideA k + cfColAlign k) smod cfColStride k) smod cfColStride k"
    and "h2 \<equiv> (y + cfRowStride k - (r * cfRowStrideA k + cfRowAlign k) smod cfRowStride k) smod cfRowStride k"
  defines "fsr \<equiv> (h1 + (c * cfColStrideA k + cfColAlignA k) smod cfColStrideA k) smod cfColStrideA k"
    and "fsc \<equiv> (h2 + (r * cfRowStrideA k + cfRowAlignA k) smod cfRowStrideA k) smod cfRowStrideA k"
  assumes t: "0 \<le> t" "t < Length (cfColStrideA k) h1 (cfColStride k)"
    and u: "0 \<le> u" "u < Length (cfRowStrideA k) h2 (cfRowStride k)"
  shows "recv_accepts (CFDG_sends k A ((fsr + t * cfColStride k) mod cfColStrideA k
                          + ((fsc + u * cfRowStride k) mod cfRowStrideA k) * cfColStrideA k) b0 (c, r))
           (x + y * cfColStride k)
           (Length (mheight A) (Shift ((fsr + t * cfColStride k) mod cfColStrideA k) (cfColAlignA k) (cfColStrideA k)
                                 + c * cfColStrideA k) (cfColLCM k)
            * Length (mwidth A) (Shift ((fsc + u * cfRowStride k) mod cfRowStrideA k) (cfRowAlignA k) (cfRowStrideA k)
                                   + r * cfRowStrideA k) (cfRowLCM k))"
proof -
  note kf = CFDG_consts_MC_MR [OF M A wfM wfA, folded k_def]
  have x': "x < cfColStride k" and y': "y < cfRowStride k" using x(2) y(2) kf(1,2) by simp_all
  note R1 = cfdg_axis_round [OF kf(9,11) kf(13,14) kf(17,18) x(1) x' c(1), folded h1_def fsr_def]
  note R2 = cfdg_axis_round [OF kf(10,12) kf(15,16) kf(19,20) y(1) y' r(1), folded h2_def fsc_def]
  note T = R1(5) [OF t] and U = R2(5) [OF u]
  have ab: "0 \<le> (fsr + t * cfColStride k) mod cfColStrideA k" "(fsr + t * cfColStride k) mod cfColStrideA k < cfColStrideA k"
    "0 \<le> (fsc + u * cfRowStride k) mod cfRowStrideA k" "(fsc + u * cfRowStride k) mod cfRowStrideA k < cfRowStrideA k"
    using T U by blast+
  note H = CFDG_sends_hdr [OF A wfA kf(3,4,7,8) kf(9,10,13,14,15,16) kf(21,22,23,24) ab c [folded k_def]
      r [folded k_def], of b0]
  have dx: "((Shift ((fsr + t * cfColStride k) mod cfColStrideA k) (cfColAlignA k) (cfColStrideA k) + cfColAlign k)
             smod cfColStride k + c * cfColStrideA k) mod cfColStride k = x" using T by blast
  have dy: "((Shift ((fsc + u * cfRowStride k) mod cfRowStrideA k) (cfRowAlignA k) (cfRowStrideA k) + cfRowAlign k)
             smod cfRowStride k + r * cfRowStrideA k) mod cfRowStride k = y" using U by blast
  show ?thesis using H unfolding dx dy by simp
qed

section \<open>Every send is received in its round\<close>

text \<open>C34. In every round of \<open>CopyFromDifferentGrid\<close>, the message a process \<open>p\<close>
  of \<open>A\<close>'s grid sends is taken by a receive of the same round, so the \<open>mpi::Wait\<close>
  that ends the round returns: its destination \<open>q\<close> is a process of this grid, all
  the receives of \<open>q\<close> return on the messages the senders put out, and the loop of
  \<open>q\<close> takes \<open>p\<close>'s message of that round, since had that one message been
  addressed elsewhere the receives of \<open>q\<close> would have failed.\<close>

theorem CopyFromDifferentGrid_sends_received:
  assumes M: "is_MC_MR M" and A: "is_MC_MR A" and wfM: "dm_wf M" and wfA: "dm_wf A"
    and p: "p \<in> procs (dgrid A)"
    and c: "0 \<le> c" "c < cfNumColSends (CFDG_consts M A)" and r: "0 \<le> r" "r < cfNumRowSends (CFDG_consts M A)"
  shows "let k = CFDG_consts M A; msgs = (\<lambda>p. CFDG_sends k A p (sendBuf p)); q = msgDest (msgs p (c, r));
             recvs = (\<lambda>msgs'. CFDG_recvs k (mheight A) (mwidth A) msgs' q base (ColRank M q) (RowRank M q)
                                 (ColShift M q) (RowShift M q) st)
         in q \<in> procs (dgrid M) \<and> (\<exists>st'. recvs msgs = Some st')
            \<and> (\<forall>m'. msgDest m' \<noteq> q \<longrightarrow> recvs (msgs(p := (msgs p)((c, r) := m'))) = None)"
proof -
  define k where "k = CFDG_consts M A"
  define msgs where "msgs = (\<lambda>p. CFDG_sends k A p (sendBuf p))"
  note kf = CFDG_consts_MC_MR [OF M A wfM wfA, folded k_def]
  have okA: "grid_ok (dgrid A)" and okM: "grid_ok (dgrid M)" using wfA wfM by (simp_all add: dm_wf_def)
  define a where "a = grow (dgrid A) p"
  define b where "b = gcol (dgrid A) p"
  have ab: "0 \<le> a" "a < cfColStrideA k" "0 \<le> b" "b < cfRowStrideA k"
    using grow_range [OF okA, of p] gcol_range [OF okA p] kf(3,4) by (simp_all add: a_def b_def)
  have pab: "p = a + b * cfColStrideA k" using vc_rowcol [OF okA, of p] kf(3) by (simp add: a_def b_def)
  define x where "x = ((Shift a (cfColAlignA k) (cfColStrideA k) + cfColAlign k) smod cfColStride k
                        + c * cfColStrideA k) mod cfColStride k"
  define y where "y = ((Shift b (cfRowAlignA k) (cfRowStrideA k) + cfRowAlign k) smod cfRowStride k
                        + r * cfRowStrideA k) mod cfRowStride k"
  note X = cfdg_axis_sender [OF kf(9,11) kf(13,14) kf(17,18) c(1) ab(1,2) x_def]
  note Y = cfdg_axis_sender [OF kf(10,12) kf(15,16) kf(19,20) r(1) ab(3,4) y_def]
  define q where "q = x + y * cfColStride k"
  have dest: "msgDest (msgs p (c, r)) = q"
    using CFDG_sends_hdr(1) [OF A wfA kf(3,4,7,8) kf(9,10,13,14,15,16) kf(21,22,23,24) ab c [folded k_def]
        r [folded k_def], of "sendBuf p"]
    by (simp add: msgs_def pab [symmetric] x_def y_def q_def)
  have qM: "q \<in> procs (dgrid M)"
    using rowcol_in_procs [OF okM, of x y] X(1,2) Y(1,2) kf(1,2) by (simp add: q_def)
  have rk: "ColRank M q = x" "RowRank M q = y"
    using rowcol_vc [OF okM, of x y] X(1,2) kf(1) M by (simp_all add: q_def ColRank_def RowRank_def is_MC_MR_def)
  define h1 where "h1 c' = (x + cfColStride k - (c' * cfColStrideA k + cfColAlign k) smod cfColStride k)
                             smod cfColStride k" for c'
  define h2 where "h2 r' = (y + cfRowStride k - (r' * cfRowStrideA k + cfRowAlign k) smod cfRowStride k)
                             smod cfRowStride k" for r'
  define fsr where "fsr c' = (h1 c' + (c' * cfColStrideA k + cfColAlignA k) smod cfColStrideA k) smod cfColStrideA k"
    for c'
  define fsc where "fsc r' = (h2 r' + (r' * cfRowStrideA k + cfRowAlignA k) smod cfRowStrideA k) smod cfRowStrideA k"
    for r'
  have xy: "x < gheight (dgrid M)" "y < gwidth (dgrid M)" using X(2) Y(2) kf(1,2) by simp_all
  have acc: "recv_accepts (CFDG_sends k A ((fsr c' + t * cfColStride k) mod cfColStrideA k
                          + ((fsc r' + u * cfRowStride k) mod cfRowStrideA k) * cfColStrideA k) b0 (c', r')) q
           (Length (mheight A) (Shift ((fsr c' + t * cfColStride k) mod cfColStrideA k) (cfColAlignA k) (cfColStrideA k)
                                 + c' * cfColStrideA k) (cfColLCM k)
            * Length (mwidth A) (Shift ((fsc r' + u * cfRowStride k) mod cfRowStrideA k) (cfRowAlignA k) (cfRowStrideA k)
                                   + r' * cfRowStrideA k) (cfRowLCM k))"
    if c': "0 \<le> c'" "c' < cfNumColSends k" and r': "0 \<le> r'" "r' < cfNumRowSends k"
      and t: "0 \<le> t" "t < Length (cfColStrideA k) (h1 c') (cfColStride k)"
      and u: "0 \<le> u" "u < Length (cfRowStrideA k) (h2 r') (cfRowStride k)" for c' r' t u b0
    using CFDG_round_accepts [OF M A wfM wfA X(1) xy(1) Y(1) xy(2) c' [unfolded k_def] r' [unfolded k_def],
        folded k_def, OF t [unfolded h1_def] u [unfolded h2_def], of b0]
    unfolding fsr_def h1_def fsc_def h2_def q_def .
  have round_Some: "\<exists>st'. CFDG_recv_round k (mheight A) (mwidth A) msgs'' q base x y cs rs c' r' st0 = Some st'"
    if c': "0 \<le> c'" "c' < cfNumColSends k" and r': "0 \<le> r'" "r' < cfNumRowSends k"
      and agree: "\<And>t u. 0 \<le> t \<Longrightarrow> t < Length (cfColStrideA k) (h1 c') (cfColStride k) \<Longrightarrow>
          0 \<le> u \<Longrightarrow> u < Length (cfRowStrideA k) (h2 r') (cfRowStride k) \<Longrightarrow>
          msgs'' ((fsr c' + t * cfColStride k) mod cfColStrideA k
                  + ((fsc r' + u * cfRowStride k) mod cfRowStrideA k) * cfColStrideA k) (c', r')
          = msgs ((fsr c' + t * cfColStride k) mod cfColStrideA k
                  + ((fsc r' + u * cfRowStride k) mod cfRowStrideA k) * cfColStrideA k) (c', r')"
    for msgs'' c' r' cs rs st0
  proof -
    note R1 = cfdg_axis_round [OF kf(9,11) kf(13,14) kf(17,18) X(1,2) c'(1)]
    note R2 = cfdg_axis_round [OF kf(10,12) kf(15,16) kf(19,20) Y(1,2) r'(1)]
    show ?thesis
      by (rule CFDG_recv_round_Some [OF kf(9,11,10,12) refl R1(1,2) refl R2(1,2) refl R1(3) refl R2(3)])
        (use acc [OF c' r', unfolded fsr_def h1_def fsc_def h2_def]
             agree [unfolded fsr_def h1_def fsc_def h2_def] in \<open>simp add: msgs_def\<close>)
  qed
  obtain t0 where t0: "0 \<le> t0" "t0 < Length (cfColStrideA k) (h1 c) (cfColStride k)"
      "(fsr c + t0 * cfColStride k) mod cfColStrideA k = a"
    and t0u: "\<And>t. 0 \<le> t \<Longrightarrow> t < Length (cfColStrideA k) (h1 c) (cfColStride k) \<Longrightarrow>
      (fsr c + t * cfColStride k) mod cfColStrideA k = a \<Longrightarrow> t = t0"
    using X(3) unfolding fsr_def h1_def by blast
  obtain u0 where u0: "0 \<le> u0" "u0 < Length (cfRowStrideA k) (h2 r) (cfRowStride k)"
      "(fsc r + u0 * cfRowStride k) mod cfRowStrideA k = b"
    and u0u: "\<And>u. 0 \<le> u \<Longrightarrow> u < Length (cfRowStrideA k) (h2 r) (cfRowStride k) \<Longrightarrow>
      (fsc r + u * cfRowStride k) mod cfRowStrideA k = b \<Longrightarrow> u = u0"
    using Y(3) unfolding fsc_def h2_def by blast
  have other: "(fsr c + t * cfColStride k) mod cfColStrideA k
                 + ((fsc r + u * cfRowStride k) mod cfRowStrideA k) * cfColStrideA k \<noteq> p"
    if t: "0 \<le> t" "t < Length (cfColStrideA k) (h1 c) (cfColStride k)"
      and u: "0 \<le> u" "u < Length (cfRowStrideA k) (h2 r) (cfRowStride k)" and tu: "(t, u) \<noteq> (t0, u0)" for t u
  proof
    assume eq: "(fsr c + t * cfColStride k) mod cfColStrideA k
                 + ((fsc r + u * cfRowStride k) mod cfRowStrideA k) * cfColStrideA k = p"
    have r0: "0 \<le> (fsr c + t * cfColStride k) mod cfColStrideA k" "(fsr c + t * cfColStride k) mod cfColStrideA k < cfColStrideA k"
      using kf(11) by simp_all
    have "(fsr c + t * cfColStride k) mod cfColStrideA k = a \<and> (fsc r + u * cfRowStride k) mod cfRowStrideA k = b"
      using colmajor_inj [OF r0 ab(1,2), of "(fsc r + u * cfRowStride k) mod cfRowStrideA k" b] eq pab
      by (simp add: add.commute)
    then show False using t0u [OF t] u0u [OF u] tu by simp
  qed
  have round_None: "CFDG_recv_round k (mheight A) (mwidth A) (msgs(p := (msgs p)((c, r) := m'))) q base x y cs rs c r st0
      = None" if m': "msgDest m' \<noteq> q" for m' cs rs st0
  proof -
    note R1 = cfdg_axis_round [OF kf(9,11) kf(13,14) kf(17,18) X(1,2) c(1)]
    note R2 = cfdg_axis_round [OF kf(10,12) kf(15,16) kf(19,20) Y(1,2) r(1)]
    show ?thesis
      apply (rule CFDG_recv_round_None [OF kf(9,11,10,12) refl R1(1,2) refl R2(1,2) refl R1(3) refl R2(3)
            t0(1) t0(2) [unfolded h1_def] u0(1) u0(2) [unfolded h2_def]])
      subgoal for t u
        using acc [OF c [folded k_def] r [folded k_def], unfolded fsr_def h1_def fsc_def h2_def]
          other [unfolded fsr_def h1_def fsc_def h2_def]
        by (simp add: msgs_def)
      subgoal using t0(3) u0(3) m' unfolding fsr_def h1_def fsc_def h2_def pab by simp
      done
  qed
  have nn: "0 \<le> cfNumColSends k" "0 \<le> cfNumRowSends k" using kf(21,22) by simp_all
  have "\<exists>st'. CFDG_recvs k (mheight A) (mwidth A) msgs q base x y (ColShift M q) (RowShift M q) st = Some st'"
    by (rule CFDG_recvs_Some [OF nn]) (rule round_Some; simp)
  moreover have "CFDG_recvs k (mheight A) (mwidth A) (msgs(p := (msgs p)((c, r) := m'))) q base x y
      (ColShift M q) (RowShift M q) st = None" if m': "msgDest m' \<noteq> q" for m'
    apply (rule CFDG_recvs_None [OF c [folded k_def] r [folded k_def]])
    subgoal by (rule round_Some) auto
    subgoal by (rule round_None [OF m'])
    done
  moreover have mp: "CFDG_sends k A p (sendBuf p) = msgs p" by (simp add: msgs_def)
  ultimately show ?thesis
    unfolding Let_def k_def [symmetric] msgs_def [symmetric] mp dest rk using qM by blast
qed

end
