(* ===== verification/Spec2Isabelle.thy ===== *)
theory Spec2Isabelle
  imports MC_MR MC_MR_VC MC_MR_Align MC_MR_Trans MR_STAR BC_VC_STAR STAR_MD Routes MR_STAR_Vec RQ MR_STAR_Trans MC_MR_STAR_VR Routes_STAR_VR MC_MR_MR_MC CIRC_CIRC SymInv SkeletonDecomp CrossGrid CrossGridMatch
begin

text \<open>
  \<^bold>\<open>A verification model of Elemental's redistribution engine.\<close>

  Elemental stores a dense matrix across an \<open>r \<times> c\<close> mesh of processes in one of about
  a dozen distributions, each a pair of tags \<open>[U,V]\<close> (\<open>MC\<close>, \<open>MR\<close>, \<open>VC\<close>,
  \<open>VR\<close>, \<open>MD\<close>, \<open>STAR\<close>, \<open>CIRC\<close>) saying how rows and columns are scattered or
  replicated, and converts between them by assignment (\<open>operator=\<close>), each conversion
  a protocol of local packing, a collective or point-to-point exchange, and unpacking, or
  a chain of such conversions through temporaries. The files under \<open>src/\<close> are the
  conversions into \<open>[MC,MR]\<close> (\<open>core/dist_matrix/mc_mr.cpp\<close>), \<open>[MR,*]\<close>
  (\<open>mr_star.cpp\<close>), \<open>[*,MD]\<close> (\<open>star_md.cpp\<close>) and the block-cyclic \<open>[VC,*]\<close>
  (\<open>DistMatrix/BlockCyclic/VC_STAR.cpp\<close>), and four numerical clients (symmetric
  inverse, skeleton decomposition, RQ, the C API of the factorizations) that only call the
  engine.

  \<^bold>\<open>Theories\<close> (each opens with a text saying what it holds).
  \<^item> \<open>Prelude\<close>: \<open>/\<close>, \<open>%\<close> on \<open>Int\<close> as \<open>sdiv\<close>/\<open>smod\<close>; errors (a thrown
    \<open>LogicError\<close> keeps the object's state; \<open>CommError\<close> for a mismatched
    communication); the debug/release build; loops as folds of updates and the
    \<open>writes\<close> lemmas that read a writing loop back.
  \<^item> \<open>Index\<close>: \<open>Shift\<close>, \<open>Length\<close>, \<open>MaxLength\<close> (spec 4.3); \<open>Length_iff\<close>, the
    counting laws of spec 8, and the modular arithmetic of point-to-point partners.
  \<^item> \<open>Grid\<close>: the process grid (spec 4.1): ranks, rows, columns, the generalised
    diagonals (\<open>md_path\<close>, \<open>md_rank\<close>, with Bezout's identity showing that the rank
    walk reaches every process), and the communicators \<open>MC\<close>, \<open>MR\<close>, \<open>VC\<close>,
    \<open>VR\<close>, \<open>MD\<close>, \<open>MDPerp\<close>, \<open>SELF\<close> as rank/member functions.
  \<^item> \<open>Dist\<close>: tags, \<open>DistData\<close>, the state of a distributed matrix, strides,
    shifts, local sizes, the invariant \<open>dm_wf\<close>, the abstraction \<open>holds M A\<close> (every
    process keeps the entries of the global matrix \<open>A\<close> its distribution assigns it),
    the base-class operations. \<open>Queries\<close>: the communicator and stride queries.
  \<^item> \<open>Comm\<close>: \<open>mpi::SendRecv\<close>, \<open>mpi::AllToAll\<close>, \<open>mpi::AllGather\<close>,
    \<open>mpi::Scatter\<close> and \<open>mpi::Gather\<close> over all processes' arenas at once, \<open>None\<close>
    when partners or sizes do not match.
  \<^item> \<open>Pack\<close>: pack/unpack loops, \<open>distribute\<close>, what \<open>holds\<close> reads, and the generic
    point-to-point realignment lemma. \<open>Replicated\<close>: \<open>[*,*]\<close>, the axis filter and
    the gathered temporary.
  \<^item> \<open>MC_MR\<close>, \<open>MC_MR_VC\<close>, \<open>MC_MR_Align\<close>, \<open>MC_MR_Trans\<close>: \<open>[MC,MR]\<close> from
    \<open>[MC,MR]\<close> (copy or \<open>SendRecv\<close>), from \<open>[VC,*]\<close> (\<open>AllToAll\<close>, with a
    \<open>SendRecv\<close> first when unaligned), \<open>AlignWith\<close>/\<open>AlignColsWith\<close>/\<open>AlignRowsWith\<close>,
    \<open>TransposeFrom\<close> of \<open>[*,MC]\<close> and \<open>[MR,*]\<close>.
  \<^item> \<open>MR_STAR\<close>: \<open>[MR,*]\<close> from \<open>[MR,*]\<close>, \<open>AlignWith\<close>. \<open>STAR_MD\<close>: all of
    \<open>[*,MD]\<close>'s overloads and \<open>AlignWith\<close>. \<open>BC_VC_STAR\<close>: the fourteen overloads
    of the block-cyclic \<open>[VC,*]\<close>, its dynamic dispatch and queries. \<open>Routes\<close>: the
    composed overloads of \<open>[MC,MR]\<close> and \<open>[MR,*]\<close> (only the \<open>[VR,*]\<close> route,
    whose last step is code, carries a claim).
  \<^item> \<open>MR_STAR_Vec\<close>: \<open>[MR,*]\<close> from \<open>[MC,*]\<close> (\<open>mr_star.cpp\<close>): the column-vector
    path (a trade over \<open>VR\<close> ranks and an all-gather over the grid column, the
    \<open>AllGather\<close> of \<open>Comm\<close>) and the general path through \<open>[MC,MR]\<close>.
  \<^item> \<open>MR_STAR_Trans\<close>: \<open>[MR,*]::TransposeFrom\<close>/\<open>AdjointFrom\<close> of \<open>[MC,MR]\<close>
    (all-gather over the grid column, after a trade within the grid row when unaligned).
  \<^item> \<open>MC_MR_STAR_VR\<close>: \<open>[MC,MR]\<close> from \<open>[*,VR]\<close> (\<open>mc_mr.cpp\<close>, 660--820): an
    all-to-all over the grid column, after a trade within the grid row when unaligned.
  \<^item> \<open>Routes_STAR_VR\<close>: \<open>[MC,MR]\<close> from \<open>[*,VC]\<close> and \<open>[*,MC]\<close>, through a
    \<open>[*,VR]\<close> temporary constrained to the destination's row alignment.
  \<^item> \<open>MC_MR_MR_MC\<close>: \<open>[MC,MR]\<close> from \<open>[MR,MC]\<close> (\<open>mc_mr.cpp\<close>, 231--440): a
    column vector by \<open>Scatter\<close> down the grid columns, \<open>SendRecv\<close> over column-major
    ranks and \<open>Gather\<close> along the grid rows; a row vector by the transposed sequence
    over row-major ranks; other shapes through \<open>[VR,*]\<close>/\<open>[VC,*]\<close> or
    \<open>[*,VC]\<close>/\<open>[*,VR]\<close> temporaries.
  \<^item> \<open>CIRC_CIRC\<close>: \<open>[MC,MR]\<close> from \<open>[CIRC,CIRC]\<close> (\<open>mc_mr.cpp\<close>, 831--913): the
    root packs every process's block (\<open>pack_CIRC_MC_MR\<close>), scatters the blocks over
    \<open>VCComm\<close> into the space behind its send buffer (\<open>Scatter_offs\<close>; the others
    receive at the front of their arena), and each process unpacks
    (\<open>unpack_CIRC_MC_MR\<close>); \<open>[MR,*]\<close> from \<open>[CIRC,CIRC]\<close> (\<open>mr_star.cpp\<close>,
    405--415) through an \<open>[MR,MC]\<close> temporary aligned with the destination.
  \<^item> \<open>CrossGrid\<close>: \<open>[MC,MR] = [MC,MR]\<close> on any pair of grids
    (\<open>mc_mr.cpp\<close>, 104--186 and \<open>CopyFromDifferentGrid\<close>, 1211--1389): the
    constants (\<open>CFDG_consts\<close>: strides, their \<open>gcd\<close>/\<open>lcm\<close>, the numbers of
    rounds), the send rounds (\<open>CFDG_sends\<close>, one packed message per round for each
    process of the source grid) and the receive rounds (\<open>CFDG_recvs\<close>, each receive
    matched against the message addressed to it, then unpacked); a receive loop with a
    fallible body is \<open>for_loop_opt\<close>. \<open>CrossGridMatch\<close>: the converse matching of
    the same protocol, that every round's non-blocking send is taken by a receive of
    that round (when a receive, a row, a round and all rounds return or fail, and where
    a sender sits in its receiver's loops).
  \<^item> \<open>SymInv\<close>: the three \<open>SymmetricInverse\<close> overloads
    (\<open>lapack-like/funcs/Inverse/Symmetric.cpp\<close>), and \<open>SkeletonDecomp\<close>: both
    \<open>Skeleton\<close> overloads (\<open>lapack-like/factor/Skeleton.cpp\<close>); numerical clients
    whose kernels lie outside \<open>src/\<close> and enter as parameters under a contract
    (\<open>sinv_ok\<close>: \<open>MakeSymmetric\<close> symmetrises and the two permutations move rows and
    columns by one map; \<open>skel_ok\<close>: the kernels' effect on shapes, \<open>Gemm\<close> raising
    on operands that do not conform).
  \<^item> \<open>RQ\<close>: the blocked panel loop of \<open>rq::Householder\<close>
    (\<open>lapack-like/RQ/Householder.hpp\<close>), sequential and distributed, with the panel
    factorization, the application of its reflectors and the distributed matrices' view
    operations as parameters (\<open>rq_env\<close>) of a stated contract.

  \<^bold>\<open>What is proved\<close> (claims C1--C34). Correctness (the destination holds the
  source's global matrix) of \<open>[MC,MR]\<close> from \<open>[MC,MR]\<close> on any pair of grids
  (C1: on different grids every receive finds the message its sender packed for it, of
  the expected size, and the rounds together write every local entry; the per-axis
  \<open>gcd\<close>/\<open>lcm\<close> arithmetic is \<open>cfdg_axis_match\<close>/\<open>cfdg_axis_covered\<close>; and
  conversely, C34, the liveness of its rounds: each process's message of a round is
  taken by its destination's receives of that round, so the \<open>mpi::Wait\<close> ending
  the round returns), \<open>[VC,*]\<close>, \<open>[*,VR]\<close>,
  \<open>[*,VC]\<close> and \<open>[*,MC]\<close> (whose temporaries always take the aligned branch),
  \<open>[MR,MC]\<close> (both vector paths and the general one), \<open>[CIRC,CIRC]\<close> (the
  root's scatter, C33) and \<open>[VR,*]\<close>; of \<open>[MR,*]\<close> from \<open>[MR,*]\<close> and from
  \<open>[MC,*]\<close> (the column-vector path), of \<open>[MR,*]::TransposeFrom([MC,MR])\<close>, of every \<open>[*,MD]\<close>
  overload but \<open>[CIRC,CIRC]\<close>, of the aligned \<open>TransposeFrom([*,MC])\<close> and of the
  unaligned one on uniform blocks; the alignment tables (what they achieve, and that
  outside them a debug build raises after \<open>SetGrid\<close> and a release build does not
  raise); the block-cyclic dispatch (which pairs succeed under the primitives' contract
  and which end in the not-yet-written error); consistency of the queries. For \<open>rq::Householder\<close>: the loop ends for a positive
  block size, with its result the fold of the panel steps over the offsets
  \<open>k, k - b, \<dots>\<close> (C22); every panel
  lies within the matrix (C23) and the panels' rows partition \<open>[0, minDim)\<close> (C24); the
  distributed variant's debug checks (C25). For \<open>SymmetricInverse\<close>: the upper-triangle
  variant raises in every overload and the lower one does not (C30); the result is
  symmetric, because the rows and columns are permuted by the same pivots after
  \<open>MakeSymmetric\<close> (C31, the one state invariant carried through a sequence of kernel
  calls). For \<open>Skeleton\<close>: both products conform for any rank the first QR returns, so
  the routine never raises, and \<open>Z\<close> is square of that rank (C32).
  \<^bold>\<open>Findings\<close>: \<open>TransposeFrom([*,MC])\<close> packs with the wrong stride when unaligned
  (C9, a concrete wrong result); \<open>[*,MD] = [CIRC,CIRC]\<close> asks \<open>[MC,MR]::AlignWith\<close>
  for a pair outside its table (C17); \<open>AlignWith\<close> mutates before raising (C4); four
  block-cyclic pairs fail only through a \<open>[VR,*]\<close> temporary (C14);
  \<open>rq::Householder\<close> does not check that the block size is positive (no claim: what
  it does then depends on \<open>LastOffset\<close> and on the width of \<open>Int\<close>, outside the
  model); the comment of the unaligned \<open>[MC,MR] = [*,VR]\<close> branch calls its
  trade within the grid row a trade in the column (C27).

  \<^bold>\<open>Modelling choices.\<close> Indices are \<open>int\<close> as the source's \<open>Int\<close>; no width bound
  is modelled (the sizes involved are far below \<open>2^63\<close>). A local matrix is the
  function \<open>Get(i, j)\<close>; communication buffers are modelled entry by entry as offsets in
  the arena, since partners must agree on them exactly. The SPMD program is one record
  for all processes, each process's part a function of its rank and each collective taken
  over all processes at once; since every process of a communicator takes the same path
  (spec 5), this is the program's behaviour. Code that is not under \<open>src/\<close> and that a
  modelled routine calls is a parameter with a stated contract, or is modelled from the
  spec: the copy primitives and constructors of the block-cyclic dispatch (\<open>bc_env\<close>,
  contract \<open>bc_env_ok\<close>), the all-gather into \<open>[*,*]\<close> (\<open>gather\<close>, contract
  \<open>gathers\<close>/\<open>gather_ok\<close>), the conversions into linking distributions
  (\<open>convert\<close>: the destination receives the gathered matrix), the axis filter
  (\<open>FilterFrom\<close>), the \<open>mpi\<close> collectives (\<open>Comm\<close>), and for RQ the panel
  factorization, the reflector application, \<open>LastOffset\<close> (contract
  \<open>last_offset_ok\<close>: the last multiple of the block size below the extent) and the
  view operations (\<open>rq_env\<close>). The loops of the redistributions are folds over finite
  ranges; the block-cyclic dispatch terminates by the measure \<open>bc_depth\<close> (a
  temporary's overload never recurses). The RQ panel loop \<open>for k = lastOffset; k >= 0;
  k -= bsize\<close> is the one loop that may not end: it is a \<open>partial_function (option)\<close>
  (\<open>rq_loop\<close>, \<open>None\<close> for non-termination), so that C22 proves it returns for a
  positive block size rather than assuming it. The cross-grid copy names processes by
  their column-major rank in the viewing communicator, as the source does after
  translating each grid's ranks into it; a receive that finds no message of the expected
  size is a \<open>CommError\<close>. The send buffer's prior contents and which
  processes also belong to the source's grid (which places the receive buffer behind
  the send buffer) are parameters (\<open>sendBuf0\<close>, \<open>inAGrid\<close>), on which C1 shows
  the result does not depend. \<open>Grid\<close>'s \<open>operator==\<close>, which selects the
  same-grid or the cross-grid path of \<open>[MC,MR] = [MC,MR]\<close>, compares grid objects
  by address; grids are values in the model, so its outcome is the parameter
  \<open>sameGrid\<close> of \<open>MC_MR_assign\<close>, with the one fact that the same object has
  the same shape.

  \<^bold>\<open>Not modelled.\<close> \<open>[MC,MR]\<close> from \<open>[MC,*]\<close>, \<open>[*,MR]\<close> (the partial filters,
  outside \<open>src/\<close>); constructors that attach buffers,
  \<open>ShallowSwap\<close>, move assignment (pointer moves); the RQ overloads without the
  reflector coefficients (they allocate \<open>t\<close> and call the modelled ones); the numerical
  content of the factorizations the clients call (floating-point kernels outside
  \<open>src/\<close> and outside the spec), of which the model keeps only the contracts above;
  the C API header \<open>factor-C.h\<close>, which holds only declarations and no code to model.
\<close>

section \<open>Concrete inputs\<close>

text \<open>A \<open>2 \<times> 2\<close> grid and the \<open>4 \<times> 4\<close> matrix \<open>A[i][j] = 4 i + j\<close> of the spec's
  scenarios, and a distributed matrix of it with given tags and alignments.\<close>

definition ex_grid :: grid where
  "ex_grid = \<lparr>gheight = 2, gwidth = 2\<rparr>"

definition ex_G :: "int gmat" where
  "ex_G = (\<lambda>(i, j). 4 * i + j)"

definition ex_mat :: "Dist \<Rightarrow> Dist \<Rightarrow> int \<Rightarrow> int \<Rightarrow> bool \<Rightarrow> int DistMatrix" where
  "ex_mat cd rd ca ra cons =
     \<lparr>colDist = cd, rowDist = rd, dgrid = ex_grid, mheight = 4, mwidth = 4,
      colAlign = ca, rowAlign = ra, root = 0, viewing = False,
      colConstrained = cons, rowConstrained = cons,
      locals = (\<lambda>_ _. 0), auxMem = (\<lambda>_ _. 0), auxSize = (\<lambda>_. 0)\<rparr>"

text \<open>A descriptor on a given grid with given tags and alignments, root \<open>0\<close>; and a
  \<open>1 \<times> 4\<close> grid, to move a matrix to another grid.\<close>

definition ex_dd :: "grid \<Rightarrow> Dist \<Rightarrow> Dist \<Rightarrow> int \<Rightarrow> int \<Rightarrow> DistData" where
  "ex_dd g cd rd ca ra = \<lparr>ddColDist = cd, ddRowDist = rd, ddColAlign = ca, ddRowAlign = ra,
     ddRoot = 0, ddGrid = g\<rparr>"

text \<open>A distributed matrix on a given grid with given tags, size and alignments, zero
  local data; a \<open>2 \<times> 1\<close> grid.\<close>

definition ex_grid_2x1 :: grid where "ex_grid_2x1 = \<lparr>gheight = 2, gwidth = 1\<rparr>"

definition ex_dm :: "grid \<Rightarrow> Dist \<Rightarrow> Dist \<Rightarrow> int \<Rightarrow> int \<Rightarrow> int \<Rightarrow> int \<Rightarrow> bool \<Rightarrow> int DistMatrix" where
  "ex_dm g cd rd h w ca ra cons =
     \<lparr>colDist = cd, rowDist = rd, dgrid = g, mheight = h, mwidth = w,
      colAlign = ca, rowAlign = ra, root = 0, viewing = False,
      colConstrained = cons, rowConstrained = cons,
      locals = (\<lambda>_ _. 0), auxMem = (\<lambda>_ _. 0), auxSize = (\<lambda>_. 0)\<rparr>"

text \<open>The input of the \<open>TransposeFrom\<close> counterexample: an \<open>[MC,MR]\<close> destination
  constrained to column alignment \<open>1\<close> on the \<open>2 \<times> 1\<close> grid, a \<open>3 \<times> 4\<close>
  \<open>[*,MC]\<close> source of row alignment \<open>0\<close>, and the destination after its alignment
  step.\<close>

abbreviation "tr_M0 \<equiv> ex_dm ex_grid_2x1 MC MR 0 0 1 0 True"
abbreviation "tr_A \<equiv> distribute ex_G (ex_dm ex_grid_2x1 STAR MC 3 4 0 0 False)"
abbreviation "tr_M \<equiv> AlignColsAndResize (rowAlign tr_A) (mwidth tr_A) (mheight tr_A) tr_M0"

text \<open>An environment for the block-cyclic dispatch whose matrices are a pair of a
  distribution pair and a payload: every primitive and constructor keeps the source's
  payload.\<close>

definition ex_bc_env :: "((Dist \<times> Dist) \<times> int) bc_env" where
  "ex_bc_env = \<lparr>bc_copy = (\<lambda>op M A. Inr (fst M, snd A)), bc_make = (\<lambda>p A. Inr (p, snd A))\<rparr>"

text \<open>Elemental's \<open>LastOffset(n, bsize)\<close>, and an environment for \<open>rq::Householder\<close>
  whose state records, after a flag for \<open>t.Viewing()\<close>, the \<open>t1\<close> view of each
  panel factorisation, in order.\<close>

definition ex_last_offset :: "int \<Rightarrow> int \<Rightarrow> int" where
  "ex_last_offset n b = (if n mod b \<noteq> 0 then n - n mod b else n - b)"

definition ex_rq_env :: "(bool \<times> view list) rq_env" where
  "ex_rq_env = \<lparr>rq_last_offset = ex_last_offset, rq_panel = (\<lambda>bot t1 s. (fst s, snd s @ [t1])),
     rq_applyq = (\<lambda>bot t1 top s. s), rq_resize_t = (\<lambda>h w s. s), rq_same_grid = (\<lambda>s. False),
     rq_t_viewing = fst, rq_aligned_diag = (\<lambda>off s. False), rq_align_diag = (\<lambda>off s. s)\<rparr>"

text \<open>Kernels for \<open>SymmetricInverse\<close> on \<open>3 \<times> 3\<close> integer matrices: the factorization
  steps leave the matrix alone, \<open>MakeSymmetric\<close> copies the lower triangle into the
  upper one, and both permutations rotate the indices by one; the distributed kernels do
  the same on every process's local matrix, read off process \<open>0\<close>.\<close>

definition ex_sym :: "int gmat \<Rightarrow> int gmat" where
  "ex_sym B = (\<lambda>(i, j). B (max i j, min i j))"

definition ex_rot :: "unit \<Rightarrow> unit \<Rightarrow> int \<Rightarrow> int" where
  "ex_rot x y i = (i + 1) mod 3"

definition ex_sinv_env :: "(int gmat, unit, unit, unit) sinv_env" where
  "ex_sinv_env = \<lparr>si_LDL = \<lambda>A _ _. (A, (), ()), si_TriangularInverse = id,
     si_Trdtrmm = \<lambda>A _ _. A, si_InvertPermutation = id, si_MakeSymmetric = \<lambda>A _. ex_sym A,
     si_PermuteRows = \<lambda>A x y. (\<lambda>(i, j). A (ex_rot x y i, j)),
     si_PermuteCols = \<lambda>A x y. (\<lambda>(i, j). A (i, ex_rot x y j))\<rparr>"

definition ex_dsinv_env :: "(int DistMatrix, unit, unit, unit) sinv_env" where
  "ex_dsinv_env = \<lparr>si_LDL = \<lambda>A _ _. (A, (), ()), si_TriangularInverse = id,
     si_Trdtrmm = \<lambda>A _ _. A, si_InvertPermutation = id,
     si_MakeSymmetric = \<lambda>A _. A\<lparr>locals := \<lambda>q. ex_sym (locals A q)\<rparr>,
     si_PermuteRows = \<lambda>A x y. A\<lparr>locals := \<lambda>q (i, j). locals A q (ex_rot x y i, j)\<rparr>,
     si_PermuteCols = \<lambda>A x y. A\<lparr>locals := \<lambda>q (i, j). locals A q (i, ex_rot x y j)\<rparr>\<rparr>"

text \<open>Kernels for \<open>Skeleton\<close> that compute only shapes: a matrix is its shape, QR
  takes as many steps as the smaller dimension, and \<open>Gemm\<close> raises on operands that do
  not conform.\<close>

definition ex_shape :: "int \<times> int \<Rightarrow> int \<times> int" where
  "ex_shape X = (max 0 (fst X), max 0 (snd X))"

definition ex_skel_env :: "(int \<times> int, unit, unit) skel_env" where
  "ex_skel_env = \<lparr>sk_shape = ex_shape, sk_Adjoint = \<lambda>(h, w). (w, h),
     sk_QR = \<lambda>B _. (B, (), min (fst (ex_shape B)) (snd (ex_shape B))), sk_InversePermuteCols = \<lambda>B _. B,
     sk_Resize = \<lambda>_ h w. (h, w), sk_Pseudoinverse = \<lambda>(h, w). (w, h),
     sk_Gemm = \<lambda>oA oB X Y. if gemm_conformal oA oB (ex_shape X) (ex_shape Y)
                then Inr (fst (op_shape oA (ex_shape X)), snd (op_shape oB (ex_shape Y)))
                else Inl (LogicError ''Nonconformal'')\<rparr>"

definition ex_qr_ctrl :: "unit qr_ctrl_scheme" where
  "ex_qr_ctrl = \<lparr>qc_adaptive = True, qc_boundRank = False, qc_maxRank = 0, \<dots> = ()\<rparr>"

section \<open>Witnesses\<close>

text \<open>C1 at a concrete input, across two distinct grid objects of the same shape
  (\<open>sameGrid\<close> false): a \<open>4 \<times> 3\<close> matrix aligned at \<open>(1, 1)\<close> on a
  \<open>2 \<times> 2\<close> grid assigned to a destination aligned at \<open>(0, 1)\<close> on another
  \<open>2 \<times> 2\<close> grid, so the round protocol of \<open>CopyFromDifferentGrid\<close> runs rather
  than the same-grid realignment.\<close>

theorem MC_MR_assign_holds_witness:
  "\<exists>M'. MC_MR_assign False (ex_dm ex_grid MC MR 3 3 0 1 False)
         (distribute ex_G (ex_dm ex_grid MC MR 4 3 1 1 False)) (\<lambda>_ _. 0) (\<lambda>_. True) = Inr M'
     \<and> holds M' ex_G \<and> is_MC_MR M' \<and> dgrid M' = ex_grid \<and> mheight M' = 4 \<and> mwidth M' = 3"
proof -
  let ?M = "ex_dm ex_grid MC MR 3 3 0 1 False"
  let ?A = "distribute ex_G (ex_dm ex_grid MC MR 4 3 1 1 False)"
  have M: "is_MC_MR ?M" "dm_wf ?M"
    by (simp_all add: ex_dm_def is_MC_MR_def dm_wf_def ex_grid_def grid_ok_def ColStride_def RowStride_def)
  have A: "is_MC_MR ?A" "dm_wf ?A"
    by (simp_all add: ex_dm_def is_MC_MR_def dm_wf_def ex_grid_def grid_ok_def ColStride_def RowStride_def)
  have f: "dgrid ?M = ex_grid" "mheight ?A = 4" "mwidth ?A = 3" by (simp_all add: ex_dm_def)
  have sg: "False \<longrightarrow> dgrid ?M = dgrid ?A" by simp
  show ?thesis
    using CrossGrid.MC_MR_assign_holds [OF M(1) A(1) M(2) A(2) holds_distribute sg, of "\<lambda>_ _. 0" "\<lambda>_. True"]
    unfolding f .
qed

text \<open>The same-grid half of C1 at a concrete input: a destination constrained to
  alignment \<open>(1, 1)\<close> receives
  the spec's \<open>4 \<times> 4\<close> matrix from a source aligned at \<open>(0, 0)\<close> on a \<open>2 \<times> 2\<close> grid,
  so the point-to-point path runs.\<close>

theorem MC_MR_same_grid_holds_witness:
  "\<exists>M'. MC_MR_same_grid (ex_mat MC MR 1 1 True) (distribute ex_G (ex_mat MC MR 0 0 False)) = Inr M'
     \<and> holds M' ex_G \<and> is_MC_MR M' \<and> dgrid M' = ex_grid \<and> mheight M' = 4 \<and> mwidth M' = 4"
  using MC_MR.MC_MR_same_grid_holds [of "ex_mat MC MR 1 1 True"
      "distribute ex_G (ex_mat MC MR 0 0 False)" ex_G]
  by (simp add: ex_mat_def is_MC_MR_def dm_wf_def ex_grid_def grid_ok_def ColStride_def
      RowStride_def holds_distribute)

text \<open>C2 at a concrete input: a destination constrained to column alignment \<open>0\<close> receives
  the \<open>4 \<times> 4\<close> matrix from a \<open>[VC,*]\<close> source aligned at \<open>1\<close> on a \<open>2 \<times> 2\<close> grid;
  since \<open>1 mod 2 \<noteq> 0\<close>, the trade within the grid column runs before the all-to-all.\<close>

theorem MC_MR_from_VC_STAR_holds_witness:
  "\<exists>M'. MC_MR_from_VC_STAR (ex_mat MC MR 0 0 True) (distribute ex_G (ex_mat VC STAR 1 0 False)) = Inr M'
     \<and> holds M' ex_G \<and> is_MC_MR M' \<and> dgrid M' = ex_grid \<and> mheight M' = 4 \<and> mwidth M' = 4"
  using MC_MR_VC.MC_MR_from_VC_STAR_holds [of "ex_mat MC MR 0 0 True"
      "distribute ex_G (ex_mat VC STAR 1 0 False)" ex_G]
  by (simp add: ex_mat_def is_MC_MR_def is_VC_STAR_def dm_wf_def ex_grid_def grid_ok_def ColStride_def
      RowStride_def holds_distribute gsize_def)

text \<open>C3 at a concrete input: aligning with a \<open>[*,VC]\<close> descriptor of row alignment
  \<open>3\<close> on the \<open>2 \<times> 2\<close> grid sets the column alignment to \<open>3 mod 2 = 1\<close>, so row
  \<open>0\<close> of the matrix is owned by grid row \<open>1\<close>, as its \<open>VC\<close> owner \<open>3\<close> is.\<close>

theorem MC_MR_AlignWith_aligns_witness:
  "MC_MR_AlignWith Release (ex_dd ex_grid STAR VC 0 3) (ex_mat MC MR 0 0 False)
     = Inr (AlignCols 1 (ex_mat MC MR 0 0 False))
   \<and> owner_coord ex_grid MC (colAlign (AlignCols 1 (ex_mat MC MR 0 0 False))) 0 = Some (GRow, 1)
   \<and> colConstrained (AlignCols 1 (ex_mat MC MR 0 0 False))"
  using MC_MR_Align.MC_MR_AlignWith_aligns [of Release "ex_dd ex_grid STAR VC 0 3"
      "ex_mat MC MR 0 0 False" "AlignCols 1 (ex_mat MC MR 0 0 False)" VC 3 0 GRow 1]
  by (simp add: ex_dd_def ex_mat_def ex_grid_def MC_MR_AlignWith_def AlignWith_handles_def
      dd_axes_def grid_ok_def gsize_def base_defs)

text \<open>C4 at a concrete input: a \<open>[*,*]\<close> descriptor is outside the table.\<close>

theorem MC_MR_AlignWith_unhandled_witness:
  "MC_MR_AlignWith Debug (ex_dd ex_grid STAR STAR 0 0) (ex_mat MC MR 1 1 False)
     = Inl (LogicError ''Nonsensical alignment'', ex_mat MC MR 1 1 False)
   \<and> MC_MR_AlignWith Release (ex_dd ex_grid STAR STAR 0 0) (ex_mat MC MR 1 1 False)
     = Inr (ex_mat MC MR 1 1 False)"
  using MC_MR_Align.MC_MR_AlignWith_unhandled [of "ex_dd ex_grid STAR STAR 0 0" "ex_mat MC MR 1 1 False"]
  by (simp add: ex_dd_def ex_mat_def AlignWith_handles_def SetGrid_def)

text \<open>C5 at a concrete input: \<open>AlignColsWith\<close> a \<open>[VC,*]\<close> descriptor of column
  alignment \<open>3\<close> on the \<open>2 \<times> 2\<close> grid.\<close>

theorem MC_MR_AlignColsWith_aligns_witness:
  "\<exists>M'. MC_MR_AlignColsWith Debug (ex_dd ex_grid VC STAR 3 0) (ex_mat MC MR 0 0 False) = Inr M'
     \<and> owner_coord (dgrid M') MC (colAlign M') 0 = Some (GRow, 1) \<and> colConstrained M'
     \<and> rowAlign M' = 0 \<and> dgrid M' = ex_grid"
  using MC_MR_Align.MC_MR_AlignColsWith_aligns [of "ex_dd ex_grid VC STAR 3 0"
      "ex_mat MC MR 0 0 False" VC 3 0 1 Debug]
  by (simp add: ex_dd_def ex_mat_def ex_grid_def dist_pair_def dd_axes_def grid_ok_def gsize_def)

text \<open>C6 at a concrete input: \<open>AlignRowsWith\<close> a \<open>[*,VR]\<close> descriptor of row
  alignment \<open>3\<close> on the \<open>2 \<times> 2\<close> grid.\<close>

theorem MC_MR_AlignRowsWith_aligns_witness:
  "\<exists>M'. MC_MR_AlignRowsWith Debug (ex_dd ex_grid STAR VR 0 3) (ex_mat MC MR 0 0 False) = Inr M'
     \<and> owner_coord (dgrid M') MR (rowAlign M') 0 = Some (GCol, 1) \<and> rowConstrained M'
     \<and> colAlign M' = 0 \<and> dgrid M' = ex_grid"
  using MC_MR_Align.MC_MR_AlignRowsWith_aligns [of "ex_dd ex_grid STAR VR 0 3"
      "ex_mat MC MR 0 0 False" VR 3 0 1 Debug]
  by (simp add: ex_dd_def ex_mat_def ex_grid_def dist_pair_def dd_axes_def grid_ok_def gsize_def)

text \<open>C7 at a concrete input: an unconstrained destination takes the transpose of the
  \<open>4 \<times> 4\<close> matrix from a \<open>[*,MC]\<close> source of row alignment \<open>1\<close>.\<close>

theorem MC_MR_TransposeFrom_STAR_MC_local_witness:
  "\<exists>M'. MC_MR_TransposeFrom_STAR_MC False id (ex_mat MC MR 0 0 False)
          (distribute ex_G (ex_mat STAR MC 0 1 False)) = Inr M'
     \<and> holds M' (\<lambda>(i, j). conj_if False id (ex_G (j, i))) \<and> is_MC_MR M'
     \<and> dgrid M' = ex_grid \<and> mheight M' = 4 \<and> mwidth M' = 4"
  using MC_MR_Trans.MC_MR_TransposeFrom_STAR_MC_local [of "ex_mat MC MR 0 0 False"
      "distribute ex_G (ex_mat STAR MC 0 1 False)" ex_G False id]
  by (simp add: ex_mat_def is_MC_MR_def is_STAR_MC_def dm_wf_def ex_grid_def grid_ok_def ColStride_def
      RowStride_def holds_distribute)

text \<open>C8 at a concrete input: a destination constrained to column alignment \<open>1\<close>
  takes the transpose of the \<open>4 \<times> 4\<close> matrix from a \<open>[*,MC]\<close> source of row alignment
  \<open>0\<close> on the \<open>2 \<times> 2\<close> grid, where every share is \<open>2 \<times> 2\<close>: the point-to-point
  path runs.\<close>

theorem MC_MR_TransposeFrom_STAR_MC_uniform_witness:
  "\<exists>M'. MC_MR_TransposeFrom_STAR_MC False id (ex_mat MC MR 1 0 True)
          (distribute ex_G (ex_mat STAR MC 0 0 False)) = Inr M'
     \<and> holds M' (\<lambda>(i, j). conj_if False id (ex_G (j, i))) \<and> is_MC_MR M'
     \<and> dgrid M' = ex_grid \<and> mheight M' = 4 \<and> mwidth M' = 4"
  using MC_MR_Trans.MC_MR_TransposeFrom_STAR_MC_uniform [of "ex_mat MC MR 1 0 True"
      "distribute ex_G (ex_mat STAR MC 0 0 False)" ex_G False id]
  by (simp add: ex_mat_def is_MC_MR_def is_STAR_MC_def dm_wf_def ex_grid_def grid_ok_def ColStride_def
      RowStride_def holds_distribute)

text \<open>C10 at a concrete input: an \<open>[MR,*]\<close> destination constrained to column alignment
  \<open>1\<close> receives the \<open>4 \<times> 4\<close> matrix from an \<open>[MR,*]\<close> source aligned at \<open>0\<close>.\<close>

theorem MR_STAR_same_holds_witness:
  "\<exists>M'. MR_STAR_same (ex_mat MR STAR 1 0 True) (distribute ex_G (ex_mat MR STAR 0 0 False)) = Inr M'
     \<and> holds M' ex_G \<and> is_MR_STAR M' \<and> dgrid M' = ex_grid \<and> mheight M' = 4 \<and> mwidth M' = 4"
  using MR_STAR.MR_STAR_same_holds [of "ex_mat MR STAR 1 0 True"
      "distribute ex_G (ex_mat MR STAR 0 0 False)" ex_G]
  by (simp add: ex_mat_def is_MR_STAR_def dm_wf_def ex_grid_def grid_ok_def ColStride_def
      RowStride_def holds_distribute)

text \<open>C11 at a concrete input: aligning an \<open>[MR,*]\<close> matrix with a \<open>[*,VR]\<close> descriptor
  of row alignment \<open>3\<close>: row \<open>0\<close> goes to grid column \<open>1\<close>, as its \<open>VR\<close> owner \<open>3\<close>.\<close>

theorem MR_STAR_AlignWith_aligns_witness:
  "\<exists>M'. MR_STAR_AlignWith Debug (ex_dd ex_grid STAR VR 0 3) (ex_mat MR STAR 0 0 False) = Inr M'
     \<and> owner_coord (dgrid M') MR (colAlign M') 0 = Some (GCol, 1) \<and> colConstrained M'
     \<and> dgrid M' = ex_grid"
  using MR_STAR.MR_STAR_AlignWith_aligns [of "ex_dd ex_grid STAR VR 0 3" VR 3 0 1 Debug
      "ex_mat MR STAR 0 0 False"]
  by (simp add: ex_dd_def ex_grid_def dist_pair_def dd_axes_def grid_ok_def gsize_def)

text \<open>C12 at a concrete input: an \<open>[MC,*]\<close> descriptor has no axis along grid columns.\<close>

theorem MR_STAR_AlignWith_unhandled_witness:
  "MR_STAR_AlignWith Debug (ex_dd ex_grid MC STAR 0 0) (ex_mat MR STAR 1 0 False)
     = Inl (LogicError ''Nonsensical alignment'', ex_mat MR STAR 1 0 False)
   \<and> MR_STAR_AlignWith Release (ex_dd ex_grid MC STAR 0 0) (ex_mat MR STAR 1 0 False)
     = Inr (ex_mat MR STAR 1 0 False)"
  using MR_STAR.MR_STAR_AlignWith_unhandled [of "ex_dd ex_grid MC STAR 0 0" "ex_mat MR STAR 1 0 False"]
  by (simp add: ex_dd_def ex_mat_def SetGrid_def)

text \<open>C13 at a concrete input: a \<open>[*,MR]\<close> source goes through its \<open>[MC,MR]\<close>
  temporary and arrives with its payload.\<close>

theorem VC_STAR_assign_dyn_ok_witness:
  "bc_env_ok snd fst ex_bc_env \<and> dist_pair STAR MR \<and> (STAR, MR) \<notin> VC_STAR_unwritten
   \<and> VC_STAR_assign_dyn ex_bc_env fst ((VC, STAR), 0) ((STAR, MR), 7) = Inr ((VC, STAR), 7)"
proof -
  have ok: "bc_env_ok snd fst ex_bc_env" by (simp add: bc_env_ok_def ex_bc_env_def)
  have w: "dist_pair STAR MR \<and> (STAR, MR) \<notin> VC_STAR_unwritten"
    by (simp add: dist_pair_def VC_STAR_unwritten_def)
  show ?thesis
    using BC_VC_STAR.VC_STAR_assign_dyn_ok [OF ok, of "((STAR, MR), 7)" "((VC, STAR), 0)"] ok w
    by (auto simp: VC_STAR_assign_dyn_def ex_bc_env_def)
qed

text \<open>C14 at a concrete input: a \<open>[*,MC]\<close> source builds its \<open>[MR,MC]\<close> and
  \<open>[VR,*]\<close> temporaries and then fails.\<close>

theorem VC_STAR_assign_unwritten_witness:
  "bc_env_ok snd fst ex_bc_env \<and> (STAR, MC) \<in> VC_STAR_unwritten
   \<and> VC_STAR_assign ex_bc_env (STAR, MC) ((VC, STAR), 0) ((STAR, MC), 7)
       = Inl (LogicError ''This routine is not yet written'', ((VC, STAR), 0))"
proof -
  have ok: "bc_env_ok snd fst ex_bc_env" by (simp add: bc_env_ok_def ex_bc_env_def)
  have u: "(STAR, MC) \<in> VC_STAR_unwritten" by (simp add: VC_STAR_unwritten_def)
  show ?thesis
    using BC_VC_STAR.VC_STAR_assign_unwritten [OF ok u, of "((VC, STAR), 0)" "((STAR, MC), 7)"] ok u
    by simp
qed

text \<open>C15 on the \<open>2 \<times> 2\<close> grid: column ranks run over the four processes.\<close>

theorem VC_STAR_queries_consistent_witness:
  "queries_consistent ex_grid VC STAR (VC_STAR_queries ex_grid)
   \<and> qColStride (VC_STAR_queries ex_grid) = 4"
  using BC_VC_STAR.VC_STAR_queries_consistent [of ex_grid]
  by (simp add: VC_STAR_queries_def ex_grid_def gsize_def)

text \<open>C16 at a concrete input: the \<open>4 \<times> 4\<close> matrix in \<open>[MC,MR]\<close> on the
  \<open>2 \<times> 2\<close> grid, converted to \<open>[*,MD]\<close> through \<open>[*,*]\<close>.\<close>

theorem STAR_MD_assign_holds_witness:
  "\<exists>M'. STAR_MD_assign Debug (\<lambda>_. ex_G) (\<lambda>T A. T) (MC, MR) (ex_mat STAR MD 0 1 False)
          (distribute ex_G (ex_mat MC MR 0 0 False)) = Inr M'
     \<and> holds M' ex_G \<and> is_STAR_MD M' \<and> dgrid M' = ex_grid \<and> mheight M' = 4 \<and> mwidth M' = 4"
  using STAR_MD.STAR_MD_assign_holds [where s = "(MC, MR)" and A = "distribute ex_G (ex_mat MC MR 0 0 False)"
      and M = "ex_mat STAR MD 0 1 False" and G = ex_G and gather = "\<lambda>_. ex_G" and b = Debug
      and scatter = "\<lambda>T A. T"]
  by (simp add: ex_mat_def is_STAR_MD_def dm_wf_def ex_grid_def grid_ok_def ColStride_def
      RowStride_def holds_distribute gathers_def dist_pair_def)

text \<open>C17 at a concrete input.\<close>

theorem STAR_MD_from_CIRC_misaligned_witness:
  "STAR_MD_assign Debug (\<lambda>_. ex_G) (\<lambda>T A. T) (CIRC, CIRC) (ex_mat STAR MD 0 0 False) (ex_mat CIRC CIRC 0 0 False)
     = Inl (LogicError ''Nonsensical alignment'', ex_mat STAR MD 0 0 False)"
  using STAR_MD.STAR_MD_from_CIRC_misaligned [where M = "ex_mat STAR MD 0 0 False" and gather = "\<lambda>_. ex_G"
      and scatter = "\<lambda>T A. T" and A = "ex_mat CIRC CIRC 0 0 False"]
  by (simp add: ex_mat_def is_STAR_MD_def)

text \<open>C18 at a concrete input: a \<open>[*,MD]\<close> matrix aligned with a source of row
  alignment \<open>1\<close>.\<close>

theorem STAR_MD_AlignWith_then_copy_witness:
  "STAR_MD_AlignWith Release (DistData_of (ex_mat STAR MD 0 1 False)) (ex_mat STAR MD 0 0 False)
     = Inr (AlignRows 1 (SetRoot 0 (ex_mat STAR MD 0 0 False)))
   \<and> STAR_MD_same (\<lambda>_. ex_G) (AlignRows 1 (SetRoot 0 (ex_mat STAR MD 0 0 False))) (ex_mat STAR MD 0 1 False)
     = (Resize 4 4 (AlignRows 1 (SetRoot 0 (ex_mat STAR MD 0 0 False))))\<lparr>locals := locals (ex_mat STAR MD 0 1 False)\<rparr>"
proof -
  have al: "STAR_MD_AlignWith Release (DistData_of (ex_mat STAR MD 0 1 False)) (ex_mat STAR MD 0 0 False)
     = Inr (AlignRows 1 (SetRoot 0 (ex_mat STAR MD 0 0 False)))"
    by (simp add: STAR_MD_AlignWith_def DistData_of_def ex_mat_def SetGrid_def)
  show ?thesis
    using STAR_MD.STAR_MD_AlignWith_then_copy [OF _ al, where gather = "\<lambda>_. ex_G"] al
    by (simp add: is_STAR_MD_def ex_mat_def)
qed

text \<open>C19 on the \<open>2 \<times> 2\<close> grid.\<close>

theorem basic_queries_consistent_witness:
  "comms_consistent ex_grid STAR MD (STAR_MD_queries ex_grid) \<and> qRowStride (STAR_MD_queries ex_grid) = 2"
  using Queries.basic_queries_consistent [of ex_grid]
  by (simp add: ex_grid_def grid_ok_def STAR_MD_queries_def)

text \<open>C20 at a concrete input: the \<open>4 \<times> 4\<close> matrix in \<open>[VR,*]\<close> into an
  \<open>[MC,MR]\<close> matrix of column alignment \<open>1\<close>, with an exact gather.\<close>

theorem MC_MR_from_VR_STAR_holds_witness:
  "\<exists>M'. MC_MR_from_VR_STAR (\<lambda>_. ex_G) (ex_mat MC MR 1 0 False) (distribute ex_G (ex_mat VR STAR 0 0 False)) = Inr M'
     \<and> delivers (ex_mat MC MR 1 0 False) (distribute ex_G (ex_mat VR STAR 0 0 False)) ex_G M'"
proof -
  have ok: "gather_ok (\<lambda>_. ex_G) ex_G" by (simp add: gather_ok_def gathers_def)
  have wf: "dm_wf (ex_mat MC MR 1 0 False)" "dm_wf (distribute ex_G (ex_mat VR STAR 0 0 False))"
    by (simp_all add: ex_mat_def dm_wf_def ex_grid_def grid_ok_def ColStride_def RowStride_def gsize_def)
  have M: "is_MC_MR (ex_mat MC MR 1 0 False)" by (simp add: ex_mat_def is_MC_MR_def)
  show ?thesis
    using Routes.MC_MR_from_VR_STAR_holds [OF ok M wf holds_distribute] by blast
qed

text \<open>C21 at a concrete input: a column vector of height \<open>4\<close> in \<open>[MC,*]\<close> of
  alignment \<open>1\<close>, into an \<open>[MR,*]\<close> vector of alignment \<open>1\<close> on the \<open>2 \<times> 2\<close> grid.\<close>

theorem MR_STAR_from_MC_STAR_delivers_witness:
  "\<exists>M'. MR_STAR_from_MC_STAR (\<lambda>_. ex_G) (ex_dm ex_grid MR STAR 4 1 1 0 False)
         (distribute ex_G (ex_dm ex_grid MC STAR 4 1 1 0 False)) = Inr M'
     \<and> delivers (ex_dm ex_grid MR STAR 4 1 1 0 False) (distribute ex_G (ex_dm ex_grid MC STAR 4 1 1 0 False))
         ex_G M'"
  using MR_STAR_Vec.MR_STAR_from_MC_STAR_delivers [of "\<lambda>_. ex_G" ex_G
      "ex_dm ex_grid MR STAR 4 1 1 0 False" "distribute ex_G (ex_dm ex_grid MC STAR 4 1 1 0 False)"]
  by (simp add: gather_ok_def gathers_def ex_dm_def is_MR_STAR_def is_MC_STAR_def dm_wf_def ex_grid_def
      grid_ok_def ColStride_def RowStride_def holds_distribute)

lemma ex_last_offset_ok: "last_offset_ok ex_last_offset"
  unfolding last_offset_ok_def
proof (intro allI impI)
  fix n b :: int assume n: "0 \<le> n" and b: "0 < b"
  have m: "0 \<le> n mod b" "n mod b < b" using b by simp_all
  show "ex_last_offset n b < n \<and> n - b \<le> ex_last_offset n b \<and> ex_last_offset n b mod b = 0"
  proof (cases "n mod b = 0")
    case True
    then show ?thesis using b by (simp add: ex_last_offset_def mod_diff_right_eq [symmetric])
  next
    case False
    then have p: "0 < n mod b" using m by simp
    have "n - n mod b = b * (n div b)" by (simp add: minus_mod_eq_mult_div)
    then have "(n - n mod b) mod b = 0" by simp
    then show ?thesis using False p m by (simp add: ex_last_offset_def)
  qed
qed

text \<open>C22 at a concrete input: a \<open>3 \<times> 5\<close> matrix with block size \<open>2\<close>: the
  panels at \<open>t\<close>'s rows \<open>2\<close> (one row) and then \<open>0\<close> (two rows).\<close>

theorem rq_Householder_terminates_witness:
  "0 < (2::int) \<and> rq_Householder ex_rq_env 2 3 5 (False, []) = Some (False, [View 2 0 1 1, View 0 0 2 1])"
  using RQ.rq_Householder_terminates [of 2 ex_rq_env 3 5 "(False, [])"]
  by (simp add: ex_rq_env_def ex_last_offset_def rq_offsets_def rq_schedule_def rq_step_def rq_views_def
      Let_def eval_nat_numeral)

text \<open>C23 at a concrete input: the panel at offset \<open>0\<close> of a \<open>3 \<times> 5\<close> matrix.\<close>

theorem rq_panels_in_range_witness:
  "0 \<in> set (rq_schedule 2 (rq_last_offset ex_rq_env (min 3 5) 2))
   \<and> (case rq_views 2 (min 3 5) (fst (rq_offsets 3 5)) (snd (rq_offsets 3 5)) 0 of
        (ATopPan, ABottomPan, t1) \<Rightarrow> view_in 3 5 ATopPan \<and> view_in 3 5 ABottomPan
          \<and> view_in (min 3 5) 1 t1 \<and> 0 < vHeight t1)"
proof -
  have s: "0 \<in> set (rq_schedule 2 (rq_last_offset ex_rq_env (min 3 5) 2))"
    by (simp add: ex_rq_env_def ex_last_offset_def rq_schedule_def eval_nat_numeral)
  show ?thesis
    using s RQ.rq_panels_in_range [OF _ _ _ _ s] ex_last_offset_ok by (simp add: ex_rq_env_def)
qed

text \<open>C24 at a concrete input: row \<open>1\<close> of \<open>t\<close> for a \<open>3 \<times> 5\<close> matrix with block
  size \<open>2\<close> lies in exactly one panel.\<close>

theorem rq_panels_cover_witness:
  "\<exists>!k. k \<in> set (rq_schedule 2 (rq_last_offset ex_rq_env (min 3 5) 2))
     \<and> vRow (snd (snd (rq_views 2 (min 3 5) 0 2 k))) \<le> 1
     \<and> 1 < vRow (snd (snd (rq_views 2 (min 3 5) 0 2 k))) + vHeight (snd (snd (rq_views 2 (min 3 5) 0 2 k)))"
  using RQ.rq_panels_cover [of ex_rq_env 2 3 5 1 0 2] ex_last_offset_ok by (simp add: ex_rq_env_def)

text \<open>C25 at concrete inputs: \<open>A\<close> and \<open>t\<close> on different grids, \<open>t\<close> a view that is
  not aligned, and \<open>t\<close> not a view in a release build.\<close>

theorem rq_Householder_dist_checks_witness:
  "rq_Householder_dist ex_rq_env Debug 2 3 5 (True, [])
     = Some (Inl (LogicError ''{A,s} must be distributed over the same grid'', (True, [])))
   \<and> rq_Householder_dist ex_rq_env Release 2 3 5 (True, [])
     = Some (Inl (LogicError ''t was not aligned with A'', (True, [])))
   \<and> rq_Householder_dist ex_rq_env Release 2 3 5 (False, []) = Some (Inr (False, [View 2 0 1 1, View 0 0 2 1]))"
  using RQ.rq_Householder_dist_checks [of ex_rq_env "(True, [])" 2 3 5 Release]
    RQ.rq_Householder_dist_checks [of ex_rq_env "(False, [])" 2 3 5 Release]
  by (simp add: ex_rq_env_def ex_last_offset_def rq_offsets_def rq_schedule_def rq_step_def rq_views_def
      Let_def eval_nat_numeral)

text \<open>C26 at a concrete input: the transpose of the \<open>4 \<times> 4\<close> matrix in \<open>[MC,MR]\<close>
  of alignments \<open>(0, 1)\<close> into an \<open>[MR,*]\<close> matrix constrained to column alignment
  \<open>0\<close>, which takes the trade within the grid row.\<close>

theorem MR_STAR_TransposeFrom_holds_witness:
  "\<exists>M'. MR_STAR_TransposeFrom False id (ex_mat MR STAR 0 0 True) (distribute ex_G (ex_mat MC MR 0 1 False)) = Inr M'
     \<and> holds M' (\<lambda>(i, j). conj_if False id (ex_G (j, i)))
     \<and> is_MR_STAR M' \<and> dgrid M' = ex_grid \<and> mheight M' = 4 \<and> mwidth M' = 4"
  using MR_STAR_Trans.MR_STAR_TransposeFrom_holds [of "ex_mat MR STAR 0 0 True"
      "distribute ex_G (ex_mat MC MR 0 1 False)" ex_G False id]
  by (simp add: ex_mat_def is_MR_STAR_def is_MC_MR_def dm_wf_def ex_grid_def grid_ok_def ColStride_def
      RowStride_def holds_distribute)

text \<open>C27 at a concrete input: a destination constrained to row alignment \<open>0\<close>
  receives the \<open>4 \<times> 4\<close> matrix from a \<open>[*,VR]\<close> source of row alignment \<open>1\<close>
  on the \<open>2 \<times> 2\<close> grid; since \<open>1 mod 2 \<noteq> 0\<close>, the trade within the grid row runs
  before the all-to-all.\<close>

theorem MC_MR_from_STAR_VR_holds_witness:
  "\<exists>M'. MC_MR_from_STAR_VR (ex_mat MC MR 0 0 True) (distribute ex_G (ex_mat STAR VR 0 1 False)) = Inr M'
     \<and> holds M' ex_G \<and> is_MC_MR M' \<and> dgrid M' = ex_grid \<and> mheight M' = 4 \<and> mwidth M' = 4"
  using MC_MR_STAR_VR.MC_MR_from_STAR_VR_holds [of "ex_mat MC MR 0 0 True"
      "distribute ex_G (ex_mat STAR VR 0 1 False)" ex_G]
  by (simp add: ex_mat_def is_MC_MR_def is_STAR_VR_def dm_wf_def ex_grid_def grid_ok_def ColStride_def
      RowStride_def holds_distribute gsize_def)

text \<open>C28 at a concrete input: an \<open>[MC,MR]\<close> destination of alignment \<open>(1, 1)\<close>
  and the \<open>4 \<times> 4\<close> matrix in \<open>[*,VC]\<close> of row alignment \<open>3\<close> and in
  \<open>[*,MC]\<close> of row alignment \<open>1\<close>.\<close>

theorem MC_MR_STAR_routes_deliver_witness:
  "MC_MR_from_STAR_VC (\<lambda>_. ex_G) (ex_mat MC MR 1 1 False) (distribute ex_G (ex_mat STAR VC 0 3 False))
     = MC_MR_SVR_aligned (AlignRowsAndResize 1 4 4 (ex_mat MC MR 1 1 False))
         (convert (\<lambda>_. ex_G) (new_dm_row STAR VR 1 ex_grid) (distribute ex_G (ex_mat STAR VC 0 3 False)))
   \<and> (\<exists>M'. MC_MR_from_STAR_VC (\<lambda>_. ex_G) (ex_mat MC MR 1 1 False) (distribute ex_G (ex_mat STAR VC 0 3 False)) = Inr M'
       \<and> delivers (ex_mat MC MR 1 1 False) (distribute ex_G (ex_mat STAR VC 0 3 False)) ex_G M')
   \<and> (\<exists>M'. MC_MR_from_STAR_MC (\<lambda>_. ex_G) (ex_mat MC MR 1 1 False) (distribute ex_G (ex_mat STAR MC 0 1 False)) = Inr M'
       \<and> delivers (ex_mat MC MR 1 1 False) (distribute ex_G (ex_mat STAR MC 0 1 False)) ex_G M')"
proof -
  let ?M = "ex_mat MC MR 1 1 False"
  let ?A = "distribute ex_G (ex_mat STAR VC 0 3 False)"
  let ?B = "distribute ex_G (ex_mat STAR MC 0 1 False)"
  have ga: "gather_ok (\<lambda>_. ex_G) ex_G" by (simp add: gather_ok_def gathers_def)
  have M: "is_MC_MR ?M" "dm_wf ?M"
    by (simp_all add: ex_mat_def is_MC_MR_def dm_wf_def ex_grid_def grid_ok_def ColStride_def RowStride_def)
  have A: "dm_wf ?A" "dm_wf ?B"
    by (simp_all add: ex_mat_def dm_wf_def ex_grid_def grid_ok_def ColStride_def RowStride_def gsize_def)
  have f: "dgrid ?A = dgrid ?M" "dgrid ?B = dgrid ?M" "dgrid ?M = ex_grid" "rowAlign ?M = 1"
    "mheight ?A = 4" "mwidth ?A = 4"
    by (simp_all add: ex_mat_def)
  note R1 = Routes_STAR_VR.MC_MR_STAR_routes_deliver [OF ga M A(1) holds_distribute f(1)]
  note R2 = Routes_STAR_VR.MC_MR_STAR_routes_deliver [OF ga M A(2) holds_distribute f(2)]
  show ?thesis using R1 R2 unfolding f(3-6) by blast
qed

text \<open>C29 at a concrete input: a column vector of height \<open>4\<close> in \<open>[MR,MC]\<close> of
  alignments \<open>(1, 1)\<close> into an \<open>[MC,MR]\<close> vector of alignments \<open>(0, 0)\<close> on the
  \<open>2 \<times> 2\<close> grid, which takes the scatter, exchange and gather path.\<close>

theorem MC_MR_from_MR_MC_holds_witness:
  "\<exists>M'. MC_MR_from_MR_MC (\<lambda>_. ex_G) (ex_dm ex_grid MC MR 4 1 0 0 False)
         (distribute ex_G (ex_dm ex_grid MR MC 4 1 1 1 False)) = Inr M'
     \<and> holds M' ex_G \<and> is_MC_MR M' \<and> dgrid M' = ex_grid \<and> mheight M' = 4 \<and> mwidth M' = 1"
proof -
  let ?M = "ex_dm ex_grid MC MR 4 1 0 0 False"
  let ?A = "distribute ex_G (ex_dm ex_grid MR MC 4 1 1 1 False)"
  have ga: "gather_ok (\<lambda>_. ex_G) ex_G" by (simp add: gather_ok_def gathers_def)
  have M: "is_MC_MR ?M" "dm_wf ?M"
    by (simp_all add: ex_dm_def is_MC_MR_def dm_wf_def ex_grid_def grid_ok_def ColStride_def RowStride_def)
  have A: "is_MR_MC ?A" "dm_wf ?A" "dgrid ?A = dgrid ?M"
    by (simp_all add: ex_dm_def is_MR_MC_def dm_wf_def ex_grid_def grid_ok_def ColStride_def RowStride_def)
  have f: "dgrid ?A = ex_grid" "mheight ?A = 4" "mwidth ?A = 1" by (simp_all add: ex_dm_def)
  show ?thesis
    using MC_MR_MR_MC.MC_MR_from_MR_MC_holds [OF ga M(1) A(1) A(3) M(2) A(2) holds_distribute]
    unfolding f .
qed

lemma ex_sinv_ok: "sinv_ok ex_sinv_env id id ex_rot 3"
  by (auto simp: sinv_ok_def ex_sinv_env_def sym_upto_def ex_sym_def conj_if_def ex_rot_def max_def min_def)

lemma ex_dsinv_ok: "sinv_ok ex_dsinv_env (\<lambda>M. locals M 0) id ex_rot 3"
  by (auto simp: sinv_ok_def ex_dsinv_env_def sym_upto_def ex_sym_def conj_if_def ex_rot_def max_def min_def)

text \<open>C30 at a concrete input: the sequential routine on \<open>ex_G\<close> with the upper
  triangle raises and returns \<open>ex_G\<close> unchanged.\<close>

theorem SymmetricInverse_error_iff_witness:
  "SymmetricInverse ex_sinv_env UPPER ex_G False ()
     = Inl (LogicError ''This option is not yet supported'', ex_G)
   \<and> (\<exists>e. LocalSymmetricInverse ex_sinv_env UPPER (ex_mat STAR STAR 0 0 False) False () = Inl (e, ex_mat STAR STAR 0 0 False))"
  using SymInv.SymmetricInverse_error_iff [where env = ex_sinv_env and uplo = UPPER and A = ex_G
      and cj = False and piv = "()" and denv = ex_dsinv_env and D = "ex_mat STAR STAR 0 0 False"
      and lenv = ex_sinv_env]
  by simp

text \<open>C31 at a concrete input: all three overloads on the lower triangle of \<open>ex_G\<close>
  (its \<open>3 \<times> 3\<close> leading block) with the example kernels.\<close>

theorem SymmetricInverse_symmetric_witness:
  "(\<exists>B. SymmetricInverse ex_sinv_env LOWER ex_G False () = Inr B \<and> sym_upto 3 False id B)
   \<and> (\<exists>B. SymmetricInverse_dist ex_dsinv_env LOWER (distribute ex_G (ex_mat MC MR 0 0 False)) False () = Inr B
        \<and> sym_upto 3 False id (locals B 0))
   \<and> (\<exists>B. LocalSymmetricInverse ex_sinv_env LOWER (distribute ex_G (ex_mat STAR STAR 0 0 False)) False () = Inr B
        \<and> (\<forall>q. sym_upto 3 False id (locals B q)))"
  using SymInv.SymmetricInverse_symmetric [OF ex_sinv_ok ex_dsinv_ok ex_sinv_ok, where A = ex_G
      and cj = False and piv = "()" and D = "distribute ex_G (ex_mat MC MR 0 0 False)"
      and E = "distribute ex_G (ex_mat STAR STAR 0 0 False)"]
  by simp

lemma ex_skel_ok: "skel_ok ex_skel_env"
  by (auto simp: skel_ok_def ex_skel_env_def ex_shape_def gemm_conformal_def op_shape_def split: prod.splits)

text \<open>C32 at a concrete input: a \<open>4 \<times> 3\<close> matrix, whose first QR takes \<open>3\<close> steps,
  gets a \<open>3 \<times> 3\<close> middle factor.\<close>

theorem Skeleton_shape_witness:
  "\<exists>permR permC Z. Skeleton ex_skel_env (4, 3) ex_qr_ctrl = Inr (permR, permC, Z) \<and> sk_shape ex_skel_env Z = (3, 3)"
  using SkeletonDecomp.Skeleton_shape [OF ex_skel_ok, of "(4, 3)" ex_qr_ctrl]
  by (simp add: ex_skel_env_def ex_shape_def)

theorem MC_MR_from_CIRC_CIRC_holds_witness:
  "\<exists>M'. MC_MR_from_CIRC_CIRC (ex_dm ex_grid MC MR 3 3 1 0 False)
         (distribute ex_G (ex_dm ex_grid CIRC CIRC 3 2 0 0 False)) = Inr M'
     \<and> holds M' ex_G \<and> is_MC_MR M' \<and> dgrid M' = ex_grid \<and> mheight M' = 3 \<and> mwidth M' = 2"
proof -
  let ?M = "ex_dm ex_grid MC MR 3 3 1 0 False"
  let ?A = "distribute ex_G (ex_dm ex_grid CIRC CIRC 3 2 0 0 False)"
  have M: "is_MC_MR ?M" "dm_wf ?M"
    by (simp_all add: ex_dm_def is_MC_MR_def dm_wf_def ex_grid_def grid_ok_def ColStride_def RowStride_def)
  have A: "is_CIRC_CIRC ?A" "dm_wf ?A" "dgrid ?A = dgrid ?M" "root ?A \<in> procs (dgrid ?A)"
    by (simp_all add: ex_dm_def is_CIRC_CIRC_def dm_wf_def ex_grid_def grid_ok_def ColStride_def
        RowStride_def procs_def gsize_def)
  have f: "dgrid ?A = ex_grid" "mheight ?A = 3" "mwidth ?A = 2" by (simp_all add: ex_dm_def)
  show ?thesis
    using CIRC_CIRC.MC_MR_from_CIRC_CIRC_holds [OF M(1) A(1) A(3) M(2) A(2) A(4) holds_distribute]
    unfolding f .
qed

text \<open>C34 at a concrete input: a \<open>4 \<times> 3\<close> matrix aligned at \<open>(1, 0)\<close> on a
  \<open>2 \<times> 1\<close> grid copied to a destination aligned at \<open>(0, 1)\<close> on a \<open>2 \<times> 2\<close>
  grid, in two rounds along the rows (\<open>2 / gcd(2, 1)\<close>): the message process \<open>1\<close>
  sends in round \<open>(0, 1)\<close>.\<close>

theorem CopyFromDifferentGrid_sends_received_witness:
  "let k = CFDG_consts (ex_dm ex_grid MC MR 4 3 0 1 False) (ex_dm ex_grid_2x1 MC MR 4 3 1 0 False);
       msgs = (\<lambda>p. CFDG_sends k (ex_dm ex_grid_2x1 MC MR 4 3 1 0 False) p (\<lambda>_. 0));
       q = msgDest (msgs 1 (0, 1));
       recvs = (\<lambda>msgs'. CFDG_recvs k 4 3 msgs' q 0 (ColRank (ex_dm ex_grid MC MR 4 3 0 1 False) q)
                  (RowRank (ex_dm ex_grid MC MR 4 3 0 1 False) q) (ColShift (ex_dm ex_grid MC MR 4 3 0 1 False) q)
                  (RowShift (ex_dm ex_grid MC MR 4 3 0 1 False) q) (\<lambda>_. 0, \<lambda>_. 0))
   in q \<in> procs ex_grid \<and> (\<exists>st'. recvs msgs = Some st')
      \<and> (\<forall>m'. msgDest m' \<noteq> q \<longrightarrow> recvs (msgs(1 := (msgs 1)((0, 1) := m'))) = None)"
proof -
  let ?M = "ex_dm ex_grid MC MR 4 3 0 1 False"
  let ?A = "ex_dm ex_grid_2x1 MC MR 4 3 1 0 False"
  have M: "is_MC_MR ?M" "dm_wf ?M"
    by (simp_all add: ex_dm_def is_MC_MR_def dm_wf_def ex_grid_def grid_ok_def ColStride_def RowStride_def)
  have A: "is_MC_MR ?A" "dm_wf ?A"
    by (simp_all add: ex_dm_def is_MC_MR_def dm_wf_def ex_grid_2x1_def grid_ok_def ColStride_def RowStride_def)
  have p: "1 \<in> procs (dgrid ?A)" by (simp add: ex_dm_def ex_grid_2x1_def procs_def gsize_def)
  have n: "0 < cfNumColSends (CFDG_consts ?M ?A)" "1 < cfNumRowSends (CFDG_consts ?M ?A)"
    by (simp_all add: CFDG_consts_def ex_dm_def ex_grid_def ex_grid_2x1_def ColStride_def RowStride_def is_MC_MR_def)
  have f: "mheight ?A = 4" "mwidth ?A = 3" "dgrid ?M = ex_grid" by (simp_all add: ex_dm_def)
  show ?thesis
    using CrossGridMatch.CopyFromDifferentGrid_sends_received [OF M(1) A(1) M(2) A(2) p order.refl n(1) _ n(2),
        where sendBuf = "\<lambda>_ _. 0" and base = 0 and st = "(\<lambda>_. 0, \<lambda>_. 0)"]
    unfolding f by simp
qed

section \<open>The unaligned path of \<open>TransposeFrom([*,MC])\<close>\<close>

lemma tr_pre: "is_MC_MR (ex_dm ex_grid_2x1 MC MR 0 0 1 0 True)"
  "is_STAR_MC (distribute ex_G (ex_dm ex_grid_2x1 STAR MC 3 4 0 0 False))"
  "dgrid (distribute ex_G (ex_dm ex_grid_2x1 STAR MC 3 4 0 0 False)) = dgrid (ex_dm ex_grid_2x1 MC MR 0 0 1 0 True)"
  "dm_wf (ex_dm ex_grid_2x1 MC MR 0 0 1 0 True)"
  "dm_wf (distribute ex_G (ex_dm ex_grid_2x1 STAR MC 3 4 0 0 False))"
  by (simp_all add: ex_dm_def is_MC_MR_def is_STAR_MC_def dm_wf_def ex_grid_2x1_def grid_ok_def
        ColStride_def RowStride_def)


lemma tr_unaligned: "colAlign tr_M \<noteq> rowAlign tr_A"
  by (simp add: ex_dm_def AlignColsAndResize_def Resize_def)

lemma tr_src: "comm_member (dgrid tr_M) MCComm 0 (recvFrom (trans_STAR_MC_xfer tr_M tr_A 0)) = 1"
  by (simp add: ex_dm_def ex_grid_2x1_def trans_STAR_MC_xfer_def Let_def ColStride_def ColRank_def
        grid_defs AlignColsAndResize_def Resize_def)

lemma tr_sizes: "LocalHeight tr_M 0 = 2" "LocalWidth tr_M 0 = 3" "LocalWidth tr_M 1 = 3" "LocalWidth tr_A 1 = 2"
    "RowShift tr_M 1 = 0" "RowStride tr_M = 1" "ColShift tr_M 0 = 1" "RowShift tr_M 0 = 0" "ColStride tr_M = 2"
    "Participating tr_M 0" "0 \<in> procs (dgrid tr_M)"
  by (simp_all add: ex_dm_def ex_grid_2x1_def dm_defs Shift_def Length_def grid_defs
        AlignColsAndResize_def Resize_def distribute_def)


text \<open>C9. The unaligned path of \<open>[MC,MR]::TransposeFrom\<close> from \<open>[*,MC]\<close> packs the
  transposed columns at stride \<open>localWidth\<close> (\<open>mc_mr.cpp\<close>, line 1064) while the
  receiver unpacks them at stride \<open>localHeight\<close>, its partner's \<open>localWidthA\<close>; when
  the two differ the destination does not hold the transpose. On the \<open>2 \<times> 1\<close> grid
  with a \<open>3 \<times> 4\<close> source and a destination constrained to column alignment \<open>1\<close>,
  process \<open>0\<close> finds \<open>A[1][1] = 5\<close> at local entry \<open>(1, 1)\<close>, which stands for
  global entry \<open>(3, 1)\<close> and should be \<open>A[1][3] = 7\<close>.\<close>

theorem TransposeFrom_STAR_MC_unaligned_wrong:
  "\<exists>M'. MC_MR_TransposeFrom_STAR_MC False id tr_M0 tr_A = Inr M'
     \<and> locals M' 0 (1, 1) = 5 \<and> \<not> holds M' (\<lambda>(i, j). ex_G (j, i))"
proof -
  from trans_STAR_MC_unaligned_at [OF tr_pre tr_unaligned, of False id]
  obtain M' where res: "MC_MR_TransposeFrom_STAR_MC False id tr_M0 tr_A = Inr M'" and lay: "same_layout M' tr_M"
    and val: "\<forall>q\<in>procs (dgrid tr_M). \<forall>i j. 0 \<le> i \<longrightarrow> i < LocalHeight tr_M q \<longrightarrow> 0 \<le> j \<longrightarrow> j < LocalWidth tr_M q \<longrightarrow>
         locals M' q (i, j) = pack_trans_STAR_MC (LocalWidth tr_M (comm_member (dgrid tr_M) MCComm q (recvFrom (trans_STAR_MC_xfer tr_M tr_A q))))
           (LocalWidth tr_A (comm_member (dgrid tr_M) MCComm q (recvFrom (trans_STAR_MC_xfer tr_M tr_A q))))
           (RowShift tr_M (comm_member (dgrid tr_M) MCComm q (recvFrom (trans_STAR_MC_xfer tr_M tr_A q)))) (RowStride tr_M) (conj_if False id)
           (locals tr_A (comm_member (dgrid tr_M) MCComm q (recvFrom (trans_STAR_MC_xfer tr_M tr_A q))))
           (auxMem tr_M0 (comm_member (dgrid tr_M) MCComm q (recvFrom (trans_STAR_MC_xfer tr_M tr_A q)))) (j * LocalHeight tr_M q + i)"
    by blast
  have "locals M' 0 (1, 1) = pack_trans_STAR_MC 3 2 0 1 (conj_if False id) (locals tr_A 1) (auxMem tr_M0 1) (1 * 3 + 0)"
    using val tr_sizes tr_src by simp
  also have "\<dots> = locals tr_A 1 (0 + 1 * 1, 0)"
    by (subst pack_trans_STAR_MC_at) (simp_all add: conj_if_def)
  also have "\<dots> = 5"
    by (simp add: distribute_def ex_dm_def ex_G_def ex_grid_2x1_def dm_defs Shift_def grid_defs)
  finally have v: "locals M' 0 (1, 1) = 5" .
  have "\<not> holds M' (\<lambda>(i, j). ex_G (j, i))"
  proof
    assume h: "holds M' (\<lambda>(i, j). ex_G (j, i))"
    have "locals M' 0 (1, 1) = ex_G (RowShift tr_M 0 + 1 * RowStride tr_M, ColShift tr_M 0 + 1 * ColStride tr_M)"
      using h tr_sizes same_layout_dm [OF lay] lay unfolding holds_def same_layout_def by auto
    then show False using v tr_sizes by (simp add: ex_G_def)
  qed
  then show ?thesis using res v by blast
qed

end
